(* ===== verification/Prelude.thy ===== *)
theory Prelude
  imports Main "HOL-Library.Word" "HOL-Library.List_Lexorder" "HOL-Library.Char_ord"
begin

text \<open>
  Shared vocabulary of the development: the result type of code that may raise, the
  reasons and exceptions the code reports, Python's slices, prefixes, numbers and integer
  printing, and the generic lemmas the component theories rely on.

  A Python function that may raise returns a value of type \<open>'a result\<close>: \<open>Inl\<close> is the
  exception, \<open>Inr\<close> the returned value.  A function returning \<open>(ok, reason)\<close> returns a
  \<open>verdict\<close>: \<open>Valid\<close> is \<open>(True, "")\<close> and \<open>Invalid r\<close> is \<open>(False, r)\<close>, where each
  message of the source is one constructor of a reason type, with the values its f-string
  interpolates as arguments.
\<close>

named_theorems verdict_simps \<open>unfolding rules of the validation predicates\<close>
named_theorems hash_facts \<open>shape of SHA-256 digests and of what is derived from them\<close>
named_theorems frame_simps \<open>fields an operation leaves unchanged\<close>

section \<open>Reasons, verdicts, exceptions\<close>

text \<open>Messages of \<open>native_asset.py\<close>, \<open>validators.py\<close>, \<open>blockchain.py\<close> and
  \<open>consensus.py\<close>, one constructor each, grouped by the function that reports them.\<close>

datatype tx_reason =
    AmountNotInteger
  | AmountNotPositive
  | AmountExceedsSupply
  | SenderEqualsReceiver
  | SignatureFailed

datatype state_reason =
    NotExactlyOneCoinbase
  | NoIssuanceRemains
  | CoinbaseRewardMismatch
  | SupplyWouldBeExceeded
  | InvalidTransactionIn string tx_reason
  | InsufficientBalance string int int

datatype structure_reason =
    NegativeIndex
  | MerkleMismatch
  | HashMismatch
  | TooManyCoinbases
  | MissingCoinbase
  | RewardNotProtocol int int
  | CoinbaseExceedsSupply
  | InvalidTransaction string tx_reason

datatype block_reason =
    EmptyPrefix
  | IndexNotSequential
  | PreviousHashMismatch
  | TimestampNotAfter
  | ExistingStateInvalid state_reason
  | InvalidTransition state_reason
  | DifficultyMismatch int int
  | ProofOfWorkFailed
  | NoIssuanceForBlock
  | BadStructure structure_reason
  | BlockExceedsSupply

datatype chain_reason =
    EmptyChain
  | GenesisInvalid structure_reason
  | BlockInvalid int block_reason
  | MonetaryStateInvalid state_reason
  | ChainExceedsSupply

datatype replace_reason =
    CandidateEmpty
  | GenesisMismatch
  | WorkNotGreater int int
  | CandidateInvalid chain_reason

datatype submit_reason =
    TransactionInvalid tx_reason
  | InsufficientFunds string int int int
  | MempoolRejected

text \<open>The messages of the exceptions the core raises itself.\<close>

datatype validation_message =
    NegativeDifficulty
  | NonceSpaceExhausted
  | UnknownAlgorithm string
  | SupplyExhausted
  | MinedBlockInvalid block_reason
  | CoinbaseNotSignable
  | WalletMismatch
  | AmountGivenTwice
  | AmountMissing
  | AmountUnparsable
  | AmountNotInt

datatype py_error =
    TypeError
  | ValueError
  | OverflowError
  | AttributeError
  | KeyError string
  | IndexError
  | DecimalError
  | ValidationError validation_message
  | StorageError
  | WalletError
  | UntypedField string

datatype 'r verdict = Valid | Invalid 'r

type_synonym 'a result = "py_error + 'a"

fun is_valid_verdict :: "'r verdict \<Rightarrow> bool" where
  "is_valid_verdict Valid = True"
| "is_valid_verdict (Invalid _) = False"

lemma is_valid_verdict_iff [simp]: "is_valid_verdict v \<longleftrightarrow> v = Valid"
  by (cases v) auto

text \<open>Running a fallible step over a list, stopping at the first exception.\<close>

fun map_result :: "('a \<Rightarrow> 'b result) \<Rightarrow> 'a list \<Rightarrow> 'b list result" where
  "map_result f [] = Inr []"
| "map_result f (x # xs) =
     (case f x of
        Inl e \<Rightarrow> Inl e
      | Inr y \<Rightarrow> (case map_result f xs of Inl e \<Rightarrow> Inl e | Inr ys \<Rightarrow> Inr (y # ys)))"

lemma map_sum_Inr: "map_sum f g x = Inr y \<longleftrightarrow> (\<exists>z. x = Inr z \<and> y = g z)"
  by (cases x) auto

lemma map_result_Inr_all:
  "(\<And>x. x \<in> set xs \<Longrightarrow> f x = Inr (g x)) \<Longrightarrow> map_result f xs = Inr (map g xs)"
  by (induction xs) auto

lemma map_result_length: "map_result f xs = Inr ys \<Longrightarrow> length ys = length xs"
  by (induction xs arbitrary: ys) (auto split: sum.splits)

lemma map_result_map: "map_result f (map g xs) = map_result (f \<circ> g) xs"
  by (induction xs) (auto split: sum.splits)

section \<open>Slices and prefixes\<close>

text \<open>\<open>xs[k:]\<close>, \<open>xs[:k]\<close> and \<open>s.startswith(p)\<close>; a negative bound counts from the end.\<close>

definition slice_from :: "int \<Rightarrow> 'a list \<Rightarrow> 'a list" where
  "slice_from k xs =
     (if 0 \<le> k then drop (nat k) xs else drop (nat (max 0 (int (length xs) + k))) xs)"

definition slice_to :: "int \<Rightarrow> 'a list \<Rightarrow> 'a list" where
  "slice_to k xs =
     (if 0 \<le> k then take (nat k) xs else take (nat (max 0 (int (length xs) + k))) xs)"

definition startswith :: "'a list \<Rightarrow> 'a list \<Rightarrow> bool" where
  "startswith p s \<longleftrightarrow> take (length p) s = p"

lemma startswith_Nil [simp]: "startswith [] s"
  by (simp add: startswith_def)

lemma startswith_append [simp]: "startswith p (p @ s)"
  by (simp add: startswith_def)

lemma startswith_replicate_mono:
  assumes "startswith (replicate m c) s" "n \<le> m"
  shows "startswith (replicate n c) s"
proof -
  have "take n s = take n (take m s)" using assms(2) by (simp add: min_absorb1)
  also have "\<dots> = take n (replicate m c)" using assms(1) by (simp add: startswith_def)
  also have "\<dots> = replicate n c" using assms(2) by (simp add: min_absorb1)
  finally show ?thesis by (simp add: startswith_def)
qed

lemma set_slice_to: "set (slice_to k xs) \<subseteq> set xs"
  by (auto simp: slice_to_def dest: in_set_takeD)

lemma set_slice_from: "set (slice_from k xs) \<subseteq> set xs"
  by (auto simp: slice_from_def dest: in_set_dropD)

lemma distinct_slice_to: "distinct (map f xs) \<Longrightarrow> distinct (map f (slice_to k xs))"
  by (simp add: slice_to_def take_map [symmetric] distinct_take)

section \<open>Numbers\<close>

text \<open>
  Python's \<open>int\<close> and the floats the node handles.  \<open>PyFloat i\<close> is the binary64 whose value
  is the integer \<open>i\<close> (\<open>\<bar>i\<bar> \<le> 2 ^ 53\<close>): the only float the node's own code creates is the
  genesis timestamp \<open>1735689600.0\<close>; every other timestamp is converted with \<open>int()\<close>.
\<close>

datatype pynum = PyInt int | PyFloat int

fun num_val :: "pynum \<Rightarrow> int" where
  "num_val (PyInt i) = i"
| "num_val (PyFloat i) = i"

fun is_float :: "pynum \<Rightarrow> bool" where
  "is_float (PyInt _) = False"
| "is_float (PyFloat _) = True"

text \<open>\<open>a - b\<close>: a float as soon as one operand is one.\<close>

definition num_minus :: "pynum \<Rightarrow> pynum \<Rightarrow> pynum" where
  "num_minus a b =
     (if is_float a \<or> is_float b then PyFloat (num_val a - num_val b)
      else PyInt (num_val a - num_val b))"

text \<open>\<open>min(a, b)\<close> and \<open>max(a, b)\<close> return their first argument on a tie.\<close>

definition num_min :: "pynum \<Rightarrow> pynum \<Rightarrow> pynum" where
  "num_min a b = (if num_val b < num_val a then b else a)"

definition num_max :: "pynum \<Rightarrow> pynum \<Rightarrow> pynum" where
  "num_max a b = (if num_val a < num_val b then b else a)"

lemma num_val_ops [simp]:
  "num_val (num_minus a b) = num_val a - num_val b"
  "num_val (num_min a b) = min (num_val a) (num_val b)"
  "num_val (num_max a b) = max (num_val a) (num_val b)"
  by (auto simp: num_minus_def num_min_def num_max_def)

section \<open>Printing integers\<close>

text \<open>\<open>str(n)\<close>.  The digits of a non-negative integer are produced from the right.\<close>

definition digit_char :: "int \<Rightarrow> char" where
  "digit_char d = char_of (48 + d)"

function show_digits :: "int \<Rightarrow> string" where
  "show_digits n =
     (if n < 10 then [digit_char n] else show_digits (n div 10) @ [digit_char (n mod 10)])"
  by pat_completeness auto
termination
  by (relation "measure nat") auto

declare show_digits.simps [simp del]

definition show_int :: "int \<Rightarrow> string" where
  "show_int i = (if i < 0 then CHR ''-'' # show_digits (- i) else show_digits i)"

definition is_digit :: "char \<Rightarrow> bool" where
  "is_digit c \<longleftrightarrow> 48 \<le> (of_char c :: nat) \<and> (of_char c :: nat) \<le> 57"

definition digits_val :: "string \<Rightarrow> int" where
  "digits_val s = foldl (\<lambda>a c. 10 * a + (of_char c - 48)) 0 s"

lemma of_char_digit [simp]: "0 \<le> d \<Longrightarrow> d < 10 \<Longrightarrow> (of_char (digit_char d) :: int) = 48 + d"
  by (simp add: digit_char_def)

lemma is_digit_iff: "is_digit c \<longleftrightarrow> 48 \<le> (of_char c :: int) \<and> (of_char c :: int) \<le> 57"
proof -
  have "(of_char c :: int) = int (of_char c)" by (simp add: of_nat_of_char)
  then show ?thesis by (simp add: is_digit_def)
qed

lemma is_digit_digit_char [simp]: "0 \<le> d \<Longrightarrow> d < 10 \<Longrightarrow> is_digit (digit_char d)"
  by (simp add: is_digit_iff)

lemma show_digits_digits: "0 \<le> n \<Longrightarrow> \<forall>c \<in> set (show_digits n). is_digit c"
proof (induction n rule: show_digits.induct)
  case (1 n)
  then show ?case
    by (subst show_digits.simps) auto
qed

lemma show_digits_nonempty [simp]: "show_digits n \<noteq> []"
  by (subst show_digits.simps) simp

lemma digits_val_snoc: "digits_val (s @ [c]) = 10 * digits_val s + (of_char c - 48)"
  by (simp add: digits_val_def)

lemma digits_val_show [simp]: "0 \<le> n \<Longrightarrow> digits_val (show_digits n) = n"
proof (induction n rule: show_digits.induct)
  case (1 n)
  show ?case
  proof (cases "n < 10")
    case True
    with 1 show ?thesis by (subst show_digits.simps) (simp add: digits_val_def)
  next
    case False
    with 1 show ?thesis by (subst show_digits.simps) (simp add: digits_val_snoc)
  qed
qed

lemma show_digits_inj: "0 \<le> m \<Longrightarrow> 0 \<le> n \<Longrightarrow> show_digits m = show_digits n \<longleftrightarrow> m = n"
  by (metis digits_val_show)

lemma digit_not_minus [simp]: "\<not> is_digit (CHR ''-'')"
  by (simp add: is_digit_def)

lemma hd_show_digits: "0 \<le> n \<Longrightarrow> is_digit (hd (show_digits n))"
  using show_digits_digits hd_in_set show_digits_nonempty by blast

lemma show_int_inj [simp]: "show_int i = show_int j \<longleftrightarrow> i = j"
proof
  assume eq: "show_int i = show_int j"
  have no_minus: "CHR ''-'' # s \<noteq> show_digits n" if "0 \<le> n" for s n
    using hd_show_digits [OF that] digit_not_minus by (metis list.sel(1))
  from eq show "i = j"
    by (auto simp: show_int_def show_digits_inj no_minus no_minus [symmetric] split: if_splits)
qed simp

text \<open>Two texts that start with a run of \<open>P\<close>-characters followed by a character that is
  not one have the same run: the lemma that makes printed numbers self-delimiting.\<close>
lemma run_split:
  assumes "\<forall>c \<in> set s. P c" "\<forall>c \<in> set t. P c" "\<not> P x" "\<not> P y"
    "s @ x # u = t @ y # v"
  shows "s = t \<and> x # u = y # v"
proof -
  have "takeWhile P (s @ x # u) = s" "takeWhile P (t @ y # v) = t"
    using assms(1-4) by (simp_all add: takeWhile_append)
  then have "s = t" using assms(5) by simp
  then show ?thesis using assms(5) by simp
qed

section \<open>Lists\<close>

lemma sum_list_map_eq_zero: "(\<And>x. x \<in> set xs \<Longrightarrow> f x = (0::int)) \<Longrightarrow> sum_list (map f xs) = 0"
  by (induction xs) auto

lemma filter_eq_singleton_split:
  assumes "filter P xs = [c]"
  shows "\<exists>ys zs. xs = ys @ c # zs \<and> P c \<and> (\<forall>x \<in> set ys. \<not> P x) \<and> (\<forall>x \<in> set zs. \<not> P x)"
proof -
  from assms obtain ys zs where "xs = ys @ c # zs" "\<forall>u\<in>set ys. \<not> P u" "P c" "[] = filter P zs"
    by (auto simp: filter_eq_Cons_iff)
  then show ?thesis by (metis filter_empty_conv)
qed

end
