(* ===== verification/Pystring.thy ===== *)
theory Pystring
  imports Prelude
begin

text \<open>
  What the source uses of Python's \<open>str\<close> and \<open>bytes\<close>: case conversion, whitespace, hex
  encoding and decoding (\<open>bytes.hex\<close>, \<open>bytes.fromhex\<close>, \<open>int.from_bytes\<close>,
  \<open>int.to_bytes\<close>), \<open>int(s, 16)\<close> and UTF-8.  A \<open>str\<close> is an Isabelle \<open>string\<close> whose characters
  are the code points below 256; a \<open>bytes\<close> object is a list of 8-bit words.
\<close>

type_synonym byte = "8 word"
type_synonym bytes = "byte list"

abbreviation code_point :: "char \<Rightarrow> nat" where
  "code_point c \<equiv> of_char c"

section \<open>Case and whitespace\<close>

definition lower_char :: "char \<Rightarrow> char" where
  "lower_char c =
     (let n = code_point c in
      if (65 \<le> n \<and> n \<le> 90) \<or> (192 \<le> n \<and> n \<le> 222 \<and> n \<noteq> 215) then char_of (n + 32) else c)"

definition lower :: "string \<Rightarrow> string" where
  "lower s = map lower_char s"

text \<open>\<open>str.upper\<close> on ASCII text.\<close>

definition upper_char :: "char \<Rightarrow> char" where
  "upper_char c = (let n = code_point c in if 97 \<le> n \<and> n \<le> 122 then char_of (n - 32) else c)"

definition is_space :: "char \<Rightarrow> bool" where
  "is_space c \<longleftrightarrow>
     (let n = code_point c in
      (9 \<le> n \<and> n \<le> 13) \<or> (28 \<le> n \<and> n \<le> 32) \<or> n = 133 \<or> n = 160)"

text \<open>Whitespace of \<open>bytes.fromhex\<close> (C's \<open>isspace\<close> on ASCII).\<close>

definition is_ascii_space :: "char \<Rightarrow> bool" where
  "is_ascii_space c \<longleftrightarrow> (let n = code_point c in (9 \<le> n \<and> n \<le> 13) \<or> n = 32)"

definition strip_by :: "(char \<Rightarrow> bool) \<Rightarrow> string \<Rightarrow> string" where
  "strip_by p s = rev (dropWhile p (rev (dropWhile p s)))"

abbreviation strip :: "string \<Rightarrow> string" where
  "strip \<equiv> strip_by is_space"

definition rstrip_char :: "char \<Rightarrow> string \<Rightarrow> string" where
  "rstrip_char c s = rev (dropWhile (\<lambda>x. x = c) (rev s))"

section \<open>Hexadecimal digits\<close>

definition hex_val :: "char \<Rightarrow> nat option" where
  "hex_val c =
     (let n = code_point c in
      if 48 \<le> n \<and> n \<le> 57 then Some (n - 48)
      else if 97 \<le> n \<and> n \<le> 102 then Some (n - 87)
      else if 65 \<le> n \<and> n \<le> 70 then Some (n - 55)
      else None)"

definition hex_char :: "nat \<Rightarrow> char" where
  "hex_char d = (if d < 10 then char_of (48 + d) else char_of (87 + d))"

definition is_lower_hex :: "char \<Rightarrow> bool" where
  "is_lower_hex c \<longleftrightarrow>
     (let n = code_point c in (48 \<le> n \<and> n \<le> 57) \<or> (97 \<le> n \<and> n \<le> 102))"

lemma is_lower_hex_hex_char [simp]: "d < 16 \<Longrightarrow> is_lower_hex (hex_char d)"
  by (auto simp: is_lower_hex_def hex_char_def Let_def)

lemma hex_val_hex_char [simp]: "d < 16 \<Longrightarrow> hex_val (hex_char d) = Some d"
  by (auto simp: hex_val_def hex_char_def Let_def)

lemma is_lower_hex_val: "is_lower_hex c \<Longrightarrow> \<exists>d. hex_val c = Some d"
  by (auto simp: is_lower_hex_def hex_val_def Let_def)

lemma lower_char_hex [simp]: "is_lower_hex c \<Longrightarrow> lower_char c = c"
  by (auto simp: is_lower_hex_def lower_char_def Let_def)

lemma is_space_hex [simp]: "is_lower_hex c \<Longrightarrow> \<not> is_space c"
  by (auto simp: is_lower_hex_def is_space_def Let_def)

lemma hex_val_upper_char [simp]: "hex_val (upper_char c) = hex_val c"
  by (auto simp: hex_val_def upper_char_def Let_def)

lemma is_ascii_space_upper [simp]: "is_ascii_space (upper_char c) = is_ascii_space c"
  by (auto simp: is_ascii_space_def upper_char_def Let_def)

text \<open>\<open>bytes.hex()\<close>.\<close>

definition hex_byte :: "byte \<Rightarrow> string" where
  "hex_byte b = [hex_char (unat b div 16), hex_char (unat b mod 16)]"

definition hex :: "bytes \<Rightarrow> string" where
  "hex bs = concat (map hex_byte bs)"

lemma unat_byte_less: "unat (b::byte) < 256"
proof -
  have "unat b < 2 ^ LENGTH(8)" by (rule unsigned_less)
  then show ?thesis by simp
qed

lemma length_hex [simp]: "length (hex bs) = 2 * length bs"
  by (induction bs) (simp_all add: hex_def hex_byte_def)

lemma hex_lower: "\<forall>c \<in> set (hex bs). is_lower_hex c"
proof (induction bs)
  case Nil
  then show ?case by (simp add: hex_def)
next
  case (Cons b bs)
  have "unat b div 16 < 16" using unat_byte_less [of b] by simp
  with Cons show ?case by (simp add: hex_def hex_byte_def)
qed

text \<open>\<open>bytes.fromhex(s)\<close>: pairs of hex digits, ASCII whitespace allowed between pairs;
  \<open>None\<close> is the \<open>ValueError\<close>.\<close>

fun fromhex :: "string \<Rightarrow> bytes option" where
  "fromhex [] = Some []"
| "fromhex (c # cs) =
     (if is_ascii_space c then fromhex cs
      else case cs of
        [] \<Rightarrow> None
      | d # ds \<Rightarrow>
          (case (hex_val c, hex_val d) of
             (Some h, Some l) \<Rightarrow> map_option (\<lambda>bs. word_of_nat (16 * h + l) # bs) (fromhex ds)
           | _ \<Rightarrow> None))"

lemma hex_char_not_space [simp]: "d < 16 \<Longrightarrow> \<not> is_ascii_space (hex_char d)"
  by (auto simp: is_ascii_space_def hex_char_def Let_def)

lemma fromhex_hex [simp]: "fromhex (hex bs) = Some bs"
proof (induction bs)
  case Nil
  then show ?case by (simp add: hex_def)
next
  case (Cons b bs)
  have "unat b div 16 < 16" using unat_byte_less [of b] by simp
  moreover have "16 * (unat b div 16) + unat b mod 16 = unat b" by simp
  ultimately show ?case using Cons by (simp add: hex_def hex_byte_def)
qed

lemma fromhex_upper: "fromhex (map upper_char s) = fromhex s"
  by (induction s rule: fromhex.induct) (auto split: list.splits option.splits)

text \<open>\<open>int.from_bytes(bs, "big")\<close> and \<open>n.to_bytes(32, "big")\<close>.\<close>

definition from_bytes_big :: "bytes \<Rightarrow> int" where
  "from_bytes_big bs = foldl (\<lambda>a b. 256 * a + uint b) 0 bs"

fun to_bytes_big :: "nat \<Rightarrow> int \<Rightarrow> bytes" where
  "to_bytes_big 0 n = []"
| "to_bytes_big (Suc k) n = to_bytes_big k (n div 256) @ [word_of_int (n mod 256)]"

lemma length_to_bytes_big [simp]: "length (to_bytes_big k n) = k"
  by (induction k arbitrary: n) auto

lemma from_to_bytes_big:
  "0 \<le> n \<Longrightarrow> n < 256 ^ k \<Longrightarrow> from_bytes_big (to_bytes_big k n) = n"
proof (induction k arbitrary: n)
  case 0
  then show ?case by (simp add: from_bytes_big_def)
next
  case (Suc k)
  have "n div 256 < 256 ^ k" using Suc.prems by (simp add: div_less_iff_less_mult mult.commute)
  then have "from_bytes_big (to_bytes_big k (n div 256)) = n div 256"
    using Suc by simp
  then show ?case
    by (simp add: from_bytes_big_def uint_word_of_int take_bit_eq_mod)
qed

section \<open>\<open>int(s, 16)\<close>\<close>

text \<open>Digits with single underscores between them; the state says whether an underscore may
  follow.  \<open>None\<close> is the \<open>ValueError\<close>.\<close>

fun hex_digits :: "int \<Rightarrow> string \<Rightarrow> int option" where
  "hex_digits acc [] = Some acc"
| "hex_digits acc (c # cs) =
     (case hex_val c of
        Some d \<Rightarrow> hex_digits (16 * acc + int d) cs
      | None \<Rightarrow>
          (if c = CHR ''_'' then
             (case cs of
                [] \<Rightarrow> None
              | d # ds \<Rightarrow>
                  (case hex_val d of
                     Some v \<Rightarrow> hex_digits (16 * acc + int v) ds
                   | None \<Rightarrow> None))
           else None))"

definition hex_number :: "string \<Rightarrow> int option" where
  "hex_number s =
     (case s of
        [] \<Rightarrow> None
      | c # cs \<Rightarrow> (case hex_val c of None \<Rightarrow> None | Some d \<Rightarrow> hex_digits (int d) cs))"

definition drop_hex_prefix :: "string \<Rightarrow> string" where
  "drop_hex_prefix s =
     (if startswith ''0x'' s \<or> startswith ''0X'' s
      then (let t = drop 2 s in if startswith ''_'' t then drop 1 t else t)
      else s)"

definition int_base16 :: "string \<Rightarrow> int option" where
  "int_base16 s =
     (let t = strip s in
      if startswith ''-'' t then map_option uminus (hex_number (drop_hex_prefix (drop 1 t)))
      else if startswith ''+'' t then hex_number (drop_hex_prefix (drop 1 t))
      else hex_number (drop_hex_prefix t))"

lemma hex_digits_total: "\<forall>c \<in> set s. is_lower_hex c \<Longrightarrow> \<exists>n. hex_digits acc s = Some n"
  by (induction s arbitrary: acc) (use is_lower_hex_val in fastforce)+

lemma strip_hex: "\<forall>c \<in> set s. is_lower_hex c \<Longrightarrow> strip s = s"
proof -
  assume a: "\<forall>c \<in> set s. is_lower_hex c"
  have d: "dropWhile is_space t = t" if "\<forall>c \<in> set t. is_lower_hex c" for t
    using that by (cases t) auto
  from a show ?thesis by (simp add: strip_by_def d)
qed

text \<open>A non-empty string of lowercase hex digits is accepted: it has no sign and no prefix.\<close>
lemma int_base16_lower_hex:
  assumes "\<forall>c \<in> set s. is_lower_hex c" "s \<noteq> []"
  shows "\<exists>n. int_base16 s = Some n"
proof -
  have not: "\<not> is_lower_hex (CHR ''-'')" "\<not> is_lower_hex (CHR ''+'')"
    "\<not> is_lower_hex (CHR ''x'')" "\<not> is_lower_hex (CHR ''X'')"
    by (simp_all add: is_lower_hex_def)
  have nosign: "\<not> startswith ''-'' s" "\<not> startswith ''+'' s"
    using assms not by (cases s; auto simp: startswith_def)+
  have nopre: "drop_hex_prefix s = s"
    using assms not
    by (cases s; cases "tl s") (auto simp: drop_hex_prefix_def startswith_def)
  obtain c cs where s: "s = c # cs" using assms(2) by (cases s) auto
  obtain d where "hex_val c = Some d" using assms(1) s is_lower_hex_val by auto
  then show ?thesis
    using assms(1) hex_digits_total [of cs "int d"] nosign nopre
    by (simp add: int_base16_def strip_hex Let_def s hex_number_def)
qed

section \<open>UTF-8\<close>

text \<open>\<open>s.encode("utf-8")\<close> for code points below 256.\<close>

definition utf8_char :: "char \<Rightarrow> bytes" where
  "utf8_char c =
     (let n = code_point c in
      if n < 128 then [word_of_nat n]
      else [word_of_nat (192 + n div 64), word_of_nat (128 + n mod 64)])"

definition utf8 :: "string \<Rightarrow> bytes" where
  "utf8 s = concat (map utf8_char s)"

end
