(* ===== verification/Sha256.thy ===== *)
theory Sha256
  imports Pystring
begin

text \<open>
  \<open>hashlib.sha256\<close>, the hash of every block, transaction, address and envelope, computed as
  FIPS 180-4 defines it: padding, message schedule, compression, digest.  The theory ends
  with the facts the other components use: a hex digest is 64 lowercase hex characters.
\<close>

unbundle bit_operations_syntax

type_synonym u32 = "32 word"

section \<open>The functions of FIPS 180-4\<close>

definition rotr :: "nat \<Rightarrow> u32 \<Rightarrow> u32" where
  "rotr n x = (drop_bit n x OR push_bit (32 - n) x)"

definition Ch :: "u32 \<Rightarrow> u32 \<Rightarrow> u32 \<Rightarrow> u32" where
  "Ch x y z = ((x AND y) XOR (NOT x AND z))"

definition Maj :: "u32 \<Rightarrow> u32 \<Rightarrow> u32 \<Rightarrow> u32" where
  "Maj x y z = ((x AND y) XOR (x AND z) XOR (y AND z))"

definition Sigma0 :: "u32 \<Rightarrow> u32" where
  "Sigma0 x = (rotr 2 x XOR rotr 13 x XOR rotr 22 x)"

definition Sigma1 :: "u32 \<Rightarrow> u32" where
  "Sigma1 x = (rotr 6 x XOR rotr 11 x XOR rotr 25 x)"

definition sigma0 :: "u32 \<Rightarrow> u32" where
  "sigma0 x = (rotr 7 x XOR rotr 18 x XOR drop_bit 3 x)"

definition sigma1 :: "u32 \<Rightarrow> u32" where
  "sigma1 x = (rotr 17 x XOR rotr 19 x XOR drop_bit 10 x)"

text \<open>The constants are the first 32 bits of the fractional parts of the cube roots of the first 64
  primes, the initial state those of the square roots of the first 8, here in decimal.\<close>

definition round_constants :: "u32 list" where
  "round_constants =
    [1116352408, 1899447441, 3049323471, 3921009573, 961987163, 1508970993, 2453635748, 2870763221,
     3624381080, 310598401, 607225278, 1426881987, 1925078388, 2162078206, 2614888103, 3248222580,
     3835390401, 4022224774, 264347078, 604807628, 770255983, 1249150122, 1555081692, 1996064986,
     2554220882, 2821834349, 2952996808, 3210313671, 3336571891, 3584528711, 113926993, 338241895,
     666307205, 773529912, 1294757372, 1396182291, 1695183700, 1986661051, 2177026350, 2456956037,
     2730485921, 2820302411, 3259730800, 3345764771, 3516065817, 3600352804, 4094571909, 275423344,
     430227734, 506948616, 659060556, 883997877, 958139571, 1322822218, 1537002063, 1747873779,
     1955562222, 2024104815, 2227730452, 2361852424, 2428436474, 2756734187, 3204031479, 3329325298]"

type_synonym sha_state = "u32 \<times> u32 \<times> u32 \<times> u32 \<times> u32 \<times> u32 \<times> u32 \<times> u32"

definition initial_state :: sha_state where
  "initial_state =
     (1779033703, 3144134277, 1013904242, 2773480762, 1359893119, 2600822924, 528734635, 1541459225)"

section \<open>Padding, schedule and compression\<close>

definition sha_pad :: "bytes \<Rightarrow> bytes" where
  "sha_pad m =
     m @ [0x80] @ replicate ((119 - length m mod 64) mod 64) 0 @ to_bytes_big 8 (8 * int (length m))"

fun be_words :: "bytes \<Rightarrow> u32 list" where
  "be_words (a # b # c # d # rest) = word_of_int (from_bytes_big [a, b, c, d]) # be_words rest"
| "be_words _ = []"

fun extend_schedule :: "nat \<Rightarrow> u32 list \<Rightarrow> u32 list" where
  "extend_schedule 0 w = w"
| "extend_schedule (Suc k) w =
     (let t = length w in
      extend_schedule k
        (w @ [sigma1 (w ! (t - 2)) + w ! (t - 7) + sigma0 (w ! (t - 15)) + w ! (t - 16)]))"

fun sha_round :: "sha_state \<Rightarrow> u32 \<times> u32 \<Rightarrow> sha_state" where
  "sha_round (a, b, c, d, e, f, g, h) (k, w) =
     (let t1 = h + Sigma1 e + Ch e f g + k + w;
          t2 = Sigma0 a + Maj a b c
      in (t1 + t2, a, b, c, d + t1, e, f, g))"

fun add_state :: "sha_state \<Rightarrow> sha_state \<Rightarrow> sha_state" where
  "add_state (a, b, c, d, e, f, g, h) (a', b', c', d', e', f', g', h') =
     (a + a', b + b', c + c', d + d', e + e', f + f', g + g', h + h')"

definition compress :: "sha_state \<Rightarrow> bytes \<Rightarrow> sha_state" where
  "compress st chunk =
     add_state st (foldl sha_round st (zip round_constants (extend_schedule 48 (be_words chunk))))"

fun sha_chunks :: "nat \<Rightarrow> bytes \<Rightarrow> bytes list" where
  "sha_chunks 0 bs = []"
| "sha_chunks (Suc k) bs = take 64 bs # sha_chunks k (drop 64 bs)"

fun state_bytes :: "sha_state \<Rightarrow> bytes" where
  "state_bytes (a, b, c, d, e, f, g, h) =
     concat (map (\<lambda>w. to_bytes_big 4 (uint w)) [a, b, c, d, e, f, g, h])"

definition sha256_digest :: "bytes \<Rightarrow> bytes" where
  "sha256_digest m =
     (let p = sha_pad m
      in state_bytes (foldl compress initial_state (sha_chunks (length p div 64) p)))"

text \<open>\<open>hashlib.sha256(m).hexdigest()\<close>, and \<open>sha256\<close> of \<open>blockchain/utils.py\<close>.\<close>

definition sha256_hex :: "bytes \<Rightarrow> string" where
  "sha256_hex m = hex (sha256_digest m)"

definition sha256 :: "string \<Rightarrow> string" where
  "sha256 data = sha256_hex (utf8 data)"

definition double_sha256 :: "string \<Rightarrow> string" where
  "double_sha256 data = sha256 (sha256 data)"

section \<open>Shape of a digest\<close>

lemma length_sha_pad: "64 dvd length (sha_pad m)"
proof -
  define l where "l = length m mod 64"
  define k where "k = (119 - l) mod 64"
  have l: "l < 64" by (simp add: l_def)
  have "length (sha_pad m) = length m + (9 + k)"
    by (simp add: sha_pad_def l_def k_def)
  also have "\<dots> mod 64 = (l + (9 + k)) mod 64"
    unfolding l_def by (rule mod_add_left_eq [symmetric])
  also have "\<dots> = ((l + 9) + (119 - l)) mod 64"
    unfolding k_def by (simp add: mod_add_right_eq add.assoc [symmetric])
  also have "\<dots> = 0" using l by simp
  finally show ?thesis by (simp add: dvd_eq_mod_eq_0)
qed

lemma length_state_bytes [simp]: "length (state_bytes st) = 32"
  by (cases st rule: state_bytes.cases) simp

lemma length_sha256_digest [simp]: "length (sha256_digest m) = 32"
  by (simp add: sha256_digest_def Let_def)

lemma length_sha256 [simp, hash_facts]: "length (sha256 s) = 64"
  by (simp add: sha256_def sha256_hex_def)

lemma sha256_nonempty [simp, hash_facts]: "sha256 s \<noteq> []"
  using length_sha256 [of s] by (metis length_0_conv zero_neq_numeral)

lemma sha256_lower_hex [hash_facts]: "c \<in> set (sha256 s) \<Longrightarrow> is_lower_hex c"
  using hex_lower by (auto simp: sha256_def sha256_hex_def)

end
