(* ===== verification/Json.thy ===== *)
theory Json
  imports Sha256
begin

text \<open>
  Python values that travel as JSON, \<open>json.dumps\<close> as the source calls it
  (\<open>deterministic_json\<close>: sorted keys, compact separators, ASCII escapes), and the lemmas that
  make the canonical text of a payload determine the payload.  A \<open>dict\<close> is the association
  list of its items in insertion order.
\<close>

section \<open>Values\<close>

text \<open>\<open>PDec m k\<close> is the float that is not a whole number and whose shortest decimal text has the
  \<open>k + 1\<close> fractional digits of \<open>m / 10 ^ (k + 1)\<close>, with \<open>m\<close> not a multiple of 10: \<open>repr\<close> prints
  a float between \<open>10 ^ -4\<close> and \<open>10 ^ 16\<close> that way.\<close>

datatype pyval =
    PNone
  | PBool bool
  | PNum pynum
  | PDec int nat
  | PStr string
  | PList "pyval list"
  | PDict "(string \<times> pyval) list"

abbreviation PInt :: "int \<Rightarrow> pyval" where
  "PInt i \<equiv> PNum (PyInt i)"

fun opt_str :: "string option \<Rightarrow> pyval" where
  "opt_str None = PNone"
| "opt_str (Some s) = PStr s"

lemma opt_str_inj [simp]: "opt_str a = opt_str b \<longleftrightarrow> a = b"
  by (cases a; cases b) auto

text \<open>\<open>d[k] = v\<close> on a dict: replace in place, or append.\<close>

fun dict_set :: "'k \<Rightarrow> 'v \<Rightarrow> ('k \<times> 'v) list \<Rightarrow> ('k \<times> 'v) list" where
  "dict_set k v [] = [(k, v)]"
| "dict_set k v ((k', v') # d) = (if k' = k then (k, v) # d else (k', v') # dict_set k v d)"

lemma map_of_dict_set [simp]: "map_of (dict_set k v d) = (map_of d)(k \<mapsto> v)"
  by (induction d) auto

section \<open>\<open>json.dumps\<close>\<close>

definition hex4 :: "nat \<Rightarrow> string" where
  "hex4 n = ''00'' @ [hex_char (n div 16), hex_char (n mod 16)]"

text \<open>The escapes of \<open>ensure_ascii\<close>.\<close>

definition escape_char :: "char \<Rightarrow> string" where
  "escape_char c =
     (if c = CHR 0x22 then [CHR 0x5C, CHR 0x22]
      else if c = CHR 0x5C then [CHR 0x5C, CHR 0x5C]
      else if c = CHR 0x0A then [CHR 0x5C, CHR ''n'']
      else if c = CHR 0x0D then [CHR 0x5C, CHR ''r'']
      else if c = CHR 0x09 then [CHR 0x5C, CHR ''t'']
      else if c = CHR 0x0C then [CHR 0x5C, CHR ''f'']
      else if c = CHR 0x08 then [CHR 0x5C, CHR ''b'']
      else if 32 \<le> code_point c \<and> code_point c \<le> 126 then [c]
      else [CHR 0x5C, CHR ''u''] @ hex4 (code_point c))"

definition json_string :: "string \<Rightarrow> string" where
  "json_string s = CHR 0x22 # concat (map escape_char s) @ [CHR 0x22]"

fun json_num :: "pynum \<Rightarrow> string" where
  "json_num (PyInt i) = show_int i"
| "json_num (PyFloat i) = show_int i @ ''.0''"

fun frac_digits :: "nat \<Rightarrow> int \<Rightarrow> string" where
  "frac_digits 0 n = []"
| "frac_digits (Suc k) n = frac_digits k (n div 10) @ [digit_char (n mod 10)]"

definition dec_text :: "int \<Rightarrow> nat \<Rightarrow> string" where
  "dec_text m k =
     (if m < 0 then ''-'' else []) @ show_int (\<bar>m\<bar> div 10 ^ Suc k) @ ''.'' @
     frac_digits (Suc k) (\<bar>m\<bar> mod 10 ^ Suc k)"

fun join :: "string \<Rightarrow> string list \<Rightarrow> string" where
  "join sep [] = []"
| "join sep [s] = s"
| "join sep (s # t # rest) = s @ sep @ join sep (t # rest)"

fun dumps :: "pyval \<Rightarrow> string" where
  "dumps PNone = ''null''"
| "dumps (PBool b) = (if b then ''true'' else ''false'')"
| "dumps (PNum n) = json_num n"
| "dumps (PDec m k) = dec_text m k"
| "dumps (PStr s) = json_string s"
| "dumps (PList vs) = ''['' @ join '','' (map dumps vs) @ '']''"
| "dumps (PDict kvs) =
     ''{'' @ join '','' (map (\<lambda>(k, v). json_string k @ '':'' @ dumps v) kvs) @ ''}''"

text \<open>\<open>sort_keys=True\<close>: every dict, at every depth, in the order of its keys.\<close>

fun sort_keys :: "pyval \<Rightarrow> pyval" where
  "sort_keys (PList vs) = PList (map sort_keys vs)"
| "sort_keys (PDict kvs) = PDict (sort_key fst (map (\<lambda>(k, v). (k, sort_keys v)) kvs))"
| "sort_keys v = v"

definition deterministic_json :: "pyval \<Rightarrow> string" where
  "deterministic_json payload = dumps (sort_keys payload)"

section \<open>Key order does not matter\<close>

text \<open>Two dicts with the same items, whatever their insertion order, have the same text.\<close>
lemma sort_key_fst_unique:
  assumes "distinct (map fst xs)" "distinct (map fst ys)" "set xs = set ys"
  shows "sort_key fst xs = sort_key (fst :: 'k::linorder \<times> 'v \<Rightarrow> 'k) ys"
proof (rule map_sorted_distinct_set_unique [where f = fst])
  show "inj_on fst (set (sort_key fst xs) \<union> set (sort_key fst ys))"
    using assms by (simp add: distinct_map)
qed (use assms in \<open>simp_all add: distinct_map distinct_sort\<close>)

lemma deterministic_json_order:
  assumes "distinct (map fst xs)" "distinct (map fst ys)" "set xs = set ys"
  shows "deterministic_json (PDict xs) = deterministic_json (PDict ys)"
proof -
  let ?g = "\<lambda>(k, v). (k, sort_keys v)"
  have d: "distinct (map fst (map ?g zs))" if "distinct (map fst zs)" for zs
    using that by (simp add: case_prod_unfold comp_def)
  have "sort_key fst (map ?g xs) = sort_key fst (map ?g ys)"
    using sort_key_fst_unique [OF d [OF assms(1)] d [OF assms(2)]] assms(3) by simp
  then show ?thesis by (simp add: deterministic_json_def)
qed

section \<open>Texts determine values\<close>

text \<open>Reading a JSON string back, up to its closing quote: the inverse of the escapes.\<close>

definition unescape :: "char \<Rightarrow> char" where
  "unescape d =
     (if d = CHR ''n'' then CHR 0x0A else if d = CHR ''r'' then CHR 0x0D
      else if d = CHR ''t'' then CHR 0x09 else if d = CHR ''f'' then CHR 0x0C
      else if d = CHR ''b'' then CHR 0x08 else d)"

fun read_chars :: "string \<Rightarrow> (string \<times> string) option" where
  "read_chars [] = None"
| "read_chars (c # cs) =
     (if c = CHR 0x22 then Some ([], cs)
      else if c = CHR 0x5C then
        (case cs of
           [] \<Rightarrow> None
         | d # ds \<Rightarrow>
             if d = CHR ''u'' then
               (case ds of
                  _ # _ # h # l # r \<Rightarrow>
                    map_option (\<lambda>(s, x). (char_of (16 * the (hex_val h) + the (hex_val l)) # s, x))
                      (read_chars r)
                | _ \<Rightarrow> None)
             else map_option (\<lambda>(s, x). (unescape d # s, x)) (read_chars ds))
      else map_option (\<lambda>(s, x). (c # s, x)) (read_chars cs))"

lemma code_point_less: "code_point c < 256"
  by (cases c) simp

lemma read_chars_escape:
  "read_chars (escape_char c @ rest) = map_option (\<lambda>(s, x). (c # s, x)) (read_chars rest)"
proof -
  have "code_point c div 16 < 16"
    by (rule less_mult_imp_div_less) (use code_point_less [of c] in linarith)
  moreover have "char_of (16 * (code_point c div 16) + code_point c mod 16) = c" by simp
  ultimately show ?thesis
    by (auto simp: escape_char_def hex4_def unescape_def)
qed

lemma read_chars_json: "read_chars (concat (map escape_char s) @ CHR 0x22 # x) = Some (s, x)"
  by (induction s) (simp_all add: read_chars_escape)

lemma json_string_append_inj [simp]:
  "json_string s @ x = json_string t @ y \<longleftrightarrow> s = t \<and> x = y"
proof
  assume "json_string s @ x = json_string t @ y"
  then have "concat (map escape_char s) @ CHR 0x22 # x = concat (map escape_char t) @ CHR 0x22 # y"
    by (simp add: json_string_def)
  then have "Some (s, x) = Some (t, y)" by (metis read_chars_json)
  then show "s = t \<and> x = y" by simp
qed auto

lemma json_string_inj [simp]: "json_string s = json_string t \<longleftrightarrow> s = t"
  using json_string_append_inj [of s "[]" t "[]"] by simp

text \<open>A number is delimited by the comma or brace that follows it.\<close>

definition num_char :: "char \<Rightarrow> bool" where
  "num_char c \<longleftrightarrow> is_digit c \<or> c = CHR ''-'' \<or> c = CHR ''.''"

lemma show_int_chars: "\<forall>c \<in> set (show_int i). is_digit c \<or> c = CHR ''-''"
  using show_digits_digits [of i] show_digits_digits [of "- i"] by (auto simp: show_int_def)

lemma json_num_chars: "\<forall>c \<in> set (json_num n). num_char c"
  using show_int_chars by (cases n) (auto simp: num_char_def is_digit_def)

lemma json_num_inj [simp]: "json_num a = json_num b \<longleftrightarrow> a = b"
proof
  assume eq: "json_num a = json_num b"
  have nodot: "CHR ''.'' \<notin> set (show_int i)" for i
    using show_int_chars [of i] by (auto simp: is_digit_def)
  have ne: "show_int i \<noteq> show_int j @ ''.0''" for i j
    using nodot [of i] by (metis in_set_conv_decomp append.assoc append_Cons)
  from eq ne show "a = b"
    by (cases a; cases b) (auto dest: sym)
qed simp

lemma json_num_append_inj:
  assumes "json_num a @ x # u = json_num b @ y # v" "\<not> num_char x" "\<not> num_char y"
  shows "a = b \<and> x # u = y # v"
  using run_split [OF json_num_chars json_num_chars assms(2,3,1)] by simp

lemma not_num_char [simp]: "\<not> num_char (CHR '','')" "\<not> num_char (CHR ''}'')"
  by (simp_all add: num_char_def is_digit_def)

text \<open>\<open>null\<close> and a quoted string cannot be confused.\<close>
lemma dumps_opt_str_append_inj:
  assumes eq: "dumps (opt_str a) @ x = dumps (opt_str b) @ y"
  shows "a = b \<and> x = y"
proof (cases "\<exists>s t. a = Some s \<and> b = Some t")
  case True
  with eq show ?thesis by auto
next
  case False
  with eq show ?thesis by (cases a; cases b) (auto simp: json_string_def)
qed

text \<open>The equations that read a canonical object text from left to right.\<close>
lemma json_num_comma_inj:
  "json_num a @ CHR '','' # u = json_num b @ CHR '','' # v \<longleftrightarrow> a = b \<and> u = v"
  using json_num_append_inj [of a "CHR '',''" u b "CHR '',''" v] by auto

lemma json_num_brace_inj:
  "json_num a @ CHR ''}'' # u = json_num b @ CHR ''}'' # v \<longleftrightarrow> a = b \<and> u = v"
  using json_num_append_inj [of a "CHR ''}''" u b "CHR ''}''" v] by auto

lemma dumps_opt_str_inj: "dumps (opt_str a) @ x = dumps (opt_str b) @ y \<longleftrightarrow> a = b \<and> x = y"
  using dumps_opt_str_append_inj by auto

lemmas canonical_inj =
  append_Cons append_Nil list.inject json_string_append_inj json_num_comma_inj
  json_num_brace_inj dumps_opt_str_inj simp_thms

text \<open>Comparing literal keys.\<close>

lemmas key_order = less_eq_char_def less_char_def

end
