(* ===== verification/Native_Asset.thy ===== *)
theory Native_Asset
  imports Json
begin

text \<open>
  \<open>blockchain/native_asset.py\<close>: the SYJ monetary constants, the conversion between human
  amounts and integer base units through \<open>decimal.Decimal\<close>, and \<open>validate_base_units\<close>.
  \<open>Decimal\<close> is modelled with the default context the source runs in: 28 significant digits,
  round half to even, exponents between -999999 and 999999.
\<close>

definition BASE_UNITS_PER_SYJ :: int where
  "BASE_UNITS_PER_SYJ = 100000000"

definition MAX_SUPPLY_SYJ :: int where
  "MAX_SUPPLY_SYJ = 720000000"

definition MAX_SUPPLY_BASE_UNITS :: int where
  "MAX_SUPPLY_BASE_UNITS = MAX_SUPPLY_SYJ * BASE_UNITS_PER_SYJ"

lemma max_supply_value: "MAX_SUPPLY_BASE_UNITS = 72000000000000000"
  by (simp add: MAX_SUPPLY_BASE_UNITS_def MAX_SUPPLY_SYJ_def BASE_UNITS_PER_SYJ_def)

section \<open>\<open>decimal.Decimal\<close>\<close>

text \<open>\<open>Dec c e\<close> is \<open>c * 10 ^ e\<close>; \<open>DecSpecial\<close> stands for the infinities and NaNs.\<close>

datatype pydec = Dec int int | DecSpecial

definition num_digits :: "int \<Rightarrow> int" where
  "num_digits c = int (length (show_digits \<bar>c\<bar>))"

definition dec_prec :: int where "dec_prec = 28"
definition dec_etiny :: int where "dec_etiny = - 1000026"
definition dec_etop :: int where "dec_etop = 999972"

text \<open>Drop the last \<open>k\<close> digits, rounding half to even.\<close>

definition round_half_even :: "int \<Rightarrow> nat \<Rightarrow> int" where
  "round_half_even c k =
     (let q = \<bar>c\<bar> div 10 ^ k; r = \<bar>c\<bar> mod 10 ^ k;
          q' = (if 2 * r > 10 ^ k \<or> (2 * r = 10 ^ k \<and> odd q) then q + 1 else q)
      in if c < 0 then - q' else q')"

text \<open>\<open>Decimal._fix\<close>: round a result to the context.  Beyond the largest exponent it raises
  \<open>decimal.Overflow\<close>.\<close>

definition dec_fix :: "int \<Rightarrow> int \<Rightarrow> pydec result" where
  "dec_fix c e =
     (if c = 0 then Inr (Dec 0 (max dec_etiny (min e dec_etop)))
      else
        let exp_min = max dec_etiny (num_digits c + e - dec_prec) in
        if exp_min > dec_etop then Inl DecimalError
        else if e < exp_min then
          let c' = round_half_even c (nat (exp_min - e)) in
          if num_digits c' > dec_prec then
            (if exp_min + 1 > dec_etop then Inl DecimalError
             else Inr (Dec (round_half_even c' 1) (exp_min + 1)))
          else Inr (Dec c' exp_min)
        else Inr (Dec c e))"

fun dec_is_integral :: "int \<Rightarrow> int \<Rightarrow> bool" where
  "dec_is_integral c e \<longleftrightarrow> 0 \<le> e \<or> 10 ^ nat (- e) dvd c"

definition dec_to_int :: "int \<Rightarrow> int \<Rightarrow> int" where
  "dec_to_int c e = (if 0 \<le> e then c * 10 ^ nat e else sgn c * (\<bar>c\<bar> div 10 ^ nat (- e)))"

subsection \<open>\<open>Decimal(s)\<close>\<close>

definition parse_exponent :: "string \<Rightarrow> int option" where
  "parse_exponent r =
     (case r of
        [] \<Rightarrow> Some 0
      | c # cs \<Rightarrow>
          if c = CHR ''e'' \<or> c = CHR ''E'' then
            (let neg = startswith ''-'' cs;
                 ds = (if neg \<or> startswith ''+'' cs then tl cs else cs)
             in if ds \<noteq> [] \<and> list_all is_digit ds
                then Some (if neg then - digits_val ds else digits_val ds)
                else None)
          else None)"

definition is_dec_special :: "string \<Rightarrow> bool" where
  "is_dec_special u \<longleftrightarrow>
     (let l = lower u; n = (if startswith ''s'' l then tl l else l)
      in l = ''inf'' \<or> l = ''infinity'' \<or> (startswith ''nan'' n \<and> list_all is_digit (drop 3 n)))"

definition parse_unsigned :: "bool \<Rightarrow> string \<Rightarrow> pydec option" where
  "parse_unsigned neg u =
     (let ip = takeWhile is_digit u; r1 = dropWhile is_digit u;
          fp = (if startswith ''.'' r1 then takeWhile is_digit (tl r1) else []);
          r2 = (if startswith ''.'' r1 then dropWhile is_digit (tl r1) else r1)
      in if ip = [] \<and> fp = [] then (if is_dec_special u then Some DecSpecial else None)
         else case parse_exponent r2 of
                None \<Rightarrow> None
              | Some x \<Rightarrow>
                  Some (Dec (if neg then - digits_val (ip @ fp) else digits_val (ip @ fp))
                            (x - int (length fp))))"

definition decimal_of_string :: "string \<Rightarrow> pydec option" where
  "decimal_of_string s =
     (let t = filter (\<lambda>c. c \<noteq> CHR ''_'') (strip s)
      in if startswith ''-'' t then parse_unsigned True (tl t)
         else if startswith ''+'' t then parse_unsigned False (tl t)
         else parse_unsigned False t)"

section \<open>\<open>to_base_units\<close>, \<open>from_base_units\<close>, \<open>format_amount\<close>\<close>

text \<open>The types \<open>AmountInput\<close> allows.  A float enters through \<open>str(value)\<close>, its repr, which is
  the argument of \<open>AmtFloat\<close>.\<close>

datatype amount_input =
    AmtBool bool
  | AmtInt int
  | AmtStr string
  | AmtFloat string
  | AmtDec pydec

fun decimal_of_amount :: "amount_input \<Rightarrow> pydec option" where
  "decimal_of_amount (AmtBool _) = None"
| "decimal_of_amount (AmtInt i) = decimal_of_string (show_int i)"
| "decimal_of_amount (AmtStr s) = decimal_of_string s"
| "decimal_of_amount (AmtFloat r) = decimal_of_string r"
| "decimal_of_amount (AmtDec d) = Some d"

definition to_base_units :: "amount_input \<Rightarrow> int result" where
  "to_base_units value =
     (case value of
        AmtBool _ \<Rightarrow> Inl ValueError
      | _ \<Rightarrow>
          (case decimal_of_amount value of
             None \<Rightarrow> Inl ValueError
           | Some DecSpecial \<Rightarrow> Inl ValueError
           | Some (Dec c e) \<Rightarrow>
               (case dec_fix (c * BASE_UNITS_PER_SYJ) e of
                  Inl err \<Rightarrow> Inl err
                | Inr DecSpecial \<Rightarrow> Inl ValueError
                | Inr (Dec sc se) \<Rightarrow>
                    if dec_is_integral sc se then Inr (dec_to_int sc se) else Inl ValueError)))"

text \<open>An exact quotient keeps as few decimals as possible, down to exponent 0.\<close>

fun strip_zeros :: "nat \<Rightarrow> int \<Rightarrow> int \<times> nat" where
  "strip_zeros 0 c = (c, 0)"
| "strip_zeros (Suc k) c = (if c mod 10 = 0 then strip_zeros k (c div 10) else (c, Suc k))"

definition from_base_units :: "pyval \<Rightarrow> pydec result" where
  "from_base_units v =
     (case v of
        PNum (PyInt n) \<Rightarrow> (case strip_zeros 8 n of (c, k) \<Rightarrow> dec_fix c (- int k))
      | _ \<Rightarrow> Inl ValueError)"

text \<open>\<open>quantize(Decimal("0.00000001"), rounding=ROUND_DOWN)\<close>.\<close>

fun quantize8 :: "pydec \<Rightarrow> int result" where
  "quantize8 DecSpecial = Inl DecimalError"
| "quantize8 (Dec c e) =
     (let q = (if - 8 \<le> e then c * 10 ^ nat (e + 8) else sgn c * (\<bar>c\<bar> div 10 ^ nat (- 8 - e)))
      in if num_digits q > dec_prec then Inl DecimalError else Inr q)"

definition pad_left :: "nat \<Rightarrow> string \<Rightarrow> string" where
  "pad_left k s = replicate (k - length s) (CHR ''0'') @ s"

text \<open>\<open>format(amount, "f")\<close> of \<open>q * 10 ^ -8\<close>.\<close>

definition format_fixed8 :: "int \<Rightarrow> string" where
  "format_fixed8 q =
     (if q < 0 then ''-'' else []) @ show_digits (\<bar>q\<bar> div 10 ^ 8) @ ''.'' @
     pad_left 8 (show_digits (\<bar>q\<bar> mod 10 ^ 8))"

definition format_amount :: "pyval \<Rightarrow> string result" where
  "format_amount v =
     (case from_base_units v of
        Inl err \<Rightarrow> Inl err
      | Inr d \<Rightarrow> (case quantize8 d of Inl err \<Rightarrow> Inl err | Inr q \<Rightarrow> Inr (format_fixed8 q)))"

text \<open>\<open>str(d)\<close>: plain notation, or scientific below \<open>10 ^ -6\<close>.\<close>

fun dec_str :: "pydec \<Rightarrow> string" where
  "dec_str DecSpecial = ''NaN''"
| "dec_str (Dec c e) =
     (let ds = show_digits \<bar>c\<bar>; l = int (length ds); left = e + l;
          dot = (if e \<le> 0 \<and> - 6 < left then left else 1);
          ip = (if dot \<le> 0 then ''0''
                else if l \<le> dot then ds @ replicate (nat (dot - l)) (CHR ''0'')
                else take (nat dot) ds);
          fp = (if dot \<le> 0 then ''.'' @ replicate (nat (- dot)) (CHR ''0'') @ ds
                else if l \<le> dot then [] else ''.'' @ drop (nat dot) ds);
          ex = (if left = dot then []
                else ''E'' @ (if left - dot < 0 then show_int (left - dot) else ''+'' @ show_int (left - dot)))
      in (if c < 0 then ''-'' else []) @ ip @ fp @ ex)"

text \<open>A value that is not an \<open>int\<close> (a \<open>bool\<close> included) fails the first test.\<close>

definition validate_base_units :: "pyval \<Rightarrow> bool \<Rightarrow> tx_reason verdict" where
  "validate_base_units value allow_zero =
     (case value of
        PNum (PyInt n) \<Rightarrow>
          if n < 0 \<or> (n = 0 \<and> \<not> allow_zero) then Invalid AmountNotPositive
          else if n > MAX_SUPPLY_BASE_UNITS then Invalid AmountExceedsSupply
          else Valid
      | _ \<Rightarrow> Invalid AmountNotInteger)"

section \<open>Exactness\<close>

lemma length_show_digits_le: "0 \<le> n \<Longrightarrow> n < 10 ^ k \<Longrightarrow> 0 < k \<Longrightarrow> length (show_digits n) \<le> k"
proof (induction k arbitrary: n)
  case 0
  then show ?case by simp
next
  case (Suc k)
  show ?case
  proof (cases "n < 10")
    case True
    then show ?thesis by (subst show_digits.simps) simp
  next
    case False
    then have "0 < k" using Suc.prems by (cases k) auto
    moreover have "n div 10 < 10 ^ k"
      using Suc.prems by (simp add: div_less_iff_less_mult mult.commute)
    ultimately have "length (show_digits (n div 10)) \<le> k" using Suc False by simp
    with False show ?thesis by (subst show_digits.simps) simp
  qed
qed

lemma num_digits_le: "\<bar>c\<bar> < 10 ^ k \<Longrightarrow> 0 < k \<Longrightarrow> num_digits c \<le> int k"
  using length_show_digits_le [of "\<bar>c\<bar>" k] by (simp add: num_digits_def)

lemma num_digits_pos: "1 \<le> num_digits c"
  using show_digits_nonempty [of "\<bar>c\<bar>"] by (simp add: num_digits_def Suc_le_eq)

text \<open>A result of at most 28 digits and a moderate exponent is not touched by the context.\<close>
lemma dec_fix_exact:
  assumes "\<bar>c\<bar> < 10 ^ 28" "- 1000000 \<le> e" "e \<le> 900000"
  shows "dec_fix c e = Inr (Dec c e)"
proof -
  have "num_digits c \<le> 28" using num_digits_le [of c 28] assms(1) by simp
  then show ?thesis using assms(2,3)
    by (auto simp: dec_fix_def dec_prec_def dec_etiny_def dec_etop_def Let_def)
qed

lemma to_base_units_Dec:
  assumes "\<bar>c\<bar> < 10 ^ 20" "- 1000000 \<le> e" "e \<le> 900000"
    and "decimal_of_amount v = Some (Dec c e)"
  shows "to_base_units v =
     (if 0 \<le> e \<or> 10 ^ nat (- e) dvd c * 10 ^ 8
      then Inr (dec_to_int (c * 10 ^ 8) e) else Inl ValueError)"
proof -
  have "\<bar>c * BASE_UNITS_PER_SYJ\<bar> < 10 ^ 28"
    using assms(1) by (simp add: abs_mult BASE_UNITS_PER_SYJ_def)
  then have "dec_fix (c * BASE_UNITS_PER_SYJ) e = Inr (Dec (c * BASE_UNITS_PER_SYJ) e)"
    using assms(2,3) by (rule dec_fix_exact)
  then show ?thesis using assms(4)
    by (cases v) (simp_all add: to_base_units_def BASE_UNITS_PER_SYJ_def)
qed

section \<open>Round trips\<close>

definition plain_char :: "char \<Rightarrow> bool" where
  "plain_char c \<longleftrightarrow> is_digit c \<or> c = CHR ''.'' \<or> c = CHR ''-''"

lemma plain_not_space: "plain_char c \<Longrightarrow> \<not> is_space c \<and> c \<noteq> CHR ''_''"
  by (auto simp: plain_char_def is_digit_def is_space_def Let_def)

lemma strip_plain: "\<forall>c \<in> set s. plain_char c \<Longrightarrow> filter (\<lambda>c. c \<noteq> CHR ''_'') (strip s) = s"
proof -
  assume a: "\<forall>c \<in> set s. plain_char c"
  have d: "dropWhile is_space t = t" if "\<forall>c \<in> set t. plain_char c" for t
    using that plain_not_space by (cases t) auto
  have "strip s = s" using a by (simp add: strip_by_def d)
  then show ?thesis using a plain_not_space by (simp add: filter_id_conv)
qed

lemma digits_val_append: "digits_val (s @ t) = digits_val s * 10 ^ length t + digits_val t"
proof (induction t rule: rev_induct)
  case Nil
  then show ?case by (simp add: digits_val_def)
next
  case (snoc c t)
  have "digits_val (s @ t @ [c]) = digits_val ((s @ t) @ [c])" by simp
  then show ?case using snoc by (simp only: digits_val_snoc) (simp add: algebra_simps)
qed

lemma digits_val_zeros: "digits_val (replicate k (CHR ''0'')) = 0"
  by (induction k) (simp_all add: digits_val_def)

lemma pad_left_facts:
  assumes "0 \<le> n" "n < 10 ^ k" "0 < k"
  shows "length (pad_left k (show_digits n)) = k" "digits_val (pad_left k (show_digits n)) = n"
    "\<forall>c \<in> set (pad_left k (show_digits n)). is_digit c"
  using assms length_show_digits_le [OF assms] show_digits_digits [OF assms(1)]
  by (auto simp: pad_left_def digits_val_append digits_val_zeros is_digit_def)

lemma parse_unsigned_fixed:
  assumes "\<forall>c \<in> set a. is_digit c" "\<forall>c \<in> set b. is_digit c" "a \<noteq> []"
  shows "parse_unsigned neg (a @ ''.'' @ b) =
     Some (Dec (if neg then - digits_val (a @ b) else digits_val (a @ b)) (- int (length b)))"
proof -
  have dot: "\<not> is_digit (CHR ''.'')" by (simp add: is_digit_def)
  have a: "takeWhile is_digit (a @ CHR ''.'' # b) = a"
    "dropWhile is_digit (a @ CHR ''.'' # b) = CHR ''.'' # b"
    using assms(1) dot by (simp_all add: takeWhile_append dropWhile_append)
  have b: "takeWhile is_digit b = b" "dropWhile is_digit b = []"
    using assms(2) by (simp_all add: takeWhile_eq_all_conv dropWhile_eq_Nil_conv)
  show ?thesis using assms(3)
    by (simp add: parse_unsigned_def Let_def startswith_def parse_exponent_def a b)
qed

text \<open>Reading a formatted amount gives the decimal with eight places back.\<close>
lemma decimal_of_format_fixed8: "decimal_of_string (format_fixed8 q) = Some (Dec q (- 8))"
proof -
  let ?a = "show_digits (\<bar>q\<bar> div 10 ^ 8)"
  let ?b = "pad_left 8 (show_digits (\<bar>q\<bar> mod 10 ^ 8))"
  have a0: "0 \<le> \<bar>q\<bar> div 10 ^ 8" by (simp add: pos_imp_zdiv_nonneg_iff)
  have a: "\<forall>c \<in> set ?a. is_digit c" by (rule show_digits_digits [OF a0])
  have b: "length ?b = 8" "digits_val ?b = \<bar>q\<bar> mod 10 ^ 8" "\<forall>c \<in> set ?b. is_digit c"
    using pad_left_facts [of "\<bar>q\<bar> mod 10 ^ 8" 8] by simp_all
  have val: "digits_val (?a @ ?b) = \<bar>q\<bar>"
    by (simp only: digits_val_append b) simp
  have plain: "\<forall>c \<in> set (format_fixed8 q). plain_char c"
    using a b(3) by (auto simp: format_fixed8_def plain_char_def)
  have head: "\<not> startswith ''-'' (?a @ ''.'' @ ?b)" "\<not> startswith ''+'' (?a @ ''.'' @ ?b)"
    using hd_show_digits [OF a0] show_digits_nonempty [of "\<bar>q\<bar> div 10 ^ 8"]
    by (cases ?a; auto simp: startswith_def is_digit_def)+
  have parse: "parse_unsigned neg (?a @ ''.'' @ ?b) = Some (Dec (if neg then - \<bar>q\<bar> else \<bar>q\<bar>) (- 8))"
    for neg
    using parse_unsigned_fixed [OF a b(3), of neg] b(1) val by simp
  show ?thesis
  proof (cases "q < 0")
    case True
    then have "format_fixed8 q = CHR ''-'' # ?a @ ''.'' @ ?b" by (simp add: format_fixed8_def)
    then show ?thesis using strip_plain [OF plain] True parse [of True]
      by (simp add: decimal_of_string_def Let_def startswith_def)
  next
    case False
    then have "format_fixed8 q = ?a @ ''.'' @ ?b" by (simp add: format_fixed8_def)
    then show ?thesis using strip_plain [OF plain] False head parse [of False]
      by (simp add: decimal_of_string_def Let_def)
  qed
qed

lemma strip_zeros_val:
  "strip_zeros k n = (c, j) \<Longrightarrow> n = c * 10 ^ (k - j) \<and> j \<le> k \<and> \<bar>c\<bar> \<le> \<bar>n\<bar>"
proof (induction k arbitrary: n)
  case 0
  then show ?case by simp
next
  case (Suc k)
  show ?case
  proof (cases "n mod 10 = 0")
    case True
    with Suc have IH: "n div 10 = c * 10 ^ (k - j)" "j \<le> k" "\<bar>c\<bar> \<le> \<bar>n div 10\<bar>" by auto
    have n: "n = n div 10 * 10" using True by presburger
    have "n = c * 10 ^ (Suc k - j)"
      using IH(1,2) n by (simp add: Suc_diff_le mult.assoc mult.commute)
    moreover have "\<bar>n div 10\<bar> \<le> \<bar>n\<bar>" using n by presburger
    ultimately show ?thesis using IH by simp
  next
    case False
    with Suc.prems show ?thesis by simp
  qed
qed

lemma from_base_units_exact:
  assumes "\<bar>n\<bar> < 10 ^ 28"
  shows "\<exists>c k. from_base_units (PInt n) = Inr (Dec c (- int k)) \<and> k \<le> 8 \<and> n = c * 10 ^ (8 - k)"
proof -
  obtain c k where ck: "strip_zeros 8 n = (c, k)" by fastforce
  from strip_zeros_val [OF ck] have f: "n = c * 10 ^ (8 - k)" "k \<le> 8" "\<bar>c\<bar> \<le> \<bar>n\<bar>" by auto
  have "dec_fix c (- int k) = Inr (Dec c (- int k))"
    by (rule dec_fix_exact) (use f assms in auto)
  then show ?thesis using ck f by (auto simp: from_base_units_def)
qed

lemma format_amount_exact:
  assumes "\<bar>n\<bar> < 10 ^ 28"
  shows "format_amount (PInt n) = Inr (format_fixed8 n)"
proof -
  obtain c k where ck: "from_base_units (PInt n) = Inr (Dec c (- int k))" "k \<le> 8"
    "n = c * 10 ^ (8 - k)"
    using from_base_units_exact [OF assms] by blast
  have "nat (- int k + 8) = 8 - k" using ck(2) by simp
  moreover have "\<not> num_digits n > dec_prec"
    using num_digits_le [of n 28] assms by (simp add: dec_prec_def)
  ultimately show ?thesis using ck by (simp add: format_amount_def Let_def)
qed

section \<open>Properties\<close>

text \<open>C38: the text \<open>format_amount\<close> prints for an amount of base units is read back by
  \<open>to_base_units\<close> as the same amount, for every amount far beyond the supply cap.\<close>
theorem amount_text_roundtrip:
  assumes "\<bar>n\<bar> < 10 ^ 20"
  shows "\<exists>s. format_amount (PInt n) = Inr s \<and> to_base_units (AmtStr s) = Inr n"
proof -
  have "\<bar>n\<bar> < 10 ^ 28" using assms by simp
  then have "format_amount (PInt n) = Inr (format_fixed8 n)" by (rule format_amount_exact)
  moreover have "to_base_units (AmtStr (format_fixed8 n)) = Inr n"
    using to_base_units_Dec [OF assms, of "- 8" "AmtStr (format_fixed8 n)"]
    by (simp add: decimal_of_format_fixed8 dec_to_int_def abs_mult sgn_mult mult_sgn_abs)
  ultimately show ?thesis by blast
qed

theorem amount_text_roundtrip_witness:
  "\<exists>s. format_amount (PInt 150000000) = Inr s \<and> to_base_units (AmtStr s) = Inr 150000000"
  using amount_text_roundtrip [of 150000000] by simp

text \<open>\<open>to_base_units\<close> is not exact: the product is rounded to the 28 digits of the decimal
  context before the integrality test, so an amount with 37 decimal places, which is not a
  whole number of base units, is accepted as one base unit.\<close>
theorem to_base_units_accepts_inexact:
  "to_base_units (AmtStr ''0.0000000100000000000000000000000000001'') = Inr 1 \<and>
   decimal_of_string ''0.0000000100000000000000000000000000001'' =
     Some (Dec 100000000000000000000000000001 (- 37))"
  by code_simp

end
