(* ===== verification/Utils.thy ===== *)
theory Utils
  imports Native_Asset
begin

text \<open>
  \<open>blockchain/utils.py\<close>: the Merkle root, the hex check, and \<open>BoundedSet\<close>, the capacity-bounded
  set behind the replay cache and the seen-hash caches.  The interface of a bounded set is the
  locale \<open>bounded_set\<close>; its lemmas are proved from the laws alone and interpreted on the
  model of the class.
\<close>

section \<open>\<open>merkle_root\<close>\<close>

fun merkle_pairs :: "string list \<Rightarrow> string list" where
  "merkle_pairs (a # b # rest) = sha256 (a @ b) # merkle_pairs rest"
| "merkle_pairs _ = []"

definition merkle_even :: "string list \<Rightarrow> string list" where
  "merkle_even hs = (if length hs mod 2 = 1 then hs @ [last hs] else hs)"

lemma length_merkle_pairs: "length (merkle_pairs hs) = length hs div 2"
  by (induction hs rule: merkle_pairs.induct) auto

lemma length_merkle_even: "length (merkle_even hs) = length hs + length hs mod 2"
  by (simp add: merkle_even_def)

lemma merkle_step_shrinks: "1 < length hs \<Longrightarrow> length (merkle_pairs (merkle_even hs)) < length hs"
proof -
  assume "1 < length hs"
  then have "(length hs + length hs mod 2) div 2 < length hs" by presburger
  then show ?thesis by (simp add: length_merkle_pairs length_merkle_even)
qed

function merkle_loop :: "string list \<Rightarrow> string" where
  "merkle_loop hs = (if length hs > 1 then merkle_loop (merkle_pairs (merkle_even hs)) else hd hs)"
  by pat_completeness auto
termination
  by (relation "measure length") (simp_all add: merkle_step_shrinks)

declare merkle_loop.simps [simp del]

definition merkle_root :: "string list \<Rightarrow> string" where
  "merkle_root hashes = (if hashes = [] then sha256 [] else merkle_loop hashes)"

subsection \<open>A root binds the leaves of a list of known length\<close>

text \<open>Two different texts with the same digest.\<close>

definition sha_collision :: "string \<Rightarrow> string \<Rightarrow> bool" where
  "sha_collision a b \<longleftrightarrow> a \<noteq> b \<and> sha256 a = sha256 b"

text \<open>The texts that are hashed while a root is computed.\<close>

fun pair_inputs :: "string list \<Rightarrow> string list" where
  "pair_inputs (a # b # rest) = (a @ b) # pair_inputs rest"
| "pair_inputs _ = []"

function merkle_inputs :: "string list \<Rightarrow> string list" where
  "merkle_inputs hs =
     (if length hs > 1
      then pair_inputs (merkle_even hs) @ merkle_inputs (merkle_pairs (merkle_even hs)) else [])"
  by pat_completeness auto
termination
  by (relation "measure length") (simp_all add: merkle_step_shrinks)

declare merkle_inputs.simps [simp del]

definition inputs_collide :: "string list \<Rightarrow> string list \<Rightarrow> bool" where
  "inputs_collide us vs \<longleftrightarrow> (\<exists>a \<in> set us. \<exists>b \<in> set vs. sha_collision a b)"

lemma inputs_collide_Cons: "inputs_collide us vs \<Longrightarrow> inputs_collide (a # us) (b # vs)"
  unfolding inputs_collide_def by auto

lemma inputs_collide_append:
  "inputs_collide us vs \<or> inputs_collide us' vs' \<Longrightarrow> inputs_collide (us @ us') (vs @ vs')"
  unfolding inputs_collide_def by auto

lemma merkle_pairs_bind:
  assumes "length xs = length ys" "even (length xs)" "merkle_pairs xs = merkle_pairs ys"
    and "\<forall>h \<in> set xs. length h = 64" "\<forall>h \<in> set ys. length h = 64"
  shows "xs = ys \<or> inputs_collide (pair_inputs xs) (pair_inputs ys)"
  using assms
proof (induction xs arbitrary: ys rule: merkle_pairs.induct)
  case (1 a b rest)
  then obtain c d rest' where ys: "ys = c # d # rest'"
    by (cases ys; cases "tl ys") auto
  show ?case
  proof (cases "a @ b = c @ d")
    case True
    then have "a = c" "b = d" using 1 ys by auto
    moreover have "rest = rest' \<or> inputs_collide (pair_inputs rest) (pair_inputs rest')"
      using 1 ys by auto
    ultimately show ?thesis using ys by (auto simp: inputs_collide_Cons)
  next
    case False
    then have "sha_collision (a @ b) (c @ d)" using 1 ys by (simp add: sha_collision_def)
    then show ?thesis using ys by (simp add: inputs_collide_def)
  qed
qed auto

lemma merkle_even_eq_iff:
  assumes "length xs = length ys"
  shows "merkle_even xs = merkle_even ys \<longleftrightarrow> xs = ys"
  using assms by (auto simp: merkle_even_def)

lemma merkle_pairs_64: "\<forall>h \<in> set (merkle_pairs xs). length h = 64"
  by (induction xs rule: merkle_pairs.induct) auto

lemma merkle_even_64: "\<forall>h \<in> set xs. length h = 64 \<Longrightarrow> \<forall>h \<in> set (merkle_even xs). length h = 64"
  by (cases xs rule: rev_cases) (auto simp: merkle_even_def)

lemma even_merkle_even: "even (length (merkle_even xs))"
  by (simp add: length_merkle_even)

lemma merkle_loop_bind:
  assumes "length xs = length ys" "xs \<noteq> []" "merkle_loop xs = merkle_loop ys"
    and "\<forall>h \<in> set xs. length h = 64" "\<forall>h \<in> set ys. length h = 64"
  shows "xs = ys \<or> inputs_collide (merkle_inputs xs) (merkle_inputs ys)"
  using assms
proof (induction xs arbitrary: ys rule: merkle_loop.induct)
  case (1 xs)
  show ?case
  proof (cases "length xs > 1")
    case True
    let ?p = "\<lambda>zs. merkle_pairs (merkle_even zs)"
    have len: "length ys > 1" using True 1 by simp
    have "merkle_loop (?p xs) = merkle_loop (?p ys)"
      using 1 True by (simp add: merkle_loop.simps [of xs] merkle_loop.simps [of ys])
    moreover have "length (?p xs) = length (?p ys)"
      using 1 by (simp add: length_merkle_pairs length_merkle_even)
    moreover have "?p xs \<noteq> []"
      using True by (simp add: length_merkle_pairs length_merkle_even flip: length_0_conv)
    ultimately have "?p xs = ?p ys \<or> inputs_collide (merkle_inputs (?p xs)) (merkle_inputs (?p ys))"
      using 1 True merkle_pairs_64 by blast
    moreover have "?p xs = ?p ys \<Longrightarrow> merkle_even xs = merkle_even ys \<or>
        inputs_collide (pair_inputs (merkle_even xs)) (pair_inputs (merkle_even ys))"
      by (rule merkle_pairs_bind)
        (use 1 merkle_even_64 in \<open>simp_all add: length_merkle_even\<close>)
    moreover have "merkle_inputs xs = pair_inputs (merkle_even xs) @ merkle_inputs (?p xs)"
      "merkle_inputs ys = pair_inputs (merkle_even ys) @ merkle_inputs (?p ys)"
      using True len by (simp_all add: merkle_inputs.simps [of xs] merkle_inputs.simps [of ys])
    ultimately show ?thesis
      using merkle_even_eq_iff [OF 1(2)] inputs_collide_append by metis
  next
    case False
    with 1 obtain x y where "xs = [x]" "ys = [y]"
      by (cases xs; cases ys) (auto simp: Suc_length_conv)
    with 1 show ?thesis by (simp add: merkle_loop.simps)
  qed
qed

lemma merkle_root_bind:
  assumes "length xs = length ys" "merkle_root xs = merkle_root ys"
    and "\<forall>h \<in> set xs. length h = 64" "\<forall>h \<in> set ys. length h = 64"
  shows "xs = ys \<or> inputs_collide (merkle_inputs xs) (merkle_inputs ys)"
  using assms merkle_loop_bind [of xs ys] by (auto simp: merkle_root_def split: if_splits)

lemma length_merkle_loop: "hs \<noteq> [] \<Longrightarrow> \<forall>h \<in> set hs. length h = 64 \<Longrightarrow> length (merkle_loop hs) = 64"
proof (induction hs rule: merkle_loop.induct)
  case (1 hs)
  show ?case
  proof (cases "1 < length hs")
    case True
    then have "0 < length (merkle_pairs (merkle_even hs))"
      by (simp add: length_merkle_pairs length_merkle_even)
    then have "length (merkle_loop (merkle_pairs (merkle_even hs))) = 64"
      using 1(1) [OF True] merkle_pairs_64 by blast
    with True show ?thesis by (simp add: merkle_loop.simps [of hs])
  next
    case False
    with 1(2,3) show ?thesis by (cases hs) (simp_all add: merkle_loop.simps)
  qed
qed

lemma merkle_root_dup_last:
  assumes "odd (length hs)" "length hs > 1"
  shows "merkle_root (hs @ [last hs]) = merkle_root hs"
proof -
  have "merkle_even hs = hs @ [last hs]" "merkle_even (hs @ [last hs]) = hs @ [last hs]"
    using assms(1) by (simp_all add: merkle_even_def odd_iff_mod_2_eq_one)
  then show ?thesis using assms
    by (auto simp: merkle_root_def merkle_loop.simps [of hs] merkle_loop.simps [of "hs @ [last hs]"])
qed

section \<open>\<open>is_valid_hex_hash\<close>\<close>

definition is_valid_hex_hash :: "pyval \<Rightarrow> int \<Rightarrow> bool" where
  "is_valid_hex_hash value len =
     (case value of
        PStr s \<Rightarrow> int (length s) = len \<and> int_base16 s \<noteq> None
      | _ \<Rightarrow> False)"

lemma is_valid_hex_hash_sha256: "is_valid_hex_hash (PStr (sha256 s)) 64"
  using int_base16_lower_hex [of "sha256 s"] sha256_lower_hex
  by (auto simp: is_valid_hex_hash_def)

section \<open>\<open>BoundedSet\<close>\<close>

text \<open>The keys of the \<open>OrderedDict\<close>, oldest first, and the capacity.\<close>

record bounded_set_state =
  max_size :: int
  order :: "string list"

definition BoundedSet :: "int \<Rightarrow> bounded_set_state" where
  "BoundedSet n = \<lparr>max_size = n, order = []\<rparr>"

text \<open>\<open>add\<close>: a known item moves to the end; a new one is appended and, beyond the capacity, the
  first item is dropped.\<close>

definition bs_add :: "string \<Rightarrow> bounded_set_state \<Rightarrow> bounded_set_state" where
  "bs_add item b =
     (if item \<in> set (order b) then b\<lparr>order := remove1 item (order b) @ [item]\<rparr>
      else let o' = order b @ [item] in
           if int (length o') > max_size b then b\<lparr>order := tl o'\<rparr> else b\<lparr>order := o'\<rparr>)"

definition bs_contains :: "string \<Rightarrow> bounded_set_state \<Rightarrow> bool" where
  "bs_contains item b \<longleftrightarrow> item \<in> set (order b)"

definition bs_len :: "bounded_set_state \<Rightarrow> int" where
  "bs_len b = int (length (order b))"

definition bs_invar :: "bounded_set_state \<Rightarrow> bool" where
  "bs_invar b \<longleftrightarrow> distinct (order b) \<and> int (length (order b)) \<le> max 0 (max_size b)"

subsection \<open>The interface\<close>

locale bounded_set =
  fixes add :: "'a \<Rightarrow> 's \<Rightarrow> 's" and contains :: "'a \<Rightarrow> 's \<Rightarrow> bool" and size_of :: "'s \<Rightarrow> int"
    and capacity :: "'s \<Rightarrow> int" and invar :: "'s \<Rightarrow> bool"
  assumes invar_add: "invar s \<Longrightarrow> invar (add x s)"
    and size_bound: "invar s \<Longrightarrow> size_of s \<le> max 0 (capacity s)"
    and capacity_add: "capacity (add x s) = capacity s"
    and contains_add: "0 < capacity s \<Longrightarrow> invar s \<Longrightarrow> contains x (add x s)"
    and contains_addD: "invar s \<Longrightarrow> contains y (add x s) \<Longrightarrow> y = x \<or> contains y s"
    and contains_keep:
      "invar s \<Longrightarrow> size_of s < capacity s \<Longrightarrow> contains y s \<Longrightarrow> contains y (add x s)"
    and size_add: "invar s \<Longrightarrow> size_of (add x s) \<le> size_of s + 1"
begin

text \<open>After any sequence of additions the size is still bounded by the capacity.\<close>
lemma fold_invar: "invar s \<Longrightarrow> invar (fold add xs s)"
  by (induction xs arbitrary: s) (auto simp: invar_add)

lemma fold_capacity: "capacity (fold add xs s) = capacity s"
  by (induction xs arbitrary: s) (auto simp: capacity_add)

lemma fold_size: "invar s \<Longrightarrow> size_of (fold add xs s) \<le> max 0 (capacity s)"
  using size_bound [OF fold_invar] fold_capacity by metis

text \<open>An item is remembered as long as fewer additions than free places follow it.\<close>
lemma fold_keep:
  "invar s \<Longrightarrow> contains y s \<Longrightarrow> size_of s + int (length xs) \<le> capacity s \<Longrightarrow>
   contains y (fold add xs s)"
proof (induction xs arbitrary: s)
  case Nil
  then show ?case by simp
next
  case (Cons x xs)
  have "contains y (add x s)" using Cons.prems by (intro contains_keep) auto
  moreover have "size_of (add x s) + int (length xs) \<le> capacity (add x s)"
    using size_add [OF Cons.prems(1), of x] Cons.prems(3) by (simp add: capacity_add)
  ultimately show ?case using Cons.IH [OF invar_add [OF Cons.prems(1)]] by simp
qed

end

lemma bs_add_max_size [simp, frame_simps]: "max_size (bs_add x b) = max_size b"
  by (simp add: bs_add_def Let_def)

lemma bs_add_invar: "bs_invar b \<Longrightarrow> bs_invar (bs_add x b)"
proof -
  assume inv: "bs_invar b"
  show ?thesis
  proof (cases "x \<in> set (order b)")
    case True
    with inv length_pos_if_in_set [OF True] show ?thesis
      by (simp add: bs_add_def bs_invar_def length_remove1 distinct_remove1)
  next
    case False
    then have d: "distinct (order b @ [x])" using inv by (simp add: bs_invar_def)
    then have "distinct (tl (order b @ [x]))" by (rule distinct_tl)
    with d inv False show ?thesis
      by (auto simp: bs_add_def bs_invar_def Let_def)
  qed
qed

lemma bs_set_add: "set (order (bs_add x b)) \<subseteq> insert x (set (order b))"
  by (cases "order b") (auto simp: bs_add_def Let_def dest: in_set_remove1 notin_set_remove1)

interpretation bset: bounded_set bs_add bs_contains bs_len max_size bs_invar
proof
  show "bs_invar s \<Longrightarrow> bs_invar (bs_add x s)" for x s by (rule bs_add_invar)
  show "bs_invar s \<Longrightarrow> bs_len s \<le> max 0 (max_size s)" for s
    by (simp add: bs_invar_def bs_len_def)
  show "max_size (bs_add x s) = max_size s" for x s by simp
  show "0 < max_size s \<Longrightarrow> bs_invar s \<Longrightarrow> bs_contains x (bs_add x s)" for x s
    by (cases "order s") (auto simp: bs_contains_def bs_add_def Let_def)
  show "bs_invar s \<Longrightarrow> bs_contains y (bs_add x s) \<Longrightarrow> y = x \<or> bs_contains y s" for x y s
    using bs_set_add [of x s] by (auto simp: bs_contains_def)
  show "bs_invar s \<Longrightarrow> bs_len s < max_size s \<Longrightarrow> bs_contains y s \<Longrightarrow> bs_contains y (bs_add x s)" for x y s
    by (cases "y = x") (auto simp: bs_contains_def bs_add_def bs_len_def Let_def in_set_remove1)
  show "bs_invar s \<Longrightarrow> bs_len (bs_add x s) \<le> bs_len s + 1" for x s
    by (auto simp: bs_len_def bs_add_def Let_def length_remove1)
qed

subsection \<open>How long an item is remembered\<close>

text \<open>\<open>recent k x b\<close>: fewer than \<open>k\<close> items were added after \<open>x\<close>.\<close>

definition recent :: "nat \<Rightarrow> string \<Rightarrow> bounded_set_state \<Rightarrow> bool" where
  "recent k x b \<longleftrightarrow> (\<exists>pre post. order b = pre @ x # post \<and> length post < k)"

lemma bs_add_recent:
  assumes "bs_invar b" "recent k x b" "int k < max_size b"
  shows "recent (Suc k) x (bs_add y b)"
proof -
  obtain pre post where o: "order b = pre @ x # post" "length post < k"
    using assms(2) by (auto simp: recent_def)
  have d: "x \<notin> set pre" "x \<notin> set post" using assms(1) o(1) by (auto simp: bs_invar_def)
  consider "y = x" | "y \<in> set pre" "y \<noteq> x" | "y \<in> set post" "y \<notin> set pre" "y \<noteq> x" | "y \<notin> set (order b)"
    using o(1) by auto
  then show ?thesis
  proof cases
    case 1
    then show ?thesis using o unfolding recent_def bs_add_def
      by (intro exI [of _ "pre @ post"] exI [of _ "[]"]) (simp add: remove1_append d)
  next
    case 2
    then show ?thesis using o unfolding recent_def bs_add_def
      by (intro exI [of _ "remove1 y pre"] exI [of _ "post @ [y]"]) (simp add: remove1_append)
  next
    case 3
    then show ?thesis using o length_remove1 [of y post] unfolding recent_def bs_add_def
      by (intro exI [of _ pre] exI [of _ "remove1 y post @ [y]"]) (simp add: remove1_append)
  next
    case 4
    show ?thesis
    proof (cases pre)
      case Nil
      then show ?thesis using 4 o assms(3) unfolding recent_def bs_add_def
        by (intro exI [of _ "[]"] exI [of _ "post @ [y]"]) (simp add: Let_def)
    next
      case (Cons p ps)
      show ?thesis unfolding recent_def bs_add_def
        by (rule exI [of _ "if int (length (order b @ [y])) > max_size b then ps else pre"])
          (use 4 o Cons in \<open>auto simp: Let_def\<close>)
    qed
  qed
qed

lemma fold_bs_add_recent:
  "bs_invar b \<Longrightarrow> recent k x b \<Longrightarrow> int (k + length ys) \<le> max_size b \<Longrightarrow>
   recent (k + length ys) x (fold bs_add ys b)"
proof (induction ys arbitrary: b k)
  case (Cons y ys)
  have "recent (Suc k) x (bs_add y b)" using Cons.prems by (intro bs_add_recent) auto
  from Cons.IH [OF bs_add_invar [OF Cons.prems(1)] this] Cons.prems(3) show ?case by simp
qed simp

lemma recent_after_add:
  assumes "bs_invar b" "0 < max_size b"
  shows "recent 1 x (bs_add x b)"
proof -
  have "\<exists>pre. order (bs_add x b) = pre @ [x]"
    using assms by (cases "order b") (auto simp: bs_add_def Let_def)
  then show ?thesis by (force simp: recent_def)
qed

lemma bs_remembers:
  assumes "bs_invar b" "0 < max_size b" "int (length ys) < max_size b"
  shows "bs_contains x (fold bs_add ys (bs_add x b))"
proof -
  have inv: "bs_invar (bs_add x b)" by (rule bs_add_invar [OF assms(1)])
  have "recent (1 + length ys) x (fold bs_add ys (bs_add x b))"
    by (rule fold_bs_add_recent [OF inv recent_after_add [OF assms(1,2)]]) (use assms in simp)
  then show ?thesis by (auto simp: recent_def bs_contains_def)
qed

text \<open>Fresh items push the oldest ones out: the set keeps the last \<open>max_size\<close> of the sequence.\<close>
lemma order_bs_add_new:
  "y \<notin> set (order s) \<Longrightarrow>
   order (bs_add y s) =
     (if int (length (order s)) < max_size s then order s @ [y] else tl (order s @ [y]))"
  by (simp add: bs_add_def Let_def)

lemma fold_bs_add_fresh:
  assumes "distinct (order b @ ys)" "bs_invar b" "0 \<le> max_size b"
  shows "order (fold bs_add ys b) = drop (length (order b @ ys) - nat (max_size b)) (order b @ ys)"
  using assms(1)
proof (induction ys rule: rev_induct)
  case Nil
  then show ?case using assms(2,3) by (simp add: bs_invar_def)
next
  case (snoc y ys)
  define n l s where "n = nat (max_size b)" and "l = order b @ ys" and "s = fold bs_add ys b"
  have cap: "max_size s = int n" using bset.fold_capacity [of ys b] assms(3) by (simp add: s_def n_def)
  have o: "order s = drop (length l - n) l" using snoc by (simp add: s_def l_def n_def)
  have y: "y \<notin> set (order s)" using snoc.prems unfolding o l_def by (auto dest: in_set_dropD)
  have "order (bs_add y s) = drop (length (l @ [y]) - n) (l @ [y])"
  proof (cases "length l < n")
    case True
    then show ?thesis using order_bs_add_new [OF y] cap o by simp
  next
    case False
    then have "order (bs_add y s) = tl (drop (length l - n) (l @ [y]))"
      using order_bs_add_new [OF y] cap o by simp
    also have "\<dots> = drop (Suc (length l - n)) (l @ [y])" by (simp only: drop_Suc tl_drop)
    finally show ?thesis using False by (simp add: Suc_diff_le)
  qed
  then show ?case by (simp add: s_def l_def n_def)
qed

lemma bs_forgets:
  assumes "distinct (order b @ ys)" "bs_invar b" "0 \<le> max_size b" "max_size b \<le> int (length ys)"
    and "x \<notin> set ys"
  shows "\<not> bs_contains x (fold bs_add ys b)"
proof -
  have "set (drop (length (order b @ ys) - nat (max_size b)) (order b @ ys)) \<subseteq> set ys"
    using assms(4) set_drop_subset by fastforce
  then show ?thesis using fold_bs_add_fresh [OF assms(1-3)] assms(5) by (auto simp: bs_contains_def)
qed

section \<open>Properties\<close>

text \<open>A Merkle root binds its leaves: two lists of equally many transaction hashes with the
  same root are the same list, unless two texts hashed on the way collide under SHA-256.\<close>
theorem merkle_root_binds_leaves:
  assumes "length xs = length ys" "merkle_root xs = merkle_root ys"
    and "\<forall>h \<in> set xs. length h = 64" "\<forall>h \<in> set ys. length h = 64"
  shows "xs = ys \<or>
    (\<exists>a \<in> set (merkle_inputs xs). \<exists>b \<in> set (merkle_inputs ys). a \<noteq> b \<and> sha256 a = sha256 b)"
  using merkle_root_bind [OF assms] by (simp add: inputs_collide_def sha_collision_def)

theorem merkle_root_binds_leaves_witness:
  "[sha256 ''a'', sha256 ''b''] = [sha256 ''a'', sha256 ''b''] \<or>
    (\<exists>a \<in> set (merkle_inputs [sha256 ''a'', sha256 ''b'']).
     \<exists>b \<in> set (merkle_inputs [sha256 ''a'', sha256 ''b'']). a \<noteq> b \<and> sha256 a = sha256 b)"
  using merkle_root_binds_leaves [of "[sha256 ''a'', sha256 ''b'']" "[sha256 ''a'', sha256 ''b'']"] by simp

text \<open>a Merkle root does not bind the number of leaves: repeating the last of an odd number
  of hashes gives the same root.\<close>
theorem merkle_root_repeats_last:
  assumes "odd (length hs)" "1 < length hs"
  shows "merkle_root (hs @ [last hs]) = merkle_root hs \<and> hs @ [last hs] \<noteq> hs"
  using merkle_root_dup_last [OF assms] by simp

theorem merkle_root_repeats_last_witness:
  "merkle_root ([''a'', ''b'', ''c''] @ [last [''a'', ''b'', ''c'']]) = merkle_root [''a'', ''b'', ''c''] \<and>
   [''a'', ''b'', ''c''] @ [last [''a'', ''b'', ''c'']] \<noteq> [''a'', ''b'', ''c'']"
  using merkle_root_repeats_last [of "[''a'', ''b'', ''c'']"] by simp

text \<open>\<open>BoundedSet\<close> never holds more than its capacity, and an item is still in the set after
  it was added and at most \<open>max_size - 1\<close> further items were.\<close>
theorem bounded_set_memory:
  assumes "bs_invar b" "0 < max_size b" "int (length ys) < max_size b"
  shows "bs_contains x (fold bs_add ys (bs_add x b)) \<and>
    bs_len (fold bs_add ys (bs_add x b)) \<le> max_size b"
proof
  show "bs_contains x (fold bs_add ys (bs_add x b))" by (rule bs_remembers [OF assms])
  show "bs_len (fold bs_add ys (bs_add x b)) \<le> max_size b"
    using bset.fold_size [OF bs_add_invar [OF assms(1)], of ys] assms(2) by simp
qed

theorem bounded_set_memory_witness:
  "bs_contains ''x'' (fold bs_add [''a'', ''b''] (bs_add ''x'' (BoundedSet 3))) \<and>
   bs_len (fold bs_add [''a'', ''b''] (bs_add ''x'' (BoundedSet 3))) \<le> max_size (BoundedSet 3)"
  by (rule bounded_set_memory) (simp_all add: BoundedSet_def bs_invar_def)

end
