(* ===== verification/Wallet.thy ===== *)
theory Wallet
  imports Utils
begin

text \<open>
  \<open>blockchain/wallet.py\<close>: addresses, wallets and signature checks.  The elliptic-curve
  operations belong to the \<open>cryptography\<close> package and are the record \<open>crypto\<close>, an argument
  of every definition that uses them; \<open>crypto_correct\<close> states the documented behaviour of
  ECDSA that signing relies on.
\<close>

definition ADDRESS_PREFIX :: string where
  "ADDRESS_PREFIX = ''SYJ''"

definition ADDRESS_HASH_LENGTH :: nat where
  "ADDRESS_HASH_LENGTH = 40"

definition SECP256K1_ORDER :: int where
  "SECP256K1_ORDER = 0xFFFFFFFFFFFFFFFFFFFFFFFFFFFFFFFEBAAEDCE6AF48A03BBFD25E8CD0364141"

text \<open>
  The operations of \<open>cryptography.hazmat.primitives.asymmetric.ec\<close> on SECP256K1:
  \<open>ec_on_curve x y\<close> when \<open>EllipticCurvePublicNumbers(x, y).public_key()\<close> succeeds,
  \<open>ec_verify x y r s m\<close> when \<open>key.verify\<close> accepts the signature \<open>(r, s)\<close> of \<open>m\<close>,
  \<open>ec_public d\<close> the public numbers of the private value \<open>d\<close>, and \<open>ec_sign d m\<close> the
  signature \<open>key.sign\<close> returns.
\<close>

record crypto =
  ec_on_curve :: "int \<Rightarrow> int \<Rightarrow> bool"
  ec_verify :: "int \<Rightarrow> int \<Rightarrow> int \<Rightarrow> int \<Rightarrow> string \<Rightarrow> bool"
  ec_public :: "int \<Rightarrow> int \<times> int"
  ec_sign :: "int \<Rightarrow> string \<Rightarrow> int \<times> int"

definition crypto_correct :: "crypto \<Rightarrow> bool" where
  "crypto_correct C \<longleftrightarrow>
     (\<forall>d m. 0 < d \<and> d < SECP256K1_ORDER \<longrightarrow>
        (case (ec_public C d, ec_sign C d m) of
           ((x, y), (r, s)) \<Rightarrow>
             0 \<le> x \<and> x < 2 ^ 256 \<and> 0 \<le> y \<and> y < 2 ^ 256 \<and> ec_on_curve C x y \<and>
             0 < r \<and> r < SECP256K1_ORDER \<and> 0 < s \<and> s < SECP256K1_ORDER \<and>
             ec_verify C x y r s m \<and> ec_verify C x y r (SECP256K1_ORDER - s) m))"

section \<open>Addresses\<close>

definition derive_address :: "string \<Rightarrow> string" where
  "derive_address public_key_hex =
     ADDRESS_PREFIX @ take ADDRESS_HASH_LENGTH (sha256 public_key_hex)"

definition is_valid_address :: "string \<Rightarrow> bool" where
  "is_valid_address address =
     (if \<not> startswith ADDRESS_PREFIX address then False
      else
        let remainder = drop (length ADDRESS_PREFIX) address in
        if length remainder \<noteq> ADDRESS_HASH_LENGTH \<or> remainder \<noteq> lower remainder then False
        else int_base16 remainder \<noteq> None)"

lemma lower_hex_id: "\<forall>c \<in> set s. is_lower_hex c \<Longrightarrow> lower s = s"
  by (induction s) (auto simp: lower_def)

lemma is_valid_address_hex:
  assumes "\<forall>c \<in> set s. is_lower_hex c" "length s = 40"
  shows "is_valid_address (''SYJ'' @ s)"
proof -
  have "s \<noteq> []" using assms(2) by auto
  then obtain n where "int_base16 s = Some n" using int_base16_lower_hex assms(1) by blast
  then show ?thesis using assms lower_hex_id
    by (simp add: is_valid_address_def ADDRESS_PREFIX_def ADDRESS_HASH_LENGTH_def startswith_def)
qed

lemma derive_address_valid [hash_facts, simp]: "is_valid_address (derive_address pk)"
proof -
  have "\<forall>c \<in> set (take 40 (sha256 pk)). is_lower_hex c"
    using sha256_lower_hex by (auto dest: in_set_takeD)
  moreover have "length (take 40 (sha256 pk)) = 40" by simp
  ultimately show ?thesis
    unfolding derive_address_def ADDRESS_PREFIX_def ADDRESS_HASH_LENGTH_def
    by (rule is_valid_address_hex)
qed

lemma is_valid_address_length: "is_valid_address a \<Longrightarrow> length a = 43"
  by (auto simp: is_valid_address_def ADDRESS_PREFIX_def ADDRESS_HASH_LENGTH_def startswith_def
      Let_def split: if_splits)

section \<open>Wallets\<close>

record wallet =
  private_key_hex :: string
  public_key_hex :: string
  address :: string

definition point_hex :: "int \<times> int \<Rightarrow> string" where
  "point_hex p = hex (to_bytes_big 32 (fst p)) @ hex (to_bytes_big 32 (snd p))"

text \<open>\<open>Wallet.create\<close>, with the private value the generator drew.\<close>

definition Wallet_create :: "crypto \<Rightarrow> int \<Rightarrow> wallet" where
  "Wallet_create C d =
     (let pub = point_hex (ec_public C d)
      in \<lparr>private_key_hex = hex (to_bytes_big 32 d), public_key_hex = pub, address = derive_address pub\<rparr>)"

definition Wallet_from_private_key :: "crypto \<Rightarrow> string \<Rightarrow> wallet result" where
  "Wallet_from_private_key C key =
     (case fromhex key of
        None \<Rightarrow> Inl WalletError
      | Some raw \<Rightarrow>
          if length raw \<noteq> 32 \<or> from_bytes_big raw = 0 \<or> from_bytes_big raw \<ge> SECP256K1_ORDER
          then Inl WalletError
          else
            let pub = point_hex (ec_public C (from_bytes_big raw))
            in Inr \<lparr>private_key_hex = lower key, public_key_hex = pub, address = derive_address pub\<rparr>)"

definition export_keys :: "wallet \<Rightarrow> pyval" where
  "export_keys w = PDict [(''public_key'', PStr (public_key_hex w)), (''address'', PStr (address w))]"

text \<open>\<open>sign\<close>: the scalar \<open>s\<close> is brought into the lower half of the group order.\<close>

definition low_s :: "int \<Rightarrow> int" where
  "low_s s = (if s > SECP256K1_ORDER div 2 then SECP256K1_ORDER - s else s)"

definition Wallet_sign :: "crypto \<Rightarrow> wallet \<Rightarrow> string \<Rightarrow> string result" where
  "Wallet_sign C w message =
     (case fromhex (private_key_hex w) of
        None \<Rightarrow> Inl ValueError
      | Some raw \<Rightarrow>
          (case ec_sign C (from_bytes_big raw) message of
             (r, s) \<Rightarrow> Inr (hex (to_bytes_big 32 r) @ hex (to_bytes_big 32 (low_s s)))))"

definition verify_signature :: "crypto \<Rightarrow> string \<Rightarrow> string \<Rightarrow> string \<Rightarrow> bool" where
  "verify_signature C public_key message signature_hex =
     (case (fromhex public_key, fromhex signature_hex) of
        (Some pub, Some sig) \<Rightarrow>
          if length pub \<noteq> 64 \<or> length sig \<noteq> 64 then False
          else
            let s = from_bytes_big (drop 32 sig) in
            if s = 0 \<or> s > SECP256K1_ORDER div 2 then False
            else
              let x = from_bytes_big (take 32 pub); y = from_bytes_big (drop 32 pub)
              in ec_on_curve C x y \<and> ec_verify C x y (from_bytes_big (take 32 sig)) s message
      | _ \<Rightarrow> False)"

section \<open>Signing and verifying\<close>

lemma hex_val_lower_char [simp]: "hex_val (lower_char c) = hex_val c"
  by (auto simp: hex_val_def lower_char_def Let_def)

lemma is_ascii_space_lower [simp]: "is_ascii_space (lower_char c) = is_ascii_space c"
  by (auto simp: is_ascii_space_def lower_char_def Let_def)

lemma fromhex_lower [simp]: "fromhex (lower s) = fromhex s"
  unfolding lower_def
  by (induction s rule: fromhex.induct) (auto split: list.splits option.splits)

lemma hex_append: "hex (a @ b) = hex a @ hex b"
  by (simp add: hex_def)

lemma fromhex_hex2 [simp]: "fromhex (hex a @ hex b) = Some (a @ b)"
  using fromhex_hex [of "a @ b"] by (simp add: hex_append)

lemma from_bytes_32 [simp]:
  "0 \<le> n \<Longrightarrow> n < 2 ^ 256 \<Longrightarrow> from_bytes_big (to_bytes_big 32 n) = n"
  by (rule from_to_bytes_big) simp_all

lemma order_bound: "SECP256K1_ORDER < 2 ^ 256"
  by (simp add: SECP256K1_ORDER_def)

lemma low_s_range:
  assumes "0 < s" "s < SECP256K1_ORDER"
  shows "0 < low_s s" "low_s s \<le> SECP256K1_ORDER div 2"
  using assms by (auto simp: low_s_def SECP256K1_ORDER_def)

lemma from_bytes_big_nonneg: "0 \<le> from_bytes_big bs"
proof (induction bs rule: rev_induct)
  case (snoc b bs)
  then show ?case by (simp add: from_bytes_big_def)
qed (simp add: from_bytes_big_def)

lemma length_point_hex [simp]: "length (point_hex p) = 128"
  by (simp add: point_hex_def)

lemma Wallet_from_private_key_facts:
  assumes "Wallet_from_private_key C key = Inr w"
  shows "address w = derive_address (public_key_hex w)" "length (public_key_hex w) = 128"
    "private_key_hex w = lower key"
  using assms by (auto simp: Wallet_from_private_key_def Let_def split: option.splits if_splits)

text \<open>What a wallet signs, its own public key verifies.\<close>
lemma Wallet_sign_verifies:
  assumes C: "crypto_correct C" and w: "Wallet_from_private_key C key = Inr w"
  shows "\<exists>sig. Wallet_sign C w m = Inr sig \<and> verify_signature C (public_key_hex w) m sig \<and> sig \<noteq> []"
proof -
  from w obtain raw where raw: "fromhex key = Some raw"
    "from_bytes_big raw \<noteq> 0" "from_bytes_big raw < SECP256K1_ORDER"
    and weq: "w = \<lparr>private_key_hex = lower key, public_key_hex = point_hex (ec_public C (from_bytes_big raw)),
       address = derive_address (point_hex (ec_public C (from_bytes_big raw)))\<rparr>"
    by (auto simp: Wallet_from_private_key_def Let_def split: option.splits if_splits)
  define d where "d = from_bytes_big raw"
  have d: "0 < d" "d < SECP256K1_ORDER"
    using raw from_bytes_big_nonneg [of raw] by (auto simp: d_def)
  obtain x y where xy: "ec_public C d = (x, y)" by fastforce
  obtain r s where rs: "ec_sign C d m = (r, s)" by fastforce
  have ok: "0 \<le> x" "x < 2 ^ 256" "0 \<le> y" "y < 2 ^ 256" "ec_on_curve C x y"
    "0 < r" "r < SECP256K1_ORDER" "0 < s" "s < SECP256K1_ORDER"
    "ec_verify C x y r s m" "ec_verify C x y r (SECP256K1_ORDER - s) m"
    using C [unfolded crypto_correct_def, rule_format, of d m] d by (simp_all add: xy rs)
  have low: "0 < low_s s" "low_s s \<le> SECP256K1_ORDER div 2" using low_s_range ok by auto
  have small: "low_s s < 2 ^ 256" "r < 2 ^ 256" using low(2) ok(7) order_bound by auto
  have "ec_verify C x y r (low_s s) m" using ok by (simp add: low_s_def)
  then have "verify_signature C (point_hex (x, y)) m
      (hex (to_bytes_big 32 r) @ hex (to_bytes_big 32 (low_s s)))"
    using ok low small
    by (simp add: verify_signature_def point_hex_def Let_def)
  moreover have "Wallet_sign C w m = Inr (hex (to_bytes_big 32 r) @ hex (to_bytes_big 32 (low_s s)))"
    using raw(1) rs by (simp add: Wallet_sign_def weq d_def)
  moreover have "hex (to_bytes_big 32 r) @ hex (to_bytes_big 32 (low_s s)) \<noteq> []"
    by (simp flip: length_0_conv)
  ultimately show ?thesis using xy by (auto simp: weq d_def)
qed

lemma verify_signature_upper:
  "verify_signature C pk m (map upper_char sig) = verify_signature C pk m sig"
  by (simp add: verify_signature_def fromhex_upper)

section \<open>Properties\<close>

text \<open>of the two scalars \<open>s\<close> and \<open>n - s\<close> that sign a message under ECDSA,
  \<open>verify_signature\<close> accepts at most one: the signature cannot be mirrored.\<close>
theorem mirrored_signature_rejected:
  assumes "0 \<le> s" "s < SECP256K1_ORDER"
    and "verify_signature C pk m (hex (to_bytes_big 32 r) @ hex (to_bytes_big 32 s))"
  shows "\<not> verify_signature C pk m
    (hex (to_bytes_big 32 r) @ hex (to_bytes_big 32 (SECP256K1_ORDER - s)))"
proof -
  have "s < 2 ^ 256" using assms(2) order_bound by linarith
  then have "s \<noteq> 0" "s \<le> SECP256K1_ORDER div 2"
    using assms(1,3) by (auto simp: verify_signature_def Let_def split: option.splits if_splits)
  then have "SECP256K1_ORDER - s > SECP256K1_ORDER div 2" by (simp add: SECP256K1_ORDER_def)
  moreover have "0 \<le> SECP256K1_ORDER - s" "SECP256K1_ORDER - s < 2 ^ 256"
    using assms(1,2) order_bound by linarith+
  ultimately show ?thesis
    by (auto simp: verify_signature_def Let_def split: option.splits)
qed

text \<open>An instance of the curve operations that satisfies \<open>crypto_correct\<close>, for the witnesses.\<close>

definition sample_crypto :: crypto where
  "sample_crypto =
     \<lparr>ec_on_curve = (\<lambda>_ _. True), ec_verify = (\<lambda>_ _ _ _ _. True),
      ec_public = (\<lambda>_. (1, 2)), ec_sign = (\<lambda>_ _. (1, 1))\<rparr>"

lemma sample_crypto_correct: "crypto_correct sample_crypto"
  by (simp add: crypto_correct_def sample_crypto_def SECP256K1_ORDER_def)

theorem mirrored_signature_rejected_witness:
  "verify_signature sample_crypto (point_hex (1, 2)) ''m'' (hex (to_bytes_big 32 1) @ hex (to_bytes_big 32 1)) \<and>
   \<not> verify_signature sample_crypto (point_hex (1, 2)) ''m''
      (hex (to_bytes_big 32 1) @ hex (to_bytes_big 32 (SECP256K1_ORDER - 1)))"
proof -
  have "verify_signature sample_crypto (point_hex (1, 2)) ''m'' (hex (to_bytes_big 32 1) @ hex (to_bytes_big 32 1))"
    by (simp add: verify_signature_def point_hex_def SECP256K1_ORDER_def Let_def sample_crypto_def
        del: to_bytes_big.simps)
  from mirrored_signature_rejected [OF _ _ this] this show ?thesis
    by (simp add: SECP256K1_ORDER_def)
qed

end
