(* ===== verification/Transaction.thy ===== *)
theory Transaction
  imports Wallet
begin

text \<open>
  \<open>blockchain/transaction.py\<close>: the transaction, its constructor, canonical signing text and
  hash, \<open>sign\<close>, \<open>verify\<close>, and the dict form it is stored and sent in.  \<open>now\<close> is the value
  \<open>current_timestamp()\<close> returns to the call.
\<close>

definition COINBASE_SENDER :: string where
  "COINBASE_SENDER = ''SYJ-COINBASE-0000000000000000000000000000''"

definition GENESIS_ADDRESS :: string where
  "GENESIS_ADDRESS = ''SYJ-GENESIS-0000000000000000000000000000''"

record transaction =
  sender :: string
  receiver :: string
  amount_base_units :: int
  tx_timestamp :: pynum
  sender_public_key :: "string option"
  signature :: "string option"
  tx_hash :: string

section \<open>Payloads and hashes\<close>

definition signing_payload :: "transaction \<Rightarrow> (string \<times> pyval) list" where
  "signing_payload tx =
     [(''sender'', PStr (sender tx)),
      (''receiver'', PStr (receiver tx)),
      (''amount_base_units'', PInt (amount_base_units tx)),
      (''timestamp'', PNum (tx_timestamp tx))]"

definition signing_message :: "transaction \<Rightarrow> string" where
  "signing_message tx = deterministic_json (PDict (signing_payload tx))"

definition hash_payload :: "transaction \<Rightarrow> (string \<times> pyval) list" where
  "hash_payload tx =
     dict_set ''signature'' (opt_str (signature tx))
       (dict_set ''sender_public_key'' (opt_str (sender_public_key tx)) (signing_payload tx))"

definition tx_compute_hash :: "transaction \<Rightarrow> string" where
  "tx_compute_hash tx = sha256 (deterministic_json (PDict (hash_payload tx)))"

section \<open>Construction\<close>

definition mk_Transaction ::
  "int \<Rightarrow> string \<Rightarrow> string \<Rightarrow> amount_input option \<Rightarrow> pynum option \<Rightarrow> string option \<Rightarrow>
   string option \<Rightarrow> string \<Rightarrow> pyval option \<Rightarrow> transaction result" where
  "mk_Transaction now sndr rcvr amount ts pk sig h abu =
     (let build = (\<lambda>n.
        let tx = \<lparr>sender = sndr, receiver = rcvr, amount_base_units = n,
                  tx_timestamp = (case ts of None \<Rightarrow> PyInt now | Some t \<Rightarrow> t),
                  sender_public_key = pk, signature = sig, tx_hash = h\<rparr>
        in tx\<lparr>tx_hash := (if h = [] then tx_compute_hash tx else h)\<rparr>)
      in if abu \<noteq> None \<and> amount \<noteq> None then Inl (ValidationError AmountGivenTwice)
         else
           (case abu of
              None \<Rightarrow>
                (case amount of
                   None \<Rightarrow> Inl (ValidationError AmountMissing)
                 | Some a \<Rightarrow>
                     (case to_base_units a of
                        Inl ValueError \<Rightarrow> Inl (ValidationError AmountUnparsable)
                      | Inl e \<Rightarrow> Inl e
                      | Inr n \<Rightarrow> Inr (build n)))
            | Some (PNum (PyInt n)) \<Rightarrow> Inr (build n)
            | Some _ \<Rightarrow> Inl (ValidationError AmountNotInt)))"

definition new_coinbase :: "int \<Rightarrow> string \<Rightarrow> amount_input \<Rightarrow> transaction result" where
  "new_coinbase now rcvr amount =
     mk_Transaction now COINBASE_SENDER rcvr (Some amount) None None None [] None"

definition new_coinbase_base_units :: "int \<Rightarrow> string \<Rightarrow> pyval \<Rightarrow> transaction result" where
  "new_coinbase_base_units now rcvr abu =
     mk_Transaction now COINBASE_SENDER rcvr None None None None [] (Some abu)"

text \<open>The \<open>amount\<close> setter.\<close>

definition set_amount :: "amount_input \<Rightarrow> transaction \<Rightarrow> transaction result" where
  "set_amount a tx =
     (case to_base_units a of
        Inl ValueError \<Rightarrow> Inl (ValidationError AmountUnparsable)
      | Inl e \<Rightarrow> Inl e
      | Inr n \<Rightarrow> Inr (tx\<lparr>amount_base_units := n\<rparr>))"

definition amount_syj :: "transaction \<Rightarrow> pydec result" where
  "amount_syj tx = from_base_units (PInt (amount_base_units tx))"

section \<open>Signing and verification\<close>

definition is_coinbase :: "transaction \<Rightarrow> bool" where
  "is_coinbase tx \<longleftrightarrow> sender tx = COINBASE_SENDER"

definition sign_transaction :: "crypto \<Rightarrow> wallet \<Rightarrow> transaction \<Rightarrow> transaction result" where
  "sign_transaction C w tx =
     (if sender tx = COINBASE_SENDER then Inl (ValidationError CoinbaseNotSignable)
      else if address w \<noteq> sender tx then Inl (ValidationError WalletMismatch)
      else
        (case Wallet_sign C w (signing_message tx) of
           Inl e \<Rightarrow> Inl e
         | Inr sig \<Rightarrow>
             let tx' = tx\<lparr>sender_public_key := Some (public_key_hex w), signature := Some sig\<rparr>
             in Inr (tx'\<lparr>tx_hash := tx_compute_hash tx'\<rparr>)))"

definition verify :: "crypto \<Rightarrow> transaction \<Rightarrow> bool" where
  "verify C tx =
     (if amount_base_units tx \<le> 0 then False
      else if validate_base_units (PInt (amount_base_units tx)) False \<noteq> Valid then False
      else if \<not> is_valid_address (receiver tx) then False
      else if tx_hash tx \<noteq> tx_compute_hash tx then False
      else if is_coinbase tx then sender_public_key tx = None \<and> signature tx = None
      else if \<not> is_valid_address (sender tx) then False
      else
        (case (sender_public_key tx, signature tx) of
           (Some pk, Some sig) \<Rightarrow>
             if pk = [] \<or> sig = [] then False
             else if derive_address pk \<noteq> sender tx then False
             else verify_signature C pk (signing_message tx) sig
         | _ \<Rightarrow> False))"

section \<open>Dict form\<close>

definition tx_to_dict :: "transaction \<Rightarrow> (string \<times> pyval) list result" where
  "tx_to_dict tx =
     (case amount_syj tx of
        Inl e \<Rightarrow> Inl e
      | Inr d \<Rightarrow>
          Inr [(''sender'', PStr (sender tx)),
               (''receiver'', PStr (receiver tx)),
               (''amount'', PStr (dec_str d)),
               (''amount_base_units'', PInt (amount_base_units tx)),
               (''timestamp'', PNum (tx_timestamp tx)),
               (''sender_public_key'', opt_str (sender_public_key tx)),
               (''signature'', opt_str (signature tx)),
               (''tx_hash'', PStr (tx_hash tx))])"

text \<open>\<open>int(s)\<close> in base 10: optional sign, digits with single underscores between them.\<close>

fun dec_digits :: "int \<Rightarrow> string \<Rightarrow> int option" where
  "dec_digits acc [] = Some acc"
| "dec_digits acc (c # cs) =
     (if is_digit c then dec_digits (10 * acc + (of_char c - 48)) cs
      else if c = CHR ''_'' then
        (case cs of
           [] \<Rightarrow> None
         | d # ds \<Rightarrow> if is_digit d then dec_digits (10 * acc + (of_char d - 48)) ds else None)
      else None)"

definition dec_number :: "string \<Rightarrow> int option" where
  "dec_number s = (case s of [] \<Rightarrow> None | c # cs \<Rightarrow> if is_digit c then dec_digits 0 s else None)"

definition int_base10 :: "string \<Rightarrow> int option" where
  "int_base10 s =
     (let t = strip s in
      if startswith ''-'' t then map_option uminus (dec_number (drop 1 t))
      else if startswith ''+'' t then dec_number (drop 1 t)
      else dec_number t)"

text \<open>\<open>int(v)\<close> on a JSON value.\<close>

fun py_int :: "pyval \<Rightarrow> int result" where
  "py_int (PNum n) = Inr (num_val n)"
| "py_int (PDec m k) = Inr (sgn m * (\<bar>m\<bar> div 10 ^ Suc k))"
| "py_int (PBool b) = Inr (if b then 1 else 0)"
| "py_int (PStr s) = (case int_base10 s of None \<Rightarrow> Inl ValueError | Some i \<Rightarrow> Inr i)"
| "py_int _ = Inl TypeError"

text \<open>Typed access to a dict.  A value of a type the record has no place for is reported as
  \<open>UntypedField\<close>: Python would carry it on unchecked, which the record cannot represent.\<close>

definition get_item :: "string \<Rightarrow> (string \<times> pyval) list \<Rightarrow> pyval result" where
  "get_item k d = (case map_of d k of None \<Rightarrow> Inl (KeyError k) | Some v \<Rightarrow> Inr v)"

definition get_str :: "string \<Rightarrow> (string \<times> pyval) list \<Rightarrow> string result" where
  "get_str k d =
     (case get_item k d of
        Inl e \<Rightarrow> Inl e
      | Inr (PStr s) \<Rightarrow> Inr s
      | Inr _ \<Rightarrow> Inl (UntypedField k))"

definition get_opt_str :: "string \<Rightarrow> (string \<times> pyval) list \<Rightarrow> string option result" where
  "get_opt_str k d =
     (case map_of d k of
        None \<Rightarrow> Inr None
      | Some PNone \<Rightarrow> Inr None
      | Some (PStr s) \<Rightarrow> Inr (Some s)
      | Some _ \<Rightarrow> Inl (UntypedField k))"

definition tx_timestamp_of :: "(string \<times> pyval) list \<Rightarrow> pynum option result" where
  "tx_timestamp_of d =
     (case get_item ''timestamp'' d of
        Inl e \<Rightarrow> Inl e
      | Inr v \<Rightarrow>
          if map_of d ''sender'' = Some (PStr GENESIS_ADDRESS)
          then (case v of
                  PNum n \<Rightarrow> Inr (Some n)
                | PNone \<Rightarrow> Inr None
                | _ \<Rightarrow> Inl (UntypedField ''timestamp''))
          else map_sum id (Some \<circ> PyInt) (py_int v))"

fun amount_of_pyval :: "pyval \<Rightarrow> amount_input option" where
  "amount_of_pyval PNone = None"
| "amount_of_pyval (PBool b) = Some (AmtBool b)"
| "amount_of_pyval (PNum (PyInt i)) = Some (AmtInt i)"
| "amount_of_pyval (PNum (PyFloat i)) = Some (AmtFloat (json_num (PyFloat i)))"
| "amount_of_pyval (PDec m k) = Some (AmtFloat (dec_text m k))"
| "amount_of_pyval (PStr s) = Some (AmtStr s)"
| "amount_of_pyval v = Some (AmtStr (dumps v))"

definition tx_from_dict :: "int \<Rightarrow> (string \<times> pyval) list \<Rightarrow> transaction result" where
  "tx_from_dict now d =
     (let finish = (\<lambda>amount abu.
        (case tx_timestamp_of d of
           Inl e \<Rightarrow> Inl e
         | Inr ts \<Rightarrow>
             (case get_opt_str ''sender_public_key'' d of
                Inl e \<Rightarrow> Inl e
              | Inr pk \<Rightarrow>
                  (case get_opt_str ''signature'' d of
                     Inl e \<Rightarrow> Inl e
                   | Inr sig \<Rightarrow>
                       (case get_opt_str ''tx_hash'' d of
                          Inl e \<Rightarrow> Inl e
                        | Inr h \<Rightarrow>
                            (case (get_str ''sender'' d, get_str ''receiver'' d) of
                               (Inr sndr, Inr rcvr) \<Rightarrow>
                                 mk_Transaction now sndr rcvr amount ts pk sig
                                   (case h of None \<Rightarrow> [] | Some t \<Rightarrow> t) abu
                             | (Inl e, _) \<Rightarrow> Inl e
                             | (_, Inl e) \<Rightarrow> Inl e))))))
      in case map_of d ''amount_base_units'' of
           Some v \<Rightarrow>
             (case v of
                PNum (PyInt n) \<Rightarrow>
                  (case (get_str ''sender'' d, get_str ''receiver'' d) of
                     (Inl e, _) \<Rightarrow> Inl e
                   | (_, Inl e) \<Rightarrow> Inl e
                   | _ \<Rightarrow> finish None (Some v))
              | _ \<Rightarrow> Inl ValueError)
         | None \<Rightarrow>
             (case (get_str ''sender'' d, get_str ''receiver'' d) of
                (Inl e, _) \<Rightarrow> Inl e
              | (_, Inl e) \<Rightarrow> Inl e
              | _ \<Rightarrow>
                  (case get_item ''amount'' d of
                     Inl e \<Rightarrow> Inl e
                   | Inr a \<Rightarrow> finish (amount_of_pyval a) None)))"

section \<open>What a signature and a hash cover\<close>

lemma signing_message_text:
  "signing_message tx =
     ''{'' @ json_string ''amount_base_units'' @ '':'' @ json_num (PyInt (amount_base_units tx)) @
     '','' @ json_string ''receiver'' @ '':'' @ json_string (receiver tx) @
     '','' @ json_string ''sender'' @ '':'' @ json_string (sender tx) @
     '','' @ json_string ''timestamp'' @ '':'' @ json_num (tx_timestamp tx) @ ''}''"
  by (simp add: signing_message_def signing_payload_def deterministic_json_def key_order)

lemma hash_text:
  "deterministic_json (PDict (hash_payload tx)) =
     ''{'' @ json_string ''amount_base_units'' @ '':'' @ json_num (PyInt (amount_base_units tx)) @
     '','' @ json_string ''receiver'' @ '':'' @ json_string (receiver tx) @
     '','' @ json_string ''sender'' @ '':'' @ json_string (sender tx) @
     '','' @ json_string ''sender_public_key'' @ '':'' @ dumps (opt_str (sender_public_key tx)) @
     '','' @ json_string ''signature'' @ '':'' @ dumps (opt_str (signature tx)) @
     '','' @ json_string ''timestamp'' @ '':'' @ json_num (tx_timestamp tx) @ ''}''"
  by (cases "sender_public_key tx"; cases "signature tx";
      simp add: hash_payload_def signing_payload_def deterministic_json_def key_order)

definition same_signed_content :: "transaction \<Rightarrow> transaction \<Rightarrow> bool" where
  "same_signed_content s t \<longleftrightarrow>
     sender s = sender t \<and> receiver s = receiver t \<and>
     amount_base_units s = amount_base_units t \<and> tx_timestamp s = tx_timestamp t"

lemma signing_message_inj: "signing_message s = signing_message t \<longleftrightarrow> same_signed_content s t"
  unfolding signing_message_text same_signed_content_def canonical_inj pynum.inject by blast

lemma hash_text_inj:
  "deterministic_json (PDict (hash_payload s)) = deterministic_json (PDict (hash_payload t)) \<longleftrightarrow>
     same_signed_content s t \<and> sender_public_key s = sender_public_key t \<and> signature s = signature t"
  unfolding hash_text same_signed_content_def canonical_inj pynum.inject by blast

lemma hash_payload_cong [simp]:
  "hash_payload (tx\<lparr>tx_hash := h\<rparr>) = hash_payload tx"
  by (simp add: hash_payload_def signing_payload_def)

lemma tx_compute_hash_cong [simp]: "tx_compute_hash (tx\<lparr>tx_hash := h\<rparr>) = tx_compute_hash tx"
  by (simp add: tx_compute_hash_def)

lemma length_tx_compute_hash [hash_facts, simp]: "length (tx_compute_hash tx) = 64"
  by (simp add: tx_compute_hash_def)

lemma tx_compute_hash_nonempty [simp]: "tx_compute_hash tx \<noteq> []"
  by (simp add: tx_compute_hash_def)

lemma tx_hash_binds:
  assumes "tx_compute_hash s = tx_compute_hash t"
  shows "(same_signed_content s t \<and> sender_public_key s = sender_public_key t \<and>
          signature s = signature t) \<or>
         sha_collision (deterministic_json (PDict (hash_payload s)))
           (deterministic_json (PDict (hash_payload t)))"
  using assms hash_text_inj [of s t] by (auto simp: tx_compute_hash_def sha_collision_def)

section \<open>Construction\<close>

lemma mk_Transaction_base_units:
  "mk_Transaction now s r None ts pk sig [] (Some (PInt n)) =
     (let tx = \<lparr>sender = s, receiver = r, amount_base_units = n,
                tx_timestamp = (case ts of None \<Rightarrow> PyInt now | Some t \<Rightarrow> t),
                sender_public_key = pk, signature = sig, tx_hash = []\<rparr>
      in Inr (tx\<lparr>tx_hash := tx_compute_hash tx\<rparr>))"
  by (simp add: mk_Transaction_def Let_def)

section \<open>Verification\<close>

lemma verify_facts [verdict_simps]:
  assumes "verify C tx"
  shows "0 < amount_base_units tx" "amount_base_units tx \<le> MAX_SUPPLY_BASE_UNITS"
    "tx_hash tx = tx_compute_hash tx" "is_valid_address (receiver tx)"
    "\<not> is_coinbase tx \<Longrightarrow> is_valid_address (sender tx)"
  using assms
  by (auto simp: verify_def validate_base_units_def split: if_splits)

lemma verify_signed:
  assumes "verify C tx" "\<not> is_coinbase tx"
  obtains pk sig where "sender_public_key tx = Some pk" "signature tx = Some sig"
    "derive_address pk = sender tx" "verify_signature C pk (signing_message tx) sig"
  using assms by (auto simp: verify_def split: if_splits option.splits)

lemma coinbase_sender_not_address [simp]: "\<not> is_valid_address COINBASE_SENDER"
  by (simp add: is_valid_address_def ADDRESS_PREFIX_def ADDRESS_HASH_LENGTH_def COINBASE_SENDER_def
      startswith_def)

lemma genesis_address_not_address [simp]: "\<not> is_valid_address GENESIS_ADDRESS"
  by (simp add: is_valid_address_def ADDRESS_PREFIX_def ADDRESS_HASH_LENGTH_def GENESIS_ADDRESS_def
      startswith_def)

text \<open>What \<open>sign\<close> produces, \<open>verify\<close> accepts.\<close>
lemma sign_verify:
  assumes C: "crypto_correct C" and w: "Wallet_from_private_key C key = Inr w"
    and "sender tx = address w" "0 < amount_base_units tx"
    "amount_base_units tx \<le> MAX_SUPPLY_BASE_UNITS" "is_valid_address (receiver tx)"
  shows "\<exists>tx'. sign_transaction C w tx = Inr tx' \<and> verify C tx' \<and> same_signed_content tx tx'"
proof -
  note addr = Wallet_from_private_key_facts(1) [OF w]
  have ncb: "sender tx \<noteq> COINBASE_SENDER"
    using derive_address_valid assms(3) addr
    coinbase_sender_not_address by metis
  have pk: "public_key_hex w \<noteq> []"
    using Wallet_from_private_key_facts(2) [OF w] by force
  obtain sig where sig: "Wallet_sign C w (signing_message tx) = Inr sig"
    "verify_signature C (public_key_hex w) (signing_message tx) sig" "sig \<noteq> []"
    using Wallet_sign_verifies [OF C w] by blast
  define tx' where "tx' = tx\<lparr>sender_public_key := Some (public_key_hex w), signature := Some sig\<rparr>"
  have msg: "signing_message tx' = signing_message tx"
    by (simp add: signing_message_inj same_signed_content_def tx'_def)
  have "sign_transaction C w tx = Inr (tx'\<lparr>tx_hash := tx_compute_hash tx'\<rparr>)"
    using ncb assms(3) sig(1) by (simp add: sign_transaction_def tx'_def Let_def)
  moreover have "verify C (tx'\<lparr>tx_hash := tx_compute_hash tx'\<rparr>)"
    using assms(3-6) ncb pk sig(2,3) msg addr
    by (simp add: verify_def validate_base_units_def is_coinbase_def tx'_def signing_message_def
        signing_payload_def)
  ultimately show ?thesis by (auto simp: same_signed_content_def tx'_def)
qed

text \<open>The checks of \<open>verify\<close> read the signature as bytes, the hash reads it as text: the same
  signature written in another case verifies too, and makes another transaction hash.\<close>

definition respell :: "(string \<Rightarrow> string) \<Rightarrow> transaction \<Rightarrow> transaction" where
  "respell f tx =
     (let tx' = tx\<lparr>signature := map_option f (signature tx)\<rparr> in tx'\<lparr>tx_hash := tx_compute_hash tx'\<rparr>)"

lemma respell_fields [simp]:
  "sender (respell f tx) = sender tx" "receiver (respell f tx) = receiver tx"
  "amount_base_units (respell f tx) = amount_base_units tx"
  "tx_timestamp (respell f tx) = tx_timestamp tx"
  "sender_public_key (respell f tx) = sender_public_key tx"
  "signature (respell f tx) = map_option f (signature tx)"
  "tx_hash (respell f tx) = tx_compute_hash (respell f tx)"
  by (simp_all add: respell_def Let_def)

lemma respell_verifies:
  assumes "verify C tx" "\<not> is_coinbase tx"
  shows "verify C (respell (map upper_char) tx)"
proof -
  obtain pk sig where f: "sender_public_key tx = Some pk" "signature tx = Some sig"
    "derive_address pk = sender tx" "verify_signature C pk (signing_message tx) sig"
    using verify_signed [OF assms] by blast
  have "signing_message (respell (map upper_char) tx) = signing_message tx"
    by (simp add: signing_message_inj same_signed_content_def)
  then show ?thesis
    using assms f verify_signature_upper
    by (auto simp: verify_def is_coinbase_def split: if_splits)
qed

section \<open>Movements\<close>

text \<open>What a transaction moves, and the total of a list of them, for one address.\<close>

definition tx_delta :: "string \<Rightarrow> transaction \<Rightarrow> int" where
  "tx_delta a tx =
     (if receiver tx = a then amount_base_units tx else 0) -
     (if \<not> is_coinbase tx \<and> sender tx = a then amount_base_units tx else 0)"

definition txs_delta :: "string \<Rightarrow> transaction list \<Rightarrow> int" where
  "txs_delta a txs = sum_list (map (tx_delta a) txs)"

lemma txs_delta_simps [simp]:
  "txs_delta a [] = 0" "txs_delta a (tx # txs) = tx_delta a tx + txs_delta a txs"
  "txs_delta a (xs @ ys) = txs_delta a xs + txs_delta a ys"
  by (simp_all add: txs_delta_def)

lemma txs_delta_partition:
  "txs_delta a txs = txs_delta a (filter is_coinbase txs) + txs_delta a (filter (\<lambda>tx. \<not> is_coinbase tx) txs)"
  by (induction txs) auto

section \<open>Dict round trip\<close>

lemma tx_to_dict_total:
  assumes "\<bar>amount_base_units tx\<bar> < 10 ^ 28"
  shows "\<exists>d. tx_to_dict tx = Inr d"
  using from_base_units_exact [OF assms] by (auto simp: tx_to_dict_def amount_syj_def)

lemma tx_from_to_dict:
  assumes "tx_to_dict tx = Inr d" "tx_hash tx \<noteq> []"
    and "sender tx = GENESIS_ADDRESS \<or> \<not> is_float (tx_timestamp tx)"
  shows "tx_from_dict now d = Inr tx"
proof -
  obtain a where d: "d =
    [(''sender'', PStr (sender tx)), (''receiver'', PStr (receiver tx)),
     (''amount'', PStr (dec_str a)), (''amount_base_units'', PInt (amount_base_units tx)),
     (''timestamp'', PNum (tx_timestamp tx)), (''sender_public_key'', opt_str (sender_public_key tx)),
     (''signature'', opt_str (signature tx)), (''tx_hash'', PStr (tx_hash tx))]"
    using assms(1) by (auto simp: tx_to_dict_def split: sum.splits)
  have ts: "tx_timestamp_of d = Inr (Some (tx_timestamp tx))"
    using assms(3) by (cases "tx_timestamp tx") (auto simp: tx_timestamp_of_def get_item_def d)
  have o1: "get_opt_str ''sender_public_key'' d = Inr (sender_public_key tx)"
    by (cases "sender_public_key tx") (simp_all add: get_opt_str_def d)
  have o2: "get_opt_str ''signature'' d = Inr (signature tx)"
    by (cases "signature tx") (simp_all add: get_opt_str_def d)
  have rest: "get_opt_str ''tx_hash'' d = Inr (Some (tx_hash tx))"
    "get_str ''sender'' d = Inr (sender tx)" "get_str ''receiver'' d = Inr (receiver tx)"
    "map_of d ''amount_base_units'' = Some (PInt (amount_base_units tx))"
    by (simp_all add: get_opt_str_def get_str_def get_item_def d)
  show ?thesis
    using assms(2) by (simp add: tx_from_dict_def Let_def ts o1 o2 rest mk_Transaction_def)
qed

section \<open>Properties\<close>

text \<open>the text that is signed determines the sender, the receiver, the amount and the
  timestamp, and nothing else of the transaction.\<close>
theorem signing_message_determines:
  "signing_message s = signing_message t \<longleftrightarrow>
     sender s = sender t \<and> receiver s = receiver t \<and>
     amount_base_units s = amount_base_units t \<and> tx_timestamp s = tx_timestamp t"
  using signing_message_inj by (simp add: same_signed_content_def)

text \<open>A transaction that \<open>verify\<close> accepts is bound to its hash: another accepted transaction
  with the same \<open>tx_hash\<close> agrees in every field, unless the two hashed texts collide.\<close>
theorem verified_hash_binds:
  assumes "verify C s" "verify C t" "tx_hash s = tx_hash t"
  shows "s = t \<or>
    sha_collision (deterministic_json (PDict (hash_payload s))) (deterministic_json (PDict (hash_payload t)))"
  using tx_hash_binds [of s t] verify_facts(3) [OF assms(1)] verify_facts(3) [OF assms(2)] assms(3)
  by (cases s; cases t) (auto simp: same_signed_content_def)

definition sample_coinbase :: transaction where
  "sample_coinbase =
     (let tx = \<lparr>sender = COINBASE_SENDER, receiver = derive_address ''aa'', amount_base_units = 5,
                tx_timestamp = PyInt 7, sender_public_key = None, signature = None, tx_hash = []\<rparr>
      in tx\<lparr>tx_hash := tx_compute_hash tx\<rparr>)"

lemma sample_coinbase_verifies: "verify C sample_coinbase"
proof -
  have "tx_hash sample_coinbase = tx_compute_hash sample_coinbase"
    by (simp add: sample_coinbase_def Let_def tx_compute_hash_def hash_payload_def signing_payload_def)
  then show ?thesis
    by (simp add: verify_def validate_base_units_def is_coinbase_def max_supply_value)
      (simp add: sample_coinbase_def Let_def)
qed

theorem verified_hash_binds_witness:
  "sample_coinbase = sample_coinbase \<or>
   sha_collision (deterministic_json (PDict (hash_payload sample_coinbase)))
     (deterministic_json (PDict (hash_payload sample_coinbase)))"
  using verified_hash_binds [OF sample_coinbase_verifies [of sample_crypto] sample_coinbase_verifies] by blast



text \<open>the hash covers the text of the signature, the check its bytes: the signature of an
  accepted transaction, spelled in upper case, gives a second accepted transaction with the
  same signed fields and another hash.\<close>
theorem respelled_signature_accepted:
  assumes "verify C tx" "\<not> is_coinbase tx" "signature tx = Some sig" "map upper_char sig \<noteq> sig"
  shows "verify C (respell (map upper_char) tx) \<and> same_signed_content tx (respell (map upper_char) tx) \<and>
    (tx_hash (respell (map upper_char) tx) \<noteq> tx_hash tx \<or>
     sha_collision (deterministic_json (PDict (hash_payload tx)))
       (deterministic_json (PDict (hash_payload (respell (map upper_char) tx)))))"
  using respell_verifies [OF assms(1,2)] tx_hash_binds [of tx "respell (map upper_char) tx"] assms(3,4)
    verify_facts(3) [OF assms(1)]
  by (auto simp: same_signed_content_def)

text \<open>A well-formed address other than the sender's.\<close>

definition sample_receiver :: string where
  "sample_receiver =
     (let a = ''SYJ'' @ replicate 40 (CHR ''0''); b = ''SYJ'' @ replicate 40 (CHR ''1'')
      in if derive_address (point_hex (1, 2)) = a then b else a)"

lemma sample_receiver_facts [simp]:
  "is_valid_address sample_receiver" "derive_address (point_hex (1, 2)) \<noteq> sample_receiver"
proof -
  have "is_valid_address (''SYJ'' @ replicate 40 c)" if "is_lower_hex c" for c
    by (rule is_valid_address_hex) (use that in auto)
  then show "is_valid_address sample_receiver"
    by (simp add: sample_receiver_def Let_def is_lower_hex_def)
  show "derive_address (point_hex (1, 2)) \<noteq> sample_receiver"
    by (simp add: sample_receiver_def Let_def)
qed

definition sample_signed :: transaction where
  "sample_signed =
     (let pub = point_hex (1, 2);
          tx = \<lparr>sender = derive_address pub, receiver = sample_receiver, amount_base_units = 5,
             tx_timestamp = PyInt 7, sender_public_key = Some pub,
             signature = Some (hex (to_bytes_big 32 10) @ hex (to_bytes_big 32 1)), tx_hash = []\<rparr>
      in tx\<lparr>tx_hash := tx_compute_hash tx\<rparr>)"

lemma sample_signed_fields [simp]:
  "sender sample_signed = derive_address (point_hex (1, 2))" "receiver sample_signed = sample_receiver"
  "amount_base_units sample_signed = 5" "tx_timestamp sample_signed = PyInt 7"
  "sender_public_key sample_signed = Some (point_hex (1, 2))"
  "signature sample_signed = Some (hex (to_bytes_big 32 10) @ hex (to_bytes_big 32 1))"
  by (simp_all add: sample_signed_def Let_def)

lemma sample_signed_not_coinbase: "\<not> is_coinbase sample_signed"
  using derive_address_valid coinbase_sender_not_address by (metis is_coinbase_def sample_signed_fields(1))

lemma sample_signed_verifies: "verify sample_crypto sample_signed"
proof -
  have "tx_hash sample_signed = tx_compute_hash sample_signed"
    by (simp add: sample_signed_def Let_def tx_compute_hash_def hash_payload_def signing_payload_def)
  moreover have "point_hex (1, 2) \<noteq> []" using length_point_hex [of "(1, 2)"] by force
  moreover have "hex (to_bytes_big 32 10) @ hex (to_bytes_big 32 1) \<noteq> []" by (simp flip: length_0_conv)
  moreover have "verify_signature sample_crypto (point_hex (1, 2)) (signing_message sample_signed)
      (hex (to_bytes_big 32 10) @ hex (to_bytes_big 32 1))"
    by (simp add: verify_signature_def point_hex_def SECP256K1_ORDER_def Let_def sample_crypto_def del: to_bytes_big.simps)
  ultimately show ?thesis using sample_signed_not_coinbase
    by (simp add: verify_def validate_base_units_def max_supply_value del: to_bytes_big.simps)
qed

theorem respelled_signature_accepted_witness:
  "verify sample_crypto (respell (map upper_char) sample_signed)"
proof -
  have "map upper_char (hex (to_bytes_big 32 10) @ hex (to_bytes_big 32 1)) \<noteq>
      hex (to_bytes_big 32 10) @ hex (to_bytes_big 32 1)"
    by code_simp
  from respelled_signature_accepted [OF sample_signed_verifies sample_signed_not_coinbase
      sample_signed_fields(6) this]
  show ?thesis by simp
qed

end
