(* ===== verification/Block.thy ===== *)
theory Block
  imports Transaction
begin

text \<open>
  \<open>blockchain/block.py\<close>: the block, its Merkle root, header text and hash, the constructor's
  defaults, \<open>recompute\<close>, the leading-zero test, the dict form, and the genesis block.  The
  fields \<open>timestamp\<close>, \<open>merkle_root\<close> and \<open>hash\<close> are \<open>blk_timestamp\<close>, \<open>blk_merkle_root\<close> and
  \<open>block_hash\<close> here.
\<close>

record block =
  index :: int
  previous_hash :: string
  transactions :: "transaction list"
  blk_timestamp :: pynum
  nonce :: int
  difficulty :: int
  blk_merkle_root :: string
  block_hash :: string

definition compute_merkle_root :: "block \<Rightarrow> string" where
  "compute_merkle_root b = merkle_root (map tx_hash (transactions b))"

definition header_payload :: "block \<Rightarrow> (string \<times> pyval) list" where
  "header_payload b =
     [(''index'', PInt (index b)),
      (''previous_hash'', PStr (previous_hash b)),
      (''timestamp'', PNum (blk_timestamp b)),
      (''nonce'', PInt (nonce b)),
      (''difficulty'', PInt (difficulty b)),
      (''merkle_root'', PStr (blk_merkle_root b))]"

definition compute_hash :: "block \<Rightarrow> string" where
  "compute_hash b = sha256 (deterministic_json (PDict (header_payload b)))"

definition post_init :: "block \<Rightarrow> block" where
  "post_init b =
     (let b1 = (if blk_merkle_root b = [] then b\<lparr>blk_merkle_root := compute_merkle_root b\<rparr> else b)
      in if block_hash b1 = [] then b1\<lparr>block_hash := compute_hash b1\<rparr> else b1)"

definition recompute :: "block \<Rightarrow> block" where
  "recompute b =
     (let b1 = b\<lparr>blk_merkle_root := compute_merkle_root b\<rparr> in b1\<lparr>block_hash := compute_hash b1\<rparr>)"

text \<open>\<open>"0" * d\<close> is empty for a negative \<open>d\<close>.\<close>

definition zeros :: "int \<Rightarrow> string" where
  "zeros d = replicate (nat d) (CHR ''0'')"

definition meets_difficulty :: "int \<Rightarrow> block \<Rightarrow> bool" where
  "meets_difficulty d b \<longleftrightarrow> startswith (zeros d) (block_hash b)"

section \<open>Dict form\<close>

definition blk_to_dict :: "block \<Rightarrow> (string \<times> pyval) list result" where
  "blk_to_dict b =
     (case map_result tx_to_dict (transactions b) of
        Inl e \<Rightarrow> Inl e
      | Inr ds \<Rightarrow>
          Inr [(''index'', PInt (index b)),
               (''previous_hash'', PStr (previous_hash b)),
               (''timestamp'', PNum (blk_timestamp b)),
               (''nonce'', PInt (nonce b)),
               (''difficulty'', PInt (difficulty b)),
               (''merkle_root'', PStr (blk_merkle_root b)),
               (''hash'', PStr (block_hash b)),
               (''transactions'', PList (map PDict ds))])"

text \<open>\<open>[Transaction.from_dict(tx) for tx in data.get("transactions", [])]\<close>.  An item that is
  not a dict fails inside \<open>from_dict\<close>: \<open>in\<close> raises on \<open>None\<close>, numbers and booleans, and the
  string key fails as an index on a list or a string.\<close>

fun tx_from_pyval :: "int \<Rightarrow> pyval \<Rightarrow> transaction result" where
  "tx_from_pyval now (PDict d) = tx_from_dict now d"
| "tx_from_pyval now _ = Inl TypeError"

definition transactions_of :: "int \<Rightarrow> (string \<times> pyval) list \<Rightarrow> transaction list result" where
  "transactions_of now d =
     (case map_of d ''transactions'' of
        None \<Rightarrow> Inr []
      | Some (PList vs) \<Rightarrow> map_result (tx_from_pyval now) vs
      | Some (PDict kvs) \<Rightarrow> (if kvs = [] then Inr [] else Inl TypeError)
      | Some (PStr s) \<Rightarrow> (if s = [] then Inr [] else Inl TypeError)
      | Some _ \<Rightarrow> Inl TypeError)"

text \<open>\<open>int(data.get(k, 0))\<close> and \<open>data.get(k, "")\<close>.\<close>

definition get_int0 :: "string \<Rightarrow> (string \<times> pyval) list \<Rightarrow> int result" where
  "get_int0 k d = (case map_of d k of None \<Rightarrow> Inr 0 | Some v \<Rightarrow> py_int v)"

definition get_str0 :: "string \<Rightarrow> (string \<times> pyval) list \<Rightarrow> string result" where
  "get_str0 k d = map_sum id (\<lambda>s. case s of None \<Rightarrow> [] | Some t \<Rightarrow> t) (get_opt_str k d)"

definition get_index :: "(string \<times> pyval) list \<Rightarrow> int result" where
  "get_index d =
     (case get_item ''index'' d of
        Inl e \<Rightarrow> Inl e
      | Inr (PNum (PyInt i)) \<Rightarrow> Inr i
      | Inr _ \<Rightarrow> Inl (UntypedField ''index''))"

definition blk_timestamp_of :: "(string \<times> pyval) list \<Rightarrow> pynum result" where
  "blk_timestamp_of d =
     (case get_int0 ''index'' d of
        Inl e \<Rightarrow> Inl e
      | Inr i \<Rightarrow>
          (case get_item ''timestamp'' d of
             Inl e \<Rightarrow> Inl e
           | Inr v \<Rightarrow>
               if i = 0
               then (case v of PNum n \<Rightarrow> Inr n | _ \<Rightarrow> Inl (UntypedField ''timestamp''))
               else map_sum id PyInt (py_int v)))"

definition blk_from_dict :: "int \<Rightarrow> (string \<times> pyval) list \<Rightarrow> block result" where
  "blk_from_dict now d =
     (case transactions_of now d of
        Inl e \<Rightarrow> Inl e
      | Inr txs \<Rightarrow>
     (case get_index d of
        Inl e \<Rightarrow> Inl e
      | Inr i \<Rightarrow>
     (case get_str ''previous_hash'' d of
        Inl e \<Rightarrow> Inl e
      | Inr prev \<Rightarrow>
     (case blk_timestamp_of d of
        Inl e \<Rightarrow> Inl e
      | Inr ts \<Rightarrow>
     (case get_int0 ''nonce'' d of
        Inl e \<Rightarrow> Inl e
      | Inr n \<Rightarrow>
     (case get_int0 ''difficulty'' d of
        Inl e \<Rightarrow> Inl e
      | Inr df \<Rightarrow>
     (case get_str0 ''merkle_root'' d of
        Inl e \<Rightarrow> Inl e
      | Inr m \<Rightarrow>
     (case get_str0 ''hash'' d of
        Inl e \<Rightarrow> Inl e
      | Inr h \<Rightarrow>
          Inr (post_init
            \<lparr>index = i, previous_hash = prev, transactions = txs, blk_timestamp = ts, nonce = n,
             difficulty = df, blk_merkle_root = m, block_hash = h\<rparr>)))))))))"

section \<open>Genesis\<close>

text \<open>The genesis transaction is built with the float amount \<open>0.0\<close> and then given the digest of
  the message as its hash.\<close>

definition genesis :: "int \<Rightarrow> string \<Rightarrow> pynum \<Rightarrow> int \<Rightarrow> string \<Rightarrow> block result" where
  "genesis now prev ts n message =
     (case mk_Transaction now GENESIS_ADDRESS GENESIS_ADDRESS (Some (AmtFloat ''0.0'')) (Some ts)
             None None [] None of
        Inl e \<Rightarrow> Inl e
      | Inr tx \<Rightarrow>
          Inr (post_init
            \<lparr>index = 0, previous_hash = prev, transactions = [tx\<lparr>tx_hash := sha256 message\<rparr>],
             blk_timestamp = ts, nonce = n, difficulty = 0, blk_merkle_root = [], block_hash = []\<rparr>))"

section \<open>What the block hash covers\<close>

lemma header_text:
  "deterministic_json (PDict (header_payload b)) =
     ''{'' @ json_string ''difficulty'' @ '':'' @ json_num (PyInt (difficulty b)) @
     '','' @ json_string ''index'' @ '':'' @ json_num (PyInt (index b)) @
     '','' @ json_string ''merkle_root'' @ '':'' @ json_string (blk_merkle_root b) @
     '','' @ json_string ''nonce'' @ '':'' @ json_num (PyInt (nonce b)) @
     '','' @ json_string ''previous_hash'' @ '':'' @ json_string (previous_hash b) @
     '','' @ json_string ''timestamp'' @ '':'' @ json_num (blk_timestamp b) @ ''}''"
  by (simp add: header_payload_def deterministic_json_def key_order)

definition same_header :: "block \<Rightarrow> block \<Rightarrow> bool" where
  "same_header a b \<longleftrightarrow>
     index a = index b \<and> previous_hash a = previous_hash b \<and> blk_timestamp a = blk_timestamp b \<and>
     nonce a = nonce b \<and> difficulty a = difficulty b \<and> blk_merkle_root a = blk_merkle_root b"

lemma header_text_inj:
  "deterministic_json (PDict (header_payload a)) = deterministic_json (PDict (header_payload b))
   \<longleftrightarrow> same_header a b"
  unfolding header_text same_header_def canonical_inj pynum.inject by blast

definition header_collision :: "block \<Rightarrow> block \<Rightarrow> bool" where
  "header_collision a b \<longleftrightarrow>
     sha_collision (deterministic_json (PDict (header_payload a)))
       (deterministic_json (PDict (header_payload b)))"

lemma compute_hash_binds:
  "compute_hash a = compute_hash b \<Longrightarrow> same_header a b \<or> header_collision a b"
  using header_text_inj [of a b]
  by (auto simp: compute_hash_def header_collision_def sha_collision_def)

lemma compute_hash_frame [simp, frame_simps]:
  "compute_hash (b\<lparr>block_hash := h\<rparr>) = compute_hash b"
  "compute_merkle_root (b\<lparr>block_hash := h\<rparr>) = compute_merkle_root b"
  "compute_merkle_root (b\<lparr>blk_merkle_root := m\<rparr>) = compute_merkle_root b"
  by (simp_all add: compute_hash_def header_payload_def compute_merkle_root_def)

lemma length_compute_hash [hash_facts, simp]: "length (compute_hash b) = 64"
  by (simp add: compute_hash_def)

lemma compute_hash_nonempty [simp]: "compute_hash b \<noteq> []"
  by (simp add: compute_hash_def)

text \<open>\<open>sealed b\<close>: the stored root and hash are those of the content.\<close>

definition sealed :: "block \<Rightarrow> bool" where
  "sealed b \<longleftrightarrow> compute_merkle_root b = blk_merkle_root b \<and> compute_hash b = block_hash b"

lemma recompute_fields [simp, frame_simps]:
  "index (recompute b) = index b" "previous_hash (recompute b) = previous_hash b"
  "transactions (recompute b) = transactions b" "blk_timestamp (recompute b) = blk_timestamp b"
  "nonce (recompute b) = nonce b" "difficulty (recompute b) = difficulty b"
  by (simp_all add: recompute_def Let_def)

lemma recompute_sealed [simp]: "sealed (recompute b)"
  by (simp add: sealed_def recompute_def Let_def)

lemma recompute_id: "sealed b \<Longrightarrow> recompute b = b"
  by (simp add: sealed_def recompute_def Let_def)

lemma post_init_sealed: "blk_merkle_root b = [] \<Longrightarrow> block_hash b = [] \<Longrightarrow> sealed (post_init b)"
  by (simp add: post_init_def sealed_def Let_def)

lemma post_init_id: "blk_merkle_root b \<noteq> [] \<Longrightarrow> block_hash b \<noteq> [] \<Longrightarrow> post_init b = b"
  by (simp add: post_init_def)

lemma post_init_fields [simp, frame_simps]:
  "index (post_init b) = index b" "previous_hash (post_init b) = previous_hash b"
  "transactions (post_init b) = transactions b" "blk_timestamp (post_init b) = blk_timestamp b"
  "nonce (post_init b) = nonce b" "difficulty (post_init b) = difficulty b"
  by (simp_all add: post_init_def Let_def)

text \<open>The hash of a sealed block binds its transactions, given their number.\<close>
lemma block_hash_binds_transactions:
  assumes "sealed a" "sealed b" "block_hash a = block_hash b"
    and "length (transactions a) = length (transactions b)"
    and "\<forall>tx \<in> set (transactions a). tx_hash tx = tx_compute_hash tx"
    and "\<forall>tx \<in> set (transactions b). tx_hash tx = tx_compute_hash tx"
  shows "map tx_hash (transactions a) = map tx_hash (transactions b) \<or> header_collision a b \<or>
    inputs_collide (merkle_inputs (map tx_hash (transactions a)))
      (merkle_inputs (map tx_hash (transactions b)))"
proof (cases "header_collision a b")
  case False
  then have "blk_merkle_root a = blk_merkle_root b"
    using compute_hash_binds [of a b] assms(1-3) by (auto simp: sealed_def same_header_def)
  then have "merkle_root (map tx_hash (transactions a)) = merkle_root (map tx_hash (transactions b))"
    using assms(1,2) by (simp add: sealed_def compute_merkle_root_def)
  moreover have "\<forall>h \<in> set (map tx_hash (transactions c)). length h = 64" if "c = a \<or> c = b" for c
    using that assms(5,6) by auto
  ultimately show ?thesis
    using merkle_root_bind [of "map tx_hash (transactions a)" "map tx_hash (transactions b)"] assms(4)
    by auto
qed simp

section \<open>Dict round trip\<close>

definition storable_tx :: "transaction \<Rightarrow> bool" where
  "storable_tx tx \<longleftrightarrow>
     \<bar>amount_base_units tx\<bar> < 10 ^ 28 \<and> tx_hash tx \<noteq> [] \<and>
     (sender tx = GENESIS_ADDRESS \<or> \<not> is_float (tx_timestamp tx))"

definition storable_block :: "block \<Rightarrow> bool" where
  "storable_block b \<longleftrightarrow>
     list_all storable_tx (transactions b) \<and> (index b = 0 \<or> \<not> is_float (blk_timestamp b)) \<and>
     blk_merkle_root b \<noteq> [] \<and> block_hash b \<noteq> []"

definition tx_dict :: "transaction \<Rightarrow> (string \<times> pyval) list" where
  "tx_dict tx = (case tx_to_dict tx of Inr d \<Rightarrow> d | Inl _ \<Rightarrow> [])"

lemma storable_tx_to_dict: "storable_tx tx \<Longrightarrow> tx_to_dict tx = Inr (tx_dict tx)"
  using tx_to_dict_total [of tx] by (auto simp: tx_dict_def storable_tx_def)

lemma storable_tx_from_dict: "storable_tx tx \<Longrightarrow> tx_from_dict now (tx_dict tx) = Inr tx"
  using tx_from_to_dict [OF storable_tx_to_dict] by (auto simp: storable_tx_def)

lemma transactions_roundtrip:
  assumes "list_all storable_tx txs"
  shows "map_result tx_to_dict txs = Inr (map tx_dict txs)"
    "map_result (tx_from_pyval now) (map PDict (map tx_dict txs)) = Inr txs"
proof -
  show "map_result tx_to_dict txs = Inr (map tx_dict txs)"
    using assms storable_tx_to_dict by (intro map_result_Inr_all) (auto simp: list_all_iff)
  have "map_result (tx_from_pyval now \<circ> (PDict \<circ> tx_dict)) txs = Inr (map id txs)"
    using assms storable_tx_from_dict by (intro map_result_Inr_all) (auto simp: list_all_iff)
  then show "map_result (tx_from_pyval now) (map PDict (map tx_dict txs)) = Inr txs"
    by (simp add: map_result_map comp_assoc)
qed

lemma blk_from_to_dict:
  assumes "storable_block b"
  shows "\<exists>d. blk_to_dict b = Inr d \<and> blk_from_dict now d = Inr b"
proof -
  let ?d = "[(''index'', PInt (index b)), (''previous_hash'', PStr (previous_hash b)),
     (''timestamp'', PNum (blk_timestamp b)), (''nonce'', PInt (nonce b)),
     (''difficulty'', PInt (difficulty b)), (''merkle_root'', PStr (blk_merkle_root b)),
     (''hash'', PStr (block_hash b)),
     (''transactions'', PList (map PDict (map tx_dict (transactions b))))]"
  have st: "list_all storable_tx (transactions b)" "index b = 0 \<or> \<not> is_float (blk_timestamp b)"
    using assms by (auto simp: storable_block_def)
  note rt = transactions_roundtrip [OF st(1)]
  have "blk_to_dict b = Inr ?d" by (simp add: blk_to_dict_def rt(1))
  moreover have txs: "transactions_of now ?d = Inr (transactions b)"
    using rt(2) by (simp add: transactions_of_def del: map_map)
  moreover have ts: "blk_timestamp_of ?d = Inr (blk_timestamp b)"
    using st(2) by (cases "blk_timestamp b") (auto simp: blk_timestamp_of_def get_int0_def get_item_def)
  moreover have "blk_from_dict now ?d = Inr b"
    using assms
    by (simp add: blk_from_dict_def txs ts get_index_def get_item_def get_str_def get_int0_def
        get_str0_def get_opt_str_def post_init_id storable_block_def del: map_map)
  ultimately show ?thesis by blast
qed

section \<open>The genesis block\<close>

lemma to_base_units_zero_float: "to_base_units (AmtFloat ''0.0'') = Inr 0"
  by code_simp

lemma genesis_value:
  "\<exists>g. genesis now prev ts n message = Inr g \<and> sealed g \<and> index g = 0 \<and> difficulty g = 0 \<and>
     previous_hash g = prev \<and> blk_timestamp g = ts \<and> nonce g = n \<and>
     transactions g = [\<lparr>sender = GENESIS_ADDRESS, receiver = GENESIS_ADDRESS, amount_base_units = 0,
       tx_timestamp = ts, sender_public_key = None, signature = None, tx_hash = sha256 message\<rparr>]"
  by (simp add: genesis_def mk_Transaction_def Let_def to_base_units_zero_float post_init_sealed)

section \<open>Properties\<close>

text \<open>The hash of a block that carries its own root and hash binds the header and, for a given
  number of transactions that carry their own hash, the list of transaction hashes, unless
  two of the hashed texts collide.\<close>
theorem block_hash_binds:
  assumes "sealed a" "sealed b" "block_hash a = block_hash b"
    and "length (transactions a) = length (transactions b)"
    and "\<forall>tx \<in> set (transactions a) \<union> set (transactions b). tx_hash tx = tx_compute_hash tx"
  shows "same_header a b \<and> map tx_hash (transactions a) = map tx_hash (transactions b) \<or>
    header_collision a b \<or>
    inputs_collide (merkle_inputs (map tx_hash (transactions a)))
      (merkle_inputs (map tx_hash (transactions b)))"
  using block_hash_binds_transactions [OF assms(1-4)] compute_hash_binds [of a b] assms
  by (auto simp: sealed_def)

definition sample_block :: block where
  "sample_block =
     recompute \<lparr>index = 1, previous_hash = ''p'', transactions = [sample_coinbase], blk_timestamp = PyInt 9,
       nonce = 0, difficulty = 0, blk_merkle_root = [], block_hash = []\<rparr>"

lemma sample_block_fields [simp]:
  "transactions sample_block = [sample_coinbase]" "sealed sample_block" "index sample_block = 1"
  "blk_timestamp sample_block = PyInt 9" "difficulty sample_block = 0"
  by (simp_all add: sample_block_def)

theorem block_hash_binds_witness:
  "same_header sample_block sample_block \<and>
     map tx_hash (transactions sample_block) = map tx_hash (transactions sample_block) \<or>
   header_collision sample_block sample_block \<or>
   inputs_collide (merkle_inputs (map tx_hash (transactions sample_block)))
      (merkle_inputs (map tx_hash (transactions sample_block)))"
  by (rule block_hash_binds) (use verify_facts(3) [OF sample_coinbase_verifies] in simp_all)



end
