(* ===== verification/Settings.thy ===== *)
theory Settings
  imports Complex_Main Block
begin

text \<open>
  \<open>config/settings.py\<close>: the configuration groups the node reads, each field with its environment
  variable and its default.  The environment is a map from variable names to values.  A Python
  \<open>float\<close> option is the rational number its decimal text denotes.  The groups that name
  files or are reserved for other algorithms are in \<open>Runtime_Settings\<close>.
\<close>

type_synonym environ = "string \<rightharpoonup> string"

section \<open>Reading the environment\<close>

definition getenv_set :: "environ \<Rightarrow> string \<Rightarrow> string option" where
  "getenv_set env key =
     (case env key of None \<Rightarrow> None | Some raw \<Rightarrow> if strip raw = [] then None else Some raw)"

definition env_int :: "environ \<Rightarrow> string \<Rightarrow> int \<Rightarrow> int" where
  "env_int env key dflt =
     (case getenv_set env key of
        None \<Rightarrow> dflt
      | Some raw \<Rightarrow> (case int_base10 raw of None \<Rightarrow> dflt | Some i \<Rightarrow> i))"

definition env_str :: "environ \<Rightarrow> string \<Rightarrow> string \<Rightarrow> string" where
  "env_str env key dflt = (case getenv_set env key of None \<Rightarrow> dflt | Some raw \<Rightarrow> raw)"

text \<open>\<open>s.split(",")\<close>.\<close>

fun split_on :: "char \<Rightarrow> string \<Rightarrow> string list" where
  "split_on c [] = [[]]"
| "split_on c (x # xs) =
     (if x = c then [] # split_on c xs
      else (case split_on c xs of [] \<Rightarrow> [[x]] | w # ws \<Rightarrow> (x # w) # ws))"

definition env_list :: "environ \<Rightarrow> string \<Rightarrow> string list \<Rightarrow> string list" where
  "env_list env key dflt =
     (case getenv_set env key of
        None \<Rightarrow> dflt
      | Some raw \<Rightarrow> filter (\<lambda>s. s \<noteq> []) (map strip (split_on (CHR '','') raw)))"

text \<open>\<open>float(s)\<close> for a finite decimal numeral.\<close>

definition rat_of_dec :: "int \<Rightarrow> int \<Rightarrow> rat" where
  "rat_of_dec c e = (if 0 \<le> e then of_int (c * 10 ^ nat e) else of_int c / 10 ^ nat (- e))"

definition env_float :: "environ \<Rightarrow> string \<Rightarrow> string \<Rightarrow> rat result" where
  "env_float env key dflt =
     (case decimal_of_string (env_str env key dflt) of
        Some (Dec c e) \<Rightarrow> Inr (rat_of_dec c e)
      | Some DecSpecial \<Rightarrow> Inl (UntypedField key)
      | None \<Rightarrow> Inl ValueError)"

section \<open>Configuration groups\<close>

record genesis_config =
  gen_previous_hash :: string
  gen_timestamp :: pynum
  gen_nonce :: int
  gen_message :: string

definition GenesisConfig :: genesis_config where
  "GenesisConfig =
     \<lparr>gen_previous_hash = replicate 64 (CHR ''0''),
      gen_timestamp = PyFloat 1735689600,
      gen_nonce = 0,
      gen_message = ''SAYANJALI BLOCKCHAIN GENESIS BLOCK - SYJ TOKEN NETWORK''\<rparr>"

record consensus_config =
  algorithm :: string
  config_difficulty :: int
  target_block_time_seconds :: int
  difficulty_adjustment_interval :: int
  min_difficulty :: int
  max_difficulty :: int
  max_difficulty_adjustment_factor :: int

definition ConsensusConfig :: "environ \<Rightarrow> consensus_config" where
  "ConsensusConfig env =
     \<lparr>algorithm = ''pow'',
      config_difficulty = env_int env ''SYJ_DIFFICULTY'' 4,
      target_block_time_seconds = env_int env ''SYJ_TARGET_BLOCK_TIME'' 30,
      difficulty_adjustment_interval = env_int env ''SYJ_DIFFICULTY_ADJUSTMENT_INTERVAL'' 10,
      min_difficulty = env_int env ''SYJ_MIN_DIFFICULTY'' 1,
      max_difficulty = env_int env ''SYJ_MAX_DIFFICULTY'' 32,
      max_difficulty_adjustment_factor = env_int env ''SYJ_MAX_DIFFICULTY_ADJUSTMENT_FACTOR'' 4\<rparr>"

record mining_config =
  block_reward :: int
  coinbase_address :: string
  halving_interval :: int

definition MiningConfig :: "environ \<Rightarrow> mining_config result" where
  "MiningConfig env =
     (case to_base_units (AmtStr (env_str env ''SYJ_BLOCK_REWARD'' ''50.0'')) of
        Inl e \<Rightarrow> Inl e
      | Inr r \<Rightarrow> Inr \<lparr>block_reward = r, coinbase_address = COINBASE_SENDER, halving_interval = 210000\<rparr>)"

record network_config =
  net_name :: string
  net_host :: string
  net_port :: int
  chain_id :: int

definition NetworkConfig :: "environ \<Rightarrow> network_config" where
  "NetworkConfig env =
     \<lparr>net_name = env_str env ''SYJ_NETWORK_NAME'' ''sayanjali-mainnet-mvp'',
      net_host = env_str env ''SYJ_HOST'' ''0.0.0.0'',
      net_port = env_int env ''SYJ_PORT'' 8000,
      chain_id = env_int env ''SYJ_CHAIN_ID'' 1\<rparr>"

record native_asset_config =
  symbol :: string
  base_units_per_syj :: int
  max_supply_base_units :: int

definition NativeAssetConfig :: native_asset_config where
  "NativeAssetConfig =
     \<lparr>symbol = ''SYJ'', base_units_per_syj = BASE_UNITS_PER_SYJ,
      max_supply_base_units = MAX_SUPPLY_BASE_UNITS\<rparr>"

record p2p_config =
  node_id_override :: string
  advertised_address :: string
  bootstrap_peers :: "string list"
  max_peers :: int
  sync_timeout_seconds :: rat
  propagation_timeout_seconds :: rat
  max_chain_sync_bytes :: int
  max_block_payload_bytes :: int
  max_transaction_payload_bytes :: int
  rate_limit_requests :: int
  rate_limit_window_seconds :: rat
  allow_private_peer_addresses :: bool
  auth_freshness_window_seconds :: rat
  replay_cache_size :: int
  max_sync_blocks :: int
  max_handshake_payload_bytes :: int
  max_request_body_bytes :: int
  maintenance_interval_seconds :: rat
  max_peer_failures :: int
  rate_limit_max_keys :: int

text \<open>Five options are floats; a text that is not a number raises while the settings are built.\<close>

definition P2PConfig :: "environ \<Rightarrow> p2p_config result" where
  "P2PConfig env =
     (case env_float env ''SYJ_SYNC_TIMEOUT'' ''10.0'' of Inl e \<Rightarrow> Inl e | Inr sync_t \<Rightarrow>
      case env_float env ''SYJ_PROPAGATION_TIMEOUT'' ''5.0'' of Inl e \<Rightarrow> Inl e | Inr prop_t \<Rightarrow>
      case env_float env ''SYJ_PEER_RATE_LIMIT_WINDOW'' ''60.0'' of Inl e \<Rightarrow> Inl e | Inr window \<Rightarrow>
      case env_float env ''SYJ_AUTH_FRESHNESS_WINDOW'' ''300.0'' of Inl e \<Rightarrow> Inl e | Inr fresh \<Rightarrow>
      case env_float env ''SYJ_NETWORK_MAINTENANCE_INTERVAL'' ''15.0'' of Inl e \<Rightarrow> Inl e | Inr maint \<Rightarrow>
      Inr
        \<lparr>node_id_override = env_str env ''SYJ_NODE_ID'' [],
         advertised_address = env_str env ''SYJ_ADVERTISED_ADDRESS'' [],
         bootstrap_peers = env_list env ''SYJ_BOOTSTRAP_PEERS'' [],
         max_peers = env_int env ''SYJ_MAX_PEERS'' 25,
         sync_timeout_seconds = sync_t,
         propagation_timeout_seconds = prop_t,
         max_chain_sync_bytes = env_int env ''SYJ_MAX_SYNC_BYTES'' (8 * 1024 * 1024),
         max_block_payload_bytes = env_int env ''SYJ_MAX_BLOCK_PAYLOAD_BYTES'' (512 * 1024),
         max_transaction_payload_bytes = env_int env ''SYJ_MAX_TX_PAYLOAD_BYTES'' (16 * 1024),
         rate_limit_requests = env_int env ''SYJ_PEER_RATE_LIMIT_REQUESTS'' 60,
         rate_limit_window_seconds = window,
         allow_private_peer_addresses =
           (lower (env_str env ''SYJ_ALLOW_PRIVATE_PEER_ADDRESSES'' ''true'')
              \<in> {''1'', ''true'', ''yes''}),
         auth_freshness_window_seconds = fresh,
         replay_cache_size = env_int env ''SYJ_REPLAY_CACHE_SIZE'' 10000,
         max_sync_blocks = env_int env ''SYJ_MAX_SYNC_BLOCKS'' 50000,
         max_handshake_payload_bytes = env_int env ''SYJ_MAX_HANDSHAKE_PAYLOAD_BYTES'' 8192,
         max_request_body_bytes = env_int env ''SYJ_MAX_REQUEST_BODY_BYTES'' 1048576,
         maintenance_interval_seconds = maint,
         max_peer_failures = env_int env ''SYJ_MAX_PEER_FAILURES'' 8,
         rate_limit_max_keys = env_int env ''SYJ_RATE_LIMIT_MAX_KEYS'' 10000\<rparr>)"

record settings =
  genesis_cfg :: genesis_config
  consensus_cfg :: consensus_config
  mining_cfg :: mining_config
  network_cfg :: network_config
  native_asset_cfg :: native_asset_config
  p2p_cfg :: p2p_config

definition Settings_of :: "environ \<Rightarrow> settings result" where
  "Settings_of env =
     (case MiningConfig env of
        Inl e \<Rightarrow> Inl e
      | Inr m \<Rightarrow>
          (case P2PConfig env of
             Inl e \<Rightarrow> Inl e
           | Inr p \<Rightarrow>
               Inr \<lparr>genesis_cfg = GenesisConfig, consensus_cfg = ConsensusConfig env, mining_cfg = m,
                    network_cfg = NetworkConfig env, native_asset_cfg = NativeAssetConfig,
                    p2p_cfg = p\<rparr>))"

definition resolved_advertised_address :: "settings \<Rightarrow> string" where
  "resolved_advertised_address s =
     (if advertised_address (p2p_cfg s) \<noteq> []
      then rstrip_char (CHR ''/'') (advertised_address (p2p_cfg s))
      else
        let host = (if net_host (network_cfg s) \<noteq> ''0.0.0.0'' then net_host (network_cfg s)
                    else ''127.0.0.1'')
        in ''http://'' @ host @ '':'' @ show_int (net_port (network_cfg s)))"

section \<open>The default configuration\<close>

lemma to_base_units_default_reward: "to_base_units (AmtStr ''50.0'') = Inr 5000000000"
  by code_simp

lemma default_mining: "MiningConfig Map.empty =
    Inr \<lparr>block_reward = 5000000000, coinbase_address = COINBASE_SENDER, halving_interval = 210000\<rparr>"
  by (simp add: MiningConfig_def env_str_def getenv_set_def to_base_units_default_reward)

lemma default_consensus: "ConsensusConfig Map.empty =
    \<lparr>algorithm = ''pow'', config_difficulty = 4, target_block_time_seconds = 30,
     difficulty_adjustment_interval = 10, min_difficulty = 1, max_difficulty = 32,
     max_difficulty_adjustment_factor = 4\<rparr>"
  by (simp add: ConsensusConfig_def env_int_def getenv_set_def)

text \<open>A variable that is unset, blank or not an integer leaves the default in place.\<close>
lemma env_int_fallback:
  "env key = None \<or> (\<exists>raw. env key = Some raw \<and> (strip raw = [] \<or> int_base10 raw = None)) \<Longrightarrow>
   env_int env key d = d"
  by (auto simp: env_int_def getenv_set_def)

end
