(* ===== verification/Consensus.thy ===== *)
theory Consensus
  imports Settings
begin

text \<open>
  \<open>blockchain/consensus.py\<close>: the \<open>ConsensusEngine\<close> interface as a record of its three methods,
  the proof-of-work engine (nonce search, validation, retargeting), and the factory.  The
  contract of an engine is the locale \<open>consensus_engine\<close>, interpreted on proof of work.
\<close>

record engine =
  e_mine :: "block \<Rightarrow> int \<Rightarrow> block result"
  e_validate :: "block \<Rightarrow> int \<Rightarrow> bool"
  e_next_difficulty :: "block list \<Rightarrow> int \<Rightarrow> int \<Rightarrow> int \<Rightarrow> int \<Rightarrow> int \<Rightarrow> int result"

section \<open>Mining\<close>

definition MAX_NONCE :: int where
  "MAX_NONCE = 2 ^ 32"

definition with_nonce :: "int \<Rightarrow> block \<Rightarrow> block" where
  "with_nonce n b = recompute (b\<lparr>nonce := n\<rparr>)"

text \<open>The \<open>while\<close> loop of \<open>mine\<close>: the nonce guard bounds it.\<close>

function mine_loop :: "string \<Rightarrow> block \<Rightarrow> block result" where
  "mine_loop target_prefix b =
     (if startswith target_prefix (block_hash b) then Inr b
      else
        let b' = with_nonce (nonce b + 1) b in
        if nonce b' > MAX_NONCE then Inl (ValidationError NonceSpaceExhausted)
        else mine_loop target_prefix b')"
  by pat_completeness auto
termination
  by (relation "measure (\<lambda>(p, b). nat (MAX_NONCE + 1 - nonce b))") (auto simp: with_nonce_def)

declare mine_loop.simps [simp del]

definition pow_mine :: "block \<Rightarrow> int \<Rightarrow> block result" where
  "pow_mine b d =
     (if d < 0 then Inl (ValidationError NegativeDifficulty)
      else mine_loop (zeros d) (recompute (b\<lparr>nonce := 0, difficulty := d\<rparr>)))"

section \<open>Validation\<close>

definition pow_validate :: "block \<Rightarrow> int \<Rightarrow> bool" where
  "pow_validate b d =
     (if block_hash b \<noteq> compute_hash b then False
      else if difficulty b < d then False
      else meets_difficulty (difficulty b) b)"

section \<open>Retargeting\<close>

text \<open>The two \<open>while\<close> loops.  In the second, \<open>16 ** n\<close> for a negative \<open>n\<close> is a float, which
  \<open>Fraction(_, 4)\<close> refuses.\<close>

function raise_loop :: "rat \<Rightarrow> int \<Rightarrow> int \<Rightarrow> int" where
  "raise_loop target_work max_d n =
     (if n < max_d \<and> target_work \<ge> of_int (16 ^ nat n) * 4 then raise_loop target_work max_d (n + 1)
      else n)"
  by pat_completeness auto
termination
  by (relation "measure (\<lambda>(_, m, n). nat (m - n))") auto

function lower_loop :: "rat \<Rightarrow> int \<Rightarrow> int \<Rightarrow> int result" where
  "lower_loop target_work min_d n =
     (if n > min_d then
        if n < 0 then Inl TypeError
        else if target_work \<le> of_int (16 ^ nat n) / 4 then lower_loop target_work min_d (n - 1)
        else Inr n
      else Inr n)"
  by pat_completeness auto
termination
  by (relation "measure (\<lambda>(_, m, n). nat (n - m))") auto

declare raise_loop.simps [simp del] lower_loop.simps [simp del]

text \<open>The window's measured duration, and the duration after the clamp.\<close>

definition actual_timespan :: "block list \<Rightarrow> pynum" where
  "actual_timespan bs =
     (let t = num_minus (blk_timestamp (last bs)) (blk_timestamp (hd bs))
      in if num_val t \<le> 0 then PyInt 1 else t)"

definition clamped_timespan :: "int \<Rightarrow> int \<Rightarrow> pynum \<Rightarrow> pynum" where
  "clamped_timespan expected factor actual =
     (let f = (if factor < 1 then 1 else factor)
      in num_max (PyInt (max 1 (expected div f))) (num_min actual (PyInt (expected * f))))"

definition pow_next_difficulty ::
  "block list \<Rightarrow> int \<Rightarrow> int \<Rightarrow> int \<Rightarrow> int \<Rightarrow> int \<Rightarrow> int result" where
  "pow_next_difficulty previous_blocks config_d target_time min_d max_d factor =
     (if length previous_blocks < 2 then Inr config_d
      else
        let expected = (int (length previous_blocks) - 1) * target_time in
        if expected \<le> 0 \<or> target_time \<le> 0 then Inr config_d
        else
          let clamped = clamped_timespan expected factor (actual_timespan previous_blocks);
              base = max (difficulty (last previous_blocks)) 0;
              current_work = 16 ^ nat base
          in if is_float clamped then Inl TypeError
             else
               let target_work = of_int (current_work * expected) / of_int (num_val clamped) in
               (case (if target_work > of_int current_work then Inr (raise_loop target_work max_d base)
                      else if target_work < of_int current_work then lower_loop target_work min_d base
                      else Inr base) of
                  Inl e \<Rightarrow> Inl e
                | Inr n \<Rightarrow> Inr (max min_d (min n max_d))))"

definition ProofOfWorkConsensus :: engine where
  "ProofOfWorkConsensus =
     \<lparr>e_mine = pow_mine, e_validate = pow_validate, e_next_difficulty = pow_next_difficulty\<rparr>"

definition get_consensus_engine :: "string \<Rightarrow> engine result" where
  "get_consensus_engine algo =
     (if algo = ''pow'' then Inr ProofOfWorkConsensus
      else Inl (ValidationError (UnknownAlgorithm algo)))"

section \<open>The nonce search\<close>

lemma with_nonce_fields [simp, frame_simps]:
  "index (with_nonce n b) = index b" "previous_hash (with_nonce n b) = previous_hash b"
  "transactions (with_nonce n b) = transactions b" "blk_timestamp (with_nonce n b) = blk_timestamp b"
  "nonce (with_nonce n b) = n" "difficulty (with_nonce n b) = difficulty b"
  "sealed (with_nonce n b)"
  by (simp_all add: with_nonce_def)

lemma with_nonce_twice [simp]: "with_nonce m (with_nonce n b) = with_nonce m b"
  by (simp add: with_nonce_def recompute_def Let_def compute_merkle_root_def compute_hash_def
      header_payload_def)

text \<open>\<open>hits p b n\<close>: nonce \<open>n\<close> gives \<open>b\<close> a hash with prefix \<open>p\<close>.\<close>

definition hits :: "string \<Rightarrow> block \<Rightarrow> int \<Rightarrow> bool" where
  "hits p b n \<longleftrightarrow> startswith p (block_hash (with_nonce n b))"

text \<open>The loop returns the first nonce that hits, and fails when none of the range does.\<close>
lemma mine_loop_spec:
  assumes "0 \<le> k" "k \<le> MAX_NONCE"
  shows "(\<exists>n. k \<le> n \<and> n \<le> MAX_NONCE \<and> hits p b n \<and> (\<forall>m. k \<le> m \<and> m < n \<longrightarrow> \<not> hits p b m) \<and>
            mine_loop p (with_nonce k b) = Inr (with_nonce n b)) \<or>
         ((\<forall>m. k \<le> m \<and> m \<le> MAX_NONCE \<longrightarrow> \<not> hits p b m) \<and>
            mine_loop p (with_nonce k b) = Inl (ValidationError NonceSpaceExhausted))"
  using assms
proof (induction "nat (MAX_NONCE - k)" arbitrary: k rule: less_induct)
  case less
  consider (hit) "hits p b k" | (last) "\<not> hits p b k" "k = MAX_NONCE"
    | (step) "\<not> hits p b k" "k < MAX_NONCE"
    using less.prems by linarith
  then show ?case
  proof cases
    case hit
    then show ?thesis
      using less.prems by (subst (1 2) mine_loop.simps) (auto simp: hits_def)
  next
    case last
    then have "mine_loop p (with_nonce k b) = Inl (ValidationError NonceSpaceExhausted)"
      by (subst mine_loop.simps) (simp add: hits_def)
    moreover have "\<forall>m. k \<le> m \<and> m \<le> MAX_NONCE \<longrightarrow> \<not> hits p b m"
      using last by (metis order_antisym)
    ultimately show ?thesis by blast
  next
    case step
    then have eq: "mine_loop p (with_nonce k b) = mine_loop p (with_nonce (k + 1) b)"
      by (subst mine_loop.simps) (simp add: hits_def)
    have below: "\<not> hits p b m" if "k \<le> m" "k + 1 \<le> m \<Longrightarrow> \<not> hits p b m" for m
      using that step(1) by (cases "m = k") auto
    have "nat (MAX_NONCE - (k + 1)) < nat (MAX_NONCE - k)" using step(2) by simp
    from less.hyps [OF this] step(2) less.prems(1)
    consider (found) n where "k + 1 \<le> n" "n \<le> MAX_NONCE" "hits p b n"
        "\<forall>m. k + 1 \<le> m \<and> m < n \<longrightarrow> \<not> hits p b m"
        "mine_loop p (with_nonce (k + 1) b) = Inr (with_nonce n b)"
      | (none) "\<forall>m. k + 1 \<le> m \<and> m \<le> MAX_NONCE \<longrightarrow> \<not> hits p b m"
        "mine_loop p (with_nonce (k + 1) b) = Inl (ValidationError NonceSpaceExhausted)"
      by auto
    then show ?thesis
    proof cases
      case found
      then have "k \<le> n" "\<forall>m. k \<le> m \<and> m < n \<longrightarrow> \<not> hits p b m" using below by auto
      with found eq show ?thesis by metis
    next
      case none
      then have "\<forall>m. k \<le> m \<and> m \<le> MAX_NONCE \<longrightarrow> \<not> hits p b m" using below by auto
      with none eq show ?thesis by metis
    qed
  qed
qed

lemma pow_mine_start:
  "0 \<le> d \<Longrightarrow> pow_mine b d = mine_loop (zeros d) (with_nonce 0 (b\<lparr>difficulty := d\<rparr>))"
  by (cases b) (simp add: pow_mine_def with_nonce_def)

lemma pow_mine_cases:
  assumes "0 \<le> d"
  obtains (found) n where "0 \<le> n" "n \<le> MAX_NONCE" "hits (zeros d) (b\<lparr>difficulty := d\<rparr>) n"
      "\<forall>m. 0 \<le> m \<and> m < n \<longrightarrow> \<not> hits (zeros d) (b\<lparr>difficulty := d\<rparr>) m"
      "pow_mine b d = Inr (with_nonce n (b\<lparr>difficulty := d\<rparr>))"
    | (exhausted) "\<forall>m. 0 \<le> m \<and> m \<le> MAX_NONCE \<longrightarrow> \<not> hits (zeros d) (b\<lparr>difficulty := d\<rparr>) m"
      "pow_mine b d = Inl (ValidationError NonceSpaceExhausted)"
  using mine_loop_spec [of 0 "zeros d" "b\<lparr>difficulty := d\<rparr>"] pow_mine_start [OF assms]
  by (auto simp: MAX_NONCE_def)

lemma pow_mine_Inr:
  assumes "pow_mine b d = Inr b'"
  shows "0 \<le> d" "\<exists>n. 0 \<le> n \<and> n \<le> MAX_NONCE \<and> b' = with_nonce n (b\<lparr>difficulty := d\<rparr>) \<and>
    hits (zeros d) (b\<lparr>difficulty := d\<rparr>) n"
proof -
  show d: "0 \<le> d" using assms by (auto simp: pow_mine_def split: if_splits)
  show "\<exists>n. 0 \<le> n \<and> n \<le> MAX_NONCE \<and> b' = with_nonce n (b\<lparr>difficulty := d\<rparr>) \<and>
    hits (zeros d) (b\<lparr>difficulty := d\<rparr>) n"
    using d by (cases rule: pow_mine_cases [of d b]) (use assms in auto)
qed

lemma zeros_le: "a \<le> b \<Longrightarrow> startswith (zeros b) s \<Longrightarrow> startswith (zeros a) s"
  unfolding zeros_def by (rule startswith_replicate_mono) auto

lemma pow_mine_valid:
  assumes "pow_mine b d = Inr b'"
  shows "pow_validate b' d" "difficulty b' = d" "sealed b'" "index b' = index b"
    "previous_hash b' = previous_hash b" "transactions b' = transactions b"
    "blk_timestamp b' = blk_timestamp b" "0 \<le> nonce b'" "nonce b' \<le> MAX_NONCE"
proof -
  obtain n where n: "0 \<le> n" "n \<le> MAX_NONCE" "b' = with_nonce n (b\<lparr>difficulty := d\<rparr>)"
    "hits (zeros d) (b\<lparr>difficulty := d\<rparr>) n"
    using pow_mine_Inr [OF assms] by blast
  have sl: "sealed b'" by (simp add: n(3))
  from n sl show "pow_validate b' d" "difficulty b' = d" "sealed b'" "index b' = index b"
    "previous_hash b' = previous_hash b" "transactions b' = transactions b"
    "blk_timestamp b' = blk_timestamp b" "0 \<le> nonce b'" "nonce b' \<le> MAX_NONCE"
    by (simp_all add: pow_validate_def sealed_def meets_difficulty_def hits_def)
qed

section \<open>The contract of an engine\<close>

text \<open>What the callers of \<open>ConsensusEngine\<close> rely on: a mined block passes the engine's own
  validation at the difficulty it was mined at, mining changes only the proof, and a validated
  block carries its own hash and at least the required difficulty.\<close>

locale consensus_engine =
  fixes E :: engine
  assumes mine_validates: "e_mine E b d = Inr b' \<Longrightarrow> e_validate E b' d"
    and mine_difficulty: "e_mine E b d = Inr b' \<Longrightarrow> difficulty b' = d"
    and mine_sealed: "e_mine E b d = Inr b' \<Longrightarrow> sealed b'"
    and mine_content: "e_mine E b d = Inr b' \<Longrightarrow>
      index b' = index b \<and> previous_hash b' = previous_hash b \<and>
      transactions b' = transactions b \<and> blk_timestamp b' = blk_timestamp b"
    and validate_hash: "e_validate E b d \<Longrightarrow> block_hash b = compute_hash b \<and> d \<le> difficulty b"

interpretation pow: consensus_engine ProofOfWorkConsensus
  by unfold_locales
    (auto simp: ProofOfWorkConsensus_def pow_validate_def split: if_splits dest: pow_mine_valid)

section \<open>Retargeting bounds\<close>

lemma raise_loop_spec:
  "n \<le> raise_loop w m n" "raise_loop w m n \<le> max n m"
  "n \<le> k \<Longrightarrow> k < raise_loop w m n \<Longrightarrow> of_int (16 ^ nat k) * 4 \<le> w"
  "raise_loop w m n < m \<Longrightarrow> w < of_int (16 ^ nat (raise_loop w m n)) * 4"
proof (induction w m n rule: raise_loop.induct)
  case (1 w m n)
  note simps = raise_loop.simps [of w m n]
  { case 1 show ?case using "1.IH"(1) by (auto simp: simps) }
  { case 2 show ?case using "1.IH"(2) by (auto simp: simps) }
  { case 3 then show ?case using "1.IH"(3) by (cases "k = n") (auto simp: simps split: if_splits) }
  { case 4 then show ?case using "1.IH"(4) by (auto simp: simps split: if_splits) }
qed

lemma lower_loop_spec:
  "lower_loop w m n = Inr r \<Longrightarrow> r \<le> n" "lower_loop w m n = Inr r \<Longrightarrow> min n m \<le> r"
  "lower_loop w m n = Inr r \<Longrightarrow> r < k \<Longrightarrow> k \<le> n \<Longrightarrow> w \<le> of_int (16 ^ nat k) / 4"
  "lower_loop w m n = Inr r \<Longrightarrow> m < r \<Longrightarrow> of_int (16 ^ nat r) / 4 < w"
proof (induction w m n rule: lower_loop.induct)
  case (1 w m n)
  note simps = lower_loop.simps [of w m n]
  { case 1 then show ?case using "1.IH"(1) by (auto simp: simps split: if_splits) }
  { case 2 then show ?case using "1.IH"(2) by (auto simp: simps split: if_splits) }
  { case 3 then show ?case using "1.IH"(3) by (cases "k = n") (auto simp: simps split: if_splits) }
  { case 4 then show ?case using "1.IH"(4) by (auto simp: simps split: if_splits) }
qed

lemma lower_loop_total: "0 \<le> m \<Longrightarrow> \<exists>r. lower_loop w m n = Inr r"
proof (induction w m n rule: lower_loop.induct)
  case (1 w m n)
  then show ?case by (auto simp: lower_loop.simps [of w m n])
qed

text \<open>The clamped duration: positive, at most the factor too long, less than twice the factor
  too short (the division rounds down).\<close>
lemma clamped_bounds:
  assumes "0 < e" "1 \<le> f"
  shows "0 < num_val (clamped_timespan e f a)" "num_val (clamped_timespan e f a) \<le> e * f"
    "e < 2 * f * num_val (clamped_timespan e f a)"
proof -
  let ?c = "num_val (clamped_timespan e f a)"
  have c: "?c = max (max 1 (e div f)) (min (num_val a) (e * f))"
    using assms by (simp add: clamped_timespan_def Let_def)
  show pos: "0 < ?c" by (simp add: c)
  have ef: "e \<le> e * f" using assms by simp
  moreover have "e div f \<le> e" using assms zdiv_mono2 [of e 1 f] by simp
  ultimately have "1 \<le> e * f" "e div f \<le> e * f" using assms by linarith+
  then show "?c \<le> e * f" by (simp add: c)
  have lo: "1 \<le> ?c" "e div f \<le> ?c" by (auto simp: c)
  have "e = f * (e div f) + e mod f" by simp
  also have "\<dots> < f * (e div f) + f" using assms pos_mod_bound [of f e] by linarith
  also have "\<dots> \<le> f * ?c + f * ?c" using lo assms
    by (intro add_mono mult_left_mono) (auto simp: mult_le_cancel_left1)
  finally show "e < 2 * f * ?c" by simp
qed

text \<open>The work the window implies, and the branch the retarget takes on it.\<close>

definition window_work :: "block list \<Rightarrow> int \<Rightarrow> int \<Rightarrow> rat" where
  "window_work bs target_time factor =
     (let e = (int (length bs) - 1) * target_time
      in of_int (16 ^ nat (max (difficulty (last bs)) 0) * e) /
         of_int (num_val (clamped_timespan e factor (actual_timespan bs))))"

definition measurable :: "block list \<Rightarrow> int \<Rightarrow> int \<Rightarrow> bool" where
  "measurable bs target_time factor \<longleftrightarrow>
     2 \<le> length bs \<and> 0 < target_time \<and>
     \<not> is_float (clamped_timespan ((int (length bs) - 1) * target_time) factor (actual_timespan bs))"

lemma next_difficulty_measurable:
  assumes "measurable bs t f"
  shows "pow_next_difficulty bs cd t mn mx f =
     (let base = max (difficulty (last bs)) 0; w = window_work bs t f in
      case (if w > of_int (16 ^ nat base) then Inr (raise_loop w mx base)
            else if w < of_int (16 ^ nat base) then lower_loop w mn base else Inr base) of
        Inl e \<Rightarrow> Inl e | Inr n \<Rightarrow> Inr (max mn (min n mx)))"
proof -
  have "\<not> ((int (length bs) - 1) * t \<le> 0 \<or> t \<le> 0)" "\<not> length bs < 2"
    using assms by (auto simp: measurable_def mult_le_0_iff)
  then show ?thesis
    using assms by (simp add: pow_next_difficulty_def measurable_def window_work_def Let_def)
qed

lemma next_difficulty_in_range:
  assumes "pow_next_difficulty bs cd t mn mx f = Inr d" "2 \<le> length bs" "0 < t" "mn \<le> mx"
  shows "mn \<le> d \<and> d \<le> mx"
proof -
  have "\<not> ((int (length bs) - 1) * t \<le> 0 \<or> t \<le> 0)" "\<not> length bs < 2"
    using assms by (auto simp: mult_le_0_iff)
  then show ?thesis
    using assms(1,4) by (auto simp: pow_next_difficulty_def Let_def split: if_splits sum.splits)
qed

lemma window_work_bounds:
  assumes m: "measurable bs t f" and f: "1 \<le> f" "f \<le> 32"
  defines "cw \<equiv> (of_int (16 ^ nat (max (difficulty (last bs)) 0)) :: rat)"
  shows "window_work bs t f < 64 * cw" "cw / 64 < window_work bs t f"
proof -
  define e where "e = (int (length bs) - 1) * t"
  define c where "c = num_val (clamped_timespan e f (actual_timespan bs))"
  have e: "0 < e" using m by (simp add: measurable_def e_def)
  have c: "0 < c" "c \<le> e * f" "e < 2 * f * c"
    using clamped_bounds [OF e f(1)] by (simp_all add: c_def)
  have "e * f \<le> e * 32" "2 * f * c \<le> 64 * c"
    using e c(1) f(2) by (auto intro: mult_left_mono)
  then have b: "(of_int c :: rat) < of_int (64 * e)" "(of_int e :: rat) < of_int (64 * c)"
    using c e unfolding of_int_less_iff by linarith+
  have w: "window_work bs t f = cw * of_int e / of_int c"
    by (simp add: window_work_def e_def c_def cw_def Let_def)
  have cw: "0 < cw" by (simp add: cw_def)
  show "window_work bs t f < 64 * cw"
    using b(2) c(1) cw by (simp add: w divide_simps mult.commute mult.left_commute)
  show "cw / 64 < window_work bs t f"
    using b(1) c(1) cw by (simp add: w divide_simps mult.commute mult.left_commute)
qed

text \<open>One retarget moves the difficulty by at most one level.\<close>
lemma next_difficulty_step:
  assumes m: "measurable bs t f" and f: "1 \<le> f" "f \<le> 32"
    and "0 \<le> mn" "mn \<le> difficulty (last bs)" "difficulty (last bs) \<le> mx"
    and r: "pow_next_difficulty bs cd t mn mx f = Inr d"
  shows "\<bar>d - difficulty (last bs)\<bar> \<le> 1"
proof -
  define b where "b = difficulty (last bs)"
  define w where "w = window_work bs t f"
  have b: "0 \<le> b" "max b 0 = b" using assms(4,5) by (simp_all add: b_def)
  have wb: "w < 64 * of_int (16 ^ nat b)" "of_int (16 ^ nat b) / 64 < w"
    using window_work_bounds [OF m f] b by (simp_all add: w_def b_def)
  have up: "raise_loop w mx b \<le> b + 1"
  proof (rule ccontr)
    assume "\<not> ?thesis"
    then have "(of_int (16 ^ nat (b + 1)) :: rat) * 4 \<le> w"
      using raise_loop_spec(3) [of b "b + 1" w mx] by simp
    with wb(1) b(1) show False by (simp add: nat_add_distrib)
  qed
  have down: "b - 1 \<le> r" if "lower_loop w mn b = Inr r" for r
  proof (rule ccontr)
    assume "\<not> ?thesis"
    moreover have "min b mn \<le> r" using lower_loop_spec(2) [OF that] .
    ultimately have "1 \<le> b" "w \<le> of_int (16 ^ nat (b - 1)) / 4"
      using lower_loop_spec(3) [OF that, of "b - 1"] assms(4) b(1) by auto
    moreover from this(1) have "(16::rat) ^ nat b = 16 * 16 ^ nat (b - 1)"
      by (simp flip: power_Suc Suc_nat_eq_nat_zadd1)
    ultimately show False using wb(2) by simp
  qed
  from r have "(if w > of_int (16 ^ nat b) then Inr (raise_loop w mx b)
            else if w < of_int (16 ^ nat b) then lower_loop w mn b else Inr b) = Inr d' \<Longrightarrow>
            d = max mn (min d' mx)" for d'
    by (simp add: next_difficulty_measurable [OF m] b b_def [symmetric] w_def [symmetric] Let_def)
  moreover have "\<exists>d'. (if w > of_int (16 ^ nat b) then Inr (raise_loop w mx b)
            else if w < of_int (16 ^ nat b) then lower_loop w mn b else Inr b) = Inr d'"
    using lower_loop_total [OF assms(4), of w b] by simp
  then obtain d' where d': "(if w > of_int (16 ^ nat b) then Inr (raise_loop w mx b)
            else if w < of_int (16 ^ nat b) then lower_loop w mn b else Inr b) = Inr d'" ..
  moreover have "\<bar>d' - b\<bar> \<le> 1"
    using d' up raise_loop_spec(1) [of b w mx] down lower_loop_spec(1) [of w mn b d']
    by (auto split: if_splits)
  ultimately show ?thesis using assms(5,6) b_def d' by auto
qed

text \<open>A window whose implied work is within the geometric midpoints keeps the difficulty.\<close>
lemma next_difficulty_stable:
  assumes m: "measurable bs t f" and "mn \<le> difficulty (last bs)" "difficulty (last bs) \<le> mx"
    and "0 \<le> difficulty (last bs)"
    and "of_int (16 ^ nat (difficulty (last bs))) / 4 < window_work bs t f"
    and "window_work bs t f < of_int (16 ^ nat (difficulty (last bs))) * 4"
  shows "pow_next_difficulty bs cd t mn mx f = Inr (difficulty (last bs))"
  using assms(2-)
  by (simp add: next_difficulty_measurable [OF m] Let_def max_absorb1
      raise_loop.simps [of "window_work bs t f"] lower_loop.simps [of "window_work bs t f"])

lemma next_difficulty_total:
  assumes "0 \<le> mn" "\<not> is_float (blk_timestamp (hd bs))" "\<not> is_float (blk_timestamp (last bs))"
  shows "\<exists>d. pow_next_difficulty bs cd t mn mx f = Inr d"
proof (cases "2 \<le> length bs \<and> 0 < t")
  case True
  with assms(2,3) have "measurable bs t f"
    by (auto simp: measurable_def clamped_timespan_def actual_timespan_def num_minus_def num_min_def
        num_max_def Let_def)
  then show ?thesis
    using lower_loop_total [OF assms(1), of "window_work bs t f" "max (difficulty (last bs)) 0"]
    by (auto simp: next_difficulty_measurable Let_def)
next
  case False
  then show ?thesis by (auto simp: pow_next_difficulty_def Let_def)
qed

text \<open>A float duration that survives the clamp makes \<open>Fraction\<close> raise.\<close>
lemma next_difficulty_float_raises:
  assumes "2 \<le> length bs" "0 < t" "1 \<le> f"
    and "is_float (num_minus (blk_timestamp (last bs)) (blk_timestamp (hd bs)))"
    and "max 1 ((int (length bs) - 1) * t div f) < num_val (blk_timestamp (last bs)) - num_val (blk_timestamp (hd bs))"
    and "num_val (blk_timestamp (last bs)) - num_val (blk_timestamp (hd bs)) \<le> (int (length bs) - 1) * t * f"
  shows "pow_next_difficulty bs cd t mn mx f = Inl TypeError"
proof -
  define e where "e = (int (length bs) - 1) * t"
  have e: "\<not> (e \<le> 0 \<or> t \<le> 0)" "\<not> length bs < 2"
    using assms(1,2) by (auto simp: e_def mult_le_0_iff)
  have "actual_timespan bs = num_minus (blk_timestamp (last bs)) (blk_timestamp (hd bs))"
    using assms(5) by (auto simp: actual_timespan_def Let_def)
  then have "is_float (clamped_timespan e f (actual_timespan bs))"
    using assms(3-6)
    by (simp add: clamped_timespan_def Let_def num_max_def num_min_def e_def [symmetric])
  then show ?thesis using e by (simp add: pow_next_difficulty_def Let_def e_def [symmetric])
qed

section \<open>Properties\<close>

text \<open>C31: \<open>mine\<close> always returns or raises: for a difficulty that is not negative it returns the block
  with the least nonce in \<open>0..2^32\<close> whose hash has the required zeros, and it raises exactly
  when no nonce of the range has them.\<close>
theorem mine_finds_first_nonce:
  assumes "0 \<le> d"
  shows "(\<exists>n. 0 \<le> n \<and> n \<le> MAX_NONCE \<and> hits (zeros d) (b\<lparr>difficulty := d\<rparr>) n \<and>
      (\<forall>m. 0 \<le> m \<and> m < n \<longrightarrow> \<not> hits (zeros d) (b\<lparr>difficulty := d\<rparr>) m) \<and>
      pow_mine b d = Inr (with_nonce n (b\<lparr>difficulty := d\<rparr>))) \<or>
    (\<forall>m. 0 \<le> m \<and> m \<le> MAX_NONCE \<longrightarrow> \<not> hits (zeros d) (b\<lparr>difficulty := d\<rparr>) m) \<and>
      pow_mine b d = Inl (ValidationError NonceSpaceExhausted)"
  using assms by (cases rule: pow_mine_cases [of d b]) auto

theorem mine_finds_first_nonce_witness:
  "(\<exists>n. 0 \<le> n \<and> n \<le> MAX_NONCE \<and> hits (zeros 0) (sample_block\<lparr>difficulty := 0\<rparr>) n \<and>
      (\<forall>m. 0 \<le> m \<and> m < n \<longrightarrow> \<not> hits (zeros 0) (sample_block\<lparr>difficulty := 0\<rparr>) m) \<and>
      pow_mine sample_block 0 = Inr (with_nonce n (sample_block\<lparr>difficulty := 0\<rparr>))) \<or>
    (\<forall>m. 0 \<le> m \<and> m \<le> MAX_NONCE \<longrightarrow> \<not> hits (zeros 0) (sample_block\<lparr>difficulty := 0\<rparr>) m) \<and>
      pow_mine sample_block 0 = Inl (ValidationError NonceSpaceExhausted)"
  by (rule mine_finds_first_nonce) simp

text \<open>a mined block passes \<open>validate\<close> at the difficulty it was mined at, and at every lower
  one; mining keeps the height, the parent, the transactions and the timestamp.\<close>
theorem mined_block_validates:
  assumes "pow_mine b d = Inr b'" "d' \<le> d"
  shows "pow_validate b' d' \<and> sealed b' \<and> index b' = index b \<and> previous_hash b' = previous_hash b \<and>
    transactions b' = transactions b \<and> blk_timestamp b' = blk_timestamp b \<and> difficulty b' = d"
  using pow_mine_valid [OF assms(1)] assms(2) by (auto simp: pow_validate_def split: if_splits)

theorem mined_block_validates_witness:
  "pow_validate (with_nonce 0 (sample_block\<lparr>difficulty := 0\<rparr>)) 0"
proof -
  have "pow_mine sample_block 0 = Inr (with_nonce 0 (sample_block\<lparr>difficulty := 0\<rparr>))"
    by (simp add: pow_mine_start mine_loop.simps zeros_def)
  from mined_block_validates [OF this, of 0] show ?thesis by simp
qed

text \<open>C32: a retarget over whole-second timestamps returns, stays within the configured bounds and
  moves the difficulty by at most one level, for every adjustment factor up to 32.\<close>
theorem retarget_bounded:
  assumes "2 \<le> length bs" "0 < t" "1 \<le> f" "f \<le> 32"
    and "\<not> is_float (blk_timestamp (hd bs))" "\<not> is_float (blk_timestamp (last bs))"
    and "0 \<le> mn" "mn \<le> difficulty (last bs)" "difficulty (last bs) \<le> mx"
  shows "\<exists>d. pow_next_difficulty bs cd t mn mx f = Inr d \<and> mn \<le> d \<and> d \<le> mx \<and>
    \<bar>d - difficulty (last bs)\<bar> \<le> 1"
proof -
  obtain d where d: "pow_next_difficulty bs cd t mn mx f = Inr d"
    using next_difficulty_total assms(5-7) by blast
  have m: "measurable bs t f"
    using assms(1,2,5,6)
    by (auto simp: measurable_def clamped_timespan_def actual_timespan_def num_minus_def num_min_def
        num_max_def Let_def)
  show ?thesis
    using d next_difficulty_in_range [OF d] next_difficulty_step [OF m _ _ _ _ _ d] assms by auto
qed

theorem retarget_bounded_witness:
  "\<exists>d. pow_next_difficulty [sample_block, sample_block\<lparr>blk_timestamp := PyInt 40\<rparr>] 4 30 0 32 4 = Inr d \<and>
    0 \<le> d \<and> d \<le> 32 \<and> \<bar>d - difficulty (last [sample_block, sample_block\<lparr>blk_timestamp := PyInt 40\<rparr>])\<bar> \<le> 1"
  by (rule retarget_bounded) simp_all

text \<open>a window whose duration is strictly within a factor of four of the expected one keeps the
  difficulty (the documented midpoint rule).\<close>
theorem retarget_keeps_near_target:
  assumes "2 \<le> length bs" "0 < t" "4 \<le> f"
    and "\<not> is_float (blk_timestamp (hd bs))" "\<not> is_float (blk_timestamp (last bs))"
    and "0 \<le> difficulty (last bs)" "mn \<le> difficulty (last bs)" "difficulty (last bs) \<le> mx"
    and "(int (length bs) - 1) * t < 4 * (num_val (blk_timestamp (last bs)) - num_val (blk_timestamp (hd bs)))"
    and "num_val (blk_timestamp (last bs)) - num_val (blk_timestamp (hd bs)) < 4 * ((int (length bs) - 1) * t)"
  shows "pow_next_difficulty bs cd t mn mx f = Inr (difficulty (last bs))"
proof -
  define e where "e = (int (length bs) - 1) * t"
  define a where "a = num_val (blk_timestamp (last bs)) - num_val (blk_timestamp (hd bs))"
  have e: "0 < e" "e < 4 * a" "a < 4 * e" using assms by (simp_all add: e_def a_def)
  have act: "actual_timespan bs = PyInt a"
    using assms(4,5) e by (auto simp: actual_timespan_def num_minus_def a_def Let_def)
  have m: "measurable bs t f"
    using assms(1,2) by (auto simp: measurable_def act clamped_timespan_def num_min_def num_max_def Let_def)
  have "e div f \<le> e div 4" using zdiv_mono2 [of e 4 f] assms(3) e by simp
  then have "max 1 (e div f) \<le> a" using e by auto
  moreover have "e * 4 \<le> e * f" using e(1) assms(3) by (intro mult_left_mono) auto
  then have "a \<le> e * f" using e(3) by linarith
  ultimately have c: "num_val (clamped_timespan e f (PyInt a)) = a"
    using assms(3) by (simp add: clamped_timespan_def Let_def)
  have w: "window_work bs t f = of_int (16 ^ nat (difficulty (last bs))) * of_int e / of_int a"
    using c assms(6) by (simp add: window_work_def act e_def Let_def max_absorb1)
  have a: "(0::rat) < of_int a" "(of_int e :: rat) < 4 * of_int a" "(of_int a :: rat) < 4 * of_int e"
    using e by linarith+
  let ?p = "(16::rat) ^ nat (difficulty (last bs))"
  have "?p * of_int a < ?p * (4 * of_int e)" "?p * of_int e < ?p * (4 * of_int a)"
    using a by (intro mult_strict_left_mono; simp)+
  then have "?p / 4 < window_work bs t f" "window_work bs t f < ?p * 4"
    using a(1) by (simp_all add: w divide_simps mult.commute mult.left_commute)
  then show ?thesis using next_difficulty_stable [OF m assms(7,8,6)] by simp
qed

theorem retarget_keeps_near_target_witness:
  "pow_next_difficulty [sample_block, sample_block\<lparr>blk_timestamp := PyInt 40\<rparr>] 4 30 0 32 4 =
     Inr (difficulty (last [sample_block, sample_block\<lparr>blk_timestamp := PyInt 40\<rparr>]))"
  by (rule retarget_keeps_near_target) simp_all

text \<open>With the default configuration, the second block after genesis makes retargeting raise
  \<open>TypeError\<close> whenever the first came between 8 and 120 seconds after the genesis
  timestamp, which is a float: \<open>Fraction\<close> does not take one.\<close>
theorem retarget_raises_on_float:
  assumes "blk_timestamp g = PyFloat t0" "blk_timestamp b = PyInt t1" "7 < t1 - t0" "t1 - t0 \<le> 120"
  shows "pow_next_difficulty [g, b] 4 30 1 32 4 = Inl TypeError"
  by (rule next_difficulty_float_raises) (use assms in \<open>simp_all add: num_minus_def\<close>)

theorem retarget_raises_on_float_witness:
  "pow_next_difficulty [sample_block\<lparr>blk_timestamp := PyFloat 0\<rparr>, sample_block\<lparr>blk_timestamp := PyInt 30\<rparr>] 4 30 1 32 4 =
   Inl TypeError"
  by (rule retarget_raises_on_float [where ?t0.0 = 0 and ?t1.0 = 30]) simp_all

end
