(* ===== verification/Pydict.thy ===== *)
theory Pydict
  imports Json "HOL-Library.Multiset"
begin

text \<open>
  Python's insertion-ordered \<open>dict\<close> (and a database table with a primary key) as an association
  list with distinct keys.  What the components rely on is the locale \<open>keyed_store\<close>; the model's
  \<open>dict_set\<close>, \<open>map_of\<close> and \<open>dict_pop\<close> interpret it.
\<close>

type_synonym ('k, 'v) pydict = "('k \<times> 'v) list"

text \<open>\<open>d.pop(k, None)\<close>, \<open>del d[k]\<close>, and \<open>DELETE ... WHERE key = k\<close>.\<close>

definition dict_pop :: "'k \<Rightarrow> ('k, 'v) pydict \<Rightarrow> ('k, 'v) pydict" where
  "dict_pop k d = filter (\<lambda>kv. fst kv \<noteq> k) d"

definition dict_keys :: "('k, 'v) pydict \<Rightarrow> 'k list" where
  "dict_keys d = map fst d"

definition dict_values :: "('k, 'v) pydict \<Rightarrow> 'v list" where
  "dict_values d = map snd d"

definition dict_get :: "'k \<Rightarrow> 'v \<Rightarrow> ('k, 'v) pydict \<Rightarrow> 'v" where
  "dict_get k dflt d = (case map_of d k of None \<Rightarrow> dflt | Some v \<Rightarrow> v)"

definition dict_invar :: "('k, 'v) pydict \<Rightarrow> bool" where
  "dict_invar d \<longleftrightarrow> distinct (map fst d)"

section \<open>The interface\<close>

locale keyed_store =
  fixes put :: "'k \<Rightarrow> 'v \<Rightarrow> 's \<Rightarrow> 's" and lookup :: "'s \<Rightarrow> 'k \<Rightarrow> 'v option" and del :: "'k \<Rightarrow> 's \<Rightarrow> 's"
    and invar :: "'s \<Rightarrow> bool"
  assumes lookup_put: "lookup (put k v s) = (lookup s)(k \<mapsto> v)"
    and lookup_del: "lookup (del k s) = (lookup s)(k := None)"
    and invar_put: "invar s \<Longrightarrow> invar (put k v s)"
    and invar_del: "invar s \<Longrightarrow> invar (del k s)"
begin

lemma lookup_del_all: "lookup (fold del ks s) k = (if k \<in> set ks then None else lookup s k)"
  by (induction ks arbitrary: s) (auto simp: lookup_del)

lemma invar_del_all: "invar s \<Longrightarrow> invar (fold del ks s)"
  by (induction ks arbitrary: s) (auto simp: invar_del)

lemma put_other: "k' \<noteq> k \<Longrightarrow> lookup (put k v s) k' = lookup s k'"
  by (simp add: lookup_put)

lemma put_del_commute: "k \<noteq> k' \<Longrightarrow> lookup (put k v (del k' s)) = lookup (del k' (put k v s))"
  by (auto simp: lookup_put lookup_del)

end

section \<open>The model\<close>

lemma keys_dict_set: "map fst (dict_set k v d) = (if k \<in> fst ` set d then map fst d else map fst d @ [k])"
  by (induction d) (force simp: image_iff)+

lemma dict_invar_set: "dict_invar d \<Longrightarrow> dict_invar (dict_set k v d)"
  by (auto simp: dict_invar_def keys_dict_set)

lemma map_of_dict_pop: "map_of (dict_pop k d) = (map_of d)(k := None)"
  by (induction d) (auto simp: dict_pop_def)

lemma dict_invar_pop: "dict_invar d \<Longrightarrow> dict_invar (dict_pop k d)"
  by (auto simp: dict_invar_def dict_pop_def distinct_map_filter)

interpretation pdict: keyed_store dict_set map_of dict_pop dict_invar
  by unfold_locales (simp_all add: map_of_dict_pop dict_invar_set dict_invar_pop)

lemma dict_get_set [simp]: "dict_get a z (dict_set k v d) = (if a = k then v else dict_get a z d)"
  by (simp add: dict_get_def)

lemma dict_get_empty [simp]: "dict_get a z [] = z"
  by (simp add: dict_get_def)

lemma dict_set_new: "k \<notin> fst ` set d \<Longrightarrow> dict_set k v d = d @ [(k, v)]"
  by (induction d) (auto simp: image_iff)

lemma set_dict_set: "set (dict_set k v d) \<subseteq> insert (k, v) (set d)"
  by (induction d) (auto split: if_splits)

lemma set_dict_pop: "set (dict_pop k d) = {kv \<in> set d. fst kv \<noteq> k}"
  by (auto simp: dict_pop_def)

lemma set_dict_pop_all: "set (fold dict_pop ks d) = {kv \<in> set d. fst kv \<notin> set ks}"
  by (induction ks arbitrary: d) (auto simp: set_dict_pop)

lemma fold_dict_pop: "fold dict_pop ks d = filter (\<lambda>kv. fst kv \<notin> set ks) d"
  by (induction ks arbitrary: d) (auto simp: dict_pop_def intro!: filter_cong)

lemma sum_dict_set:
  assumes "dict_invar d"
  shows "sum_list (map snd (dict_set k (v::int) d)) = sum_list (map snd d) - dict_get k 0 d + v"
  using assms
proof (induction d)
  case (Cons kv d)
  obtain k' v' where kv: "kv = (k', v')" by fastforce
  have "map_of d k = None" if "k' = k"
    using that Cons.prems by (auto simp: dict_invar_def kv map_of_eq_None_iff)
  then show ?case using Cons by (auto simp: kv dict_get_def dict_invar_def)
qed simp

section \<open>Balance maps\<close>

type_synonym balances = "(string, int) pydict"

text \<open>\<open>balances[a] = balances.get(a, 0) + n\<close>.\<close>

definition credit :: "string \<Rightarrow> int \<Rightarrow> balances \<Rightarrow> balances" where
  "credit a n bal = dict_set a (dict_get a 0 bal + n) bal"

lemma credit_facts [simp]:
  "dict_invar bal \<Longrightarrow> dict_invar (credit a n bal)"
  "dict_get x 0 (credit a n bal) = dict_get x 0 bal + (if x = a then n else 0)"
  "dict_invar bal \<Longrightarrow> sum_list (map snd (credit a n bal)) = sum_list (map snd bal) + n"
  "fst ` set (credit a n bal) = insert a (fst ` set bal)"
  by (auto simp: credit_def dict_invar_set sum_dict_set keys_dict_set simp flip: set_map)

end
