(* ===== verification/Validators.thy ===== *)
theory Validators
  imports Consensus Pydict
begin

text \<open>
  \<open>blockchain/validators.py\<close>: transaction, block and chain validation, accumulated work, the
  difficulty a prefix requires, and the replay of monetary state.  A function that may raise
  (retargeting does) returns a \<open>result\<close> of its verdict.
\<close>

section \<open>Transactions, work, difficulty, genesis identity\<close>

definition validate_transaction :: "crypto \<Rightarrow> transaction \<Rightarrow> tx_reason verdict" where
  "validate_transaction C tx =
     (case validate_base_units (PInt (amount_base_units tx)) False of
        Invalid r \<Rightarrow> Invalid r
      | Valid \<Rightarrow>
          if \<not> is_coinbase tx \<and> sender tx = receiver tx then Invalid SenderEqualsReceiver
          else if \<not> verify C tx then Invalid SignatureFailed
          else Valid)"

definition chain_work :: "block list \<Rightarrow> int" where
  "chain_work chain = sum_list (map (\<lambda>b. 16 ^ nat (max (difficulty b) 0)) chain)"

definition recent_window :: "consensus_config \<Rightarrow> block list \<Rightarrow> block list" where
  "recent_window cfg chain =
     (let window = difficulty_adjustment_interval cfg
      in if int (length chain) \<ge> window then slice_from (- window) chain else chain)"

definition expected_difficulty :: "engine \<Rightarrow> consensus_config \<Rightarrow> block list \<Rightarrow> int result" where
  "expected_difficulty E cfg chain_prefix =
     e_next_difficulty E (recent_window cfg chain_prefix) (config_difficulty cfg)
       (target_block_time_seconds cfg) (min_difficulty cfg) (max_difficulty cfg)
       (max_difficulty_adjustment_factor cfg)"

definition validate_genesis_identity :: "block list \<Rightarrow> block \<Rightarrow> replace_reason verdict" where
  "validate_genesis_identity candidate local_genesis =
     (case candidate of
        [] \<Rightarrow> Invalid CandidateEmpty
      | g # _ \<Rightarrow> if block_hash g \<noteq> block_hash local_genesis then Invalid GenesisMismatch else Valid)"

section \<open>Replaying monetary state\<close>

text \<open>The inner loop, over the transactions of a block.\<close>

fun replay_txs :: "crypto \<Rightarrow> transaction list \<Rightarrow> balances \<Rightarrow> state_reason + balances" where
  "replay_txs C [] bal = Inr bal"
| "replay_txs C (tx # txs) bal =
     (if is_coinbase tx then replay_txs C txs bal
      else
        (case validate_transaction C tx of
           Invalid r \<Rightarrow> Inl (InvalidTransactionIn (tx_hash tx) r)
         | Valid \<Rightarrow>
             let sender_balance = dict_get (sender tx) 0 bal in
             if amount_base_units tx > sender_balance
             then Inl (InsufficientBalance (sender tx) (amount_base_units tx) sender_balance)
             else
               replay_txs C txs
                 (credit (receiver tx) (amount_base_units tx)
                   (dict_set (sender tx) (sender_balance - amount_base_units tx) bal))))"

text \<open>One block: on failure, the reason and the supply counted so far.\<close>

definition replay_block ::
  "crypto \<Rightarrow> int \<Rightarrow> int \<Rightarrow> block \<Rightarrow> balances \<times> int \<Rightarrow> (state_reason \<times> int) + (balances \<times> int)" where
  "replay_block C reward max_supply b st =
     (case st of (bal, total_supply) \<Rightarrow>
        if index b = 0 then Inr st
        else
          (case filter is_coinbase (transactions b) of
             [coinbase] \<Rightarrow>
               let expected_reward = min reward (max_supply - total_supply) in
               if expected_reward \<le> 0 then Inl (NoIssuanceRemains, total_supply)
               else if amount_base_units coinbase \<noteq> expected_reward
               then Inl (CoinbaseRewardMismatch, total_supply)
               else
                 let next_supply = total_supply + amount_base_units coinbase in
                 if next_supply > max_supply then Inl (SupplyWouldBeExceeded, total_supply)
                 else
                   (case replay_txs C (transactions b)
                          (credit (receiver coinbase) (amount_base_units coinbase) bal) of
                      Inl r \<Rightarrow> Inl (r, next_supply)
                    | Inr bal' \<Rightarrow> Inr (bal', next_supply))
           | _ \<Rightarrow> Inl (NotExactlyOneCoinbase, total_supply)))"

fun replay_chain ::
  "crypto \<Rightarrow> int \<Rightarrow> int \<Rightarrow> block list \<Rightarrow> balances \<times> int \<Rightarrow> (state_reason \<times> int) + (balances \<times> int)" where
  "replay_chain C reward max_supply [] st = Inr st"
| "replay_chain C reward max_supply (b # bs) st =
     (case replay_block C reward max_supply b st of
        Inl e \<Rightarrow> Inl e
      | Inr st' \<Rightarrow> replay_chain C reward max_supply bs st')"

text \<open>\<open>_state_from_chain\<close>: balances, supply, and the reason if the replay failed.\<close>

definition state_from_chain ::
  "crypto \<Rightarrow> block list \<Rightarrow> int \<Rightarrow> int \<Rightarrow> balances \<times> int \<times> state_reason option" where
  "state_from_chain C chain reward max_supply =
     (case replay_chain C reward max_supply chain ([], 0) of
        Inl (r, supply) \<Rightarrow> ([], supply, Some r)
      | Inr (bal, supply) \<Rightarrow> (bal, supply, None))"

section \<open>Blocks and chains\<close>

fun first_invalid_tx :: "crypto \<Rightarrow> transaction list \<Rightarrow> structure_reason verdict" where
  "first_invalid_tx C [] = Valid"
| "first_invalid_tx C (tx # txs) =
     (case validate_transaction C tx of
        Invalid r \<Rightarrow> Invalid (InvalidTransaction (tx_hash tx) r)
      | Valid \<Rightarrow> first_invalid_tx C txs)"

definition validate_block_structure ::
  "crypto \<Rightarrow> block \<Rightarrow> int option \<Rightarrow> int \<Rightarrow> structure_reason verdict" where
  "validate_block_structure C b expected_coinbase_reward max_supply =
     (if index b < 0 then Invalid NegativeIndex
      else if compute_merkle_root b \<noteq> blk_merkle_root b then Invalid MerkleMismatch
      else if compute_hash b \<noteq> block_hash b then Invalid HashMismatch
      else if index b = 0 then Valid
      else
        (case filter is_coinbase (transactions b) of
           [] \<Rightarrow> Invalid MissingCoinbase
         | _ # _ # _ \<Rightarrow> Invalid TooManyCoinbases
         | [coinbase] \<Rightarrow>
             (case expected_coinbase_reward of
                Some r \<Rightarrow>
                  if amount_base_units coinbase \<noteq> r
                  then Invalid (RewardNotProtocol (amount_base_units coinbase) r)
                  else if amount_base_units coinbase > max_supply then Invalid CoinbaseExceedsSupply
                  else first_invalid_tx C (transactions b)
              | None \<Rightarrow>
                  if amount_base_units coinbase > max_supply then Invalid CoinbaseExceedsSupply
                  else first_invalid_tx C (transactions b))))"

definition validate_block_against_chain ::
  "crypto \<Rightarrow> engine \<Rightarrow> consensus_config \<Rightarrow> int \<Rightarrow> int \<Rightarrow> block \<Rightarrow> block list \<Rightarrow> block_reason verdict result" where
  "validate_block_against_chain C E cfg reward max_supply b chain_so_far =
     (if chain_so_far = [] then Inr (Invalid EmptyPrefix)
      else
        let previous = last chain_so_far in
        if index b \<noteq> index previous + 1 then Inr (Invalid IndexNotSequential)
        else if previous_hash b \<noteq> block_hash previous then Inr (Invalid PreviousHashMismatch)
        else if num_val (blk_timestamp b) \<le> num_val (blk_timestamp previous)
        then Inr (Invalid TimestampNotAfter)
        else
          (case state_from_chain C chain_so_far reward max_supply of
             (_, _, Some r) \<Rightarrow> Inr (Invalid (ExistingStateInvalid r))
           | (_, current_supply, None) \<Rightarrow>
               (case state_from_chain C (chain_so_far @ [b]) reward max_supply of
                  (_, _, Some r) \<Rightarrow> Inr (Invalid (InvalidTransition r))
                | (_, candidate_supply, None) \<Rightarrow>
                    (case expected_difficulty E cfg chain_so_far of
                       Inl e \<Rightarrow> Inl e
                     | Inr required \<Rightarrow>
                         if difficulty b \<noteq> required
                         then Inr (Invalid (DifficultyMismatch (difficulty b) required))
                         else if \<not> e_validate E b required then Inr (Invalid ProofOfWorkFailed)
                         else
                           let expected_reward = min reward (max_supply - current_supply) in
                           if expected_reward \<le> 0 then Inr (Invalid NoIssuanceForBlock)
                           else
                             (case validate_block_structure C b (Some expected_reward) max_supply of
                                Invalid r \<Rightarrow> Inr (Invalid (BadStructure r))
                              | Valid \<Rightarrow>
                                  if candidate_supply > max_supply
                                  then Inr (Invalid BlockExceedsSupply)
                                  else Inr Valid)))))"

text \<open>The loop of \<open>validate_chain\<close>: each block against the blocks before it.\<close>

fun validate_links ::
  "crypto \<Rightarrow> engine \<Rightarrow> consensus_config \<Rightarrow> int \<Rightarrow> int \<Rightarrow> block list \<Rightarrow> block list \<Rightarrow> chain_reason verdict result" where
  "validate_links C E cfg reward max_supply prefix [] = Inr Valid"
| "validate_links C E cfg reward max_supply prefix (b # bs) =
     (case validate_block_against_chain C E cfg reward max_supply b prefix of
        Inl e \<Rightarrow> Inl e
      | Inr (Invalid r) \<Rightarrow> Inr (Invalid (BlockInvalid (index b) r))
      | Inr Valid \<Rightarrow> validate_links C E cfg reward max_supply (prefix @ [b]) bs)"

definition validate_chain ::
  "crypto \<Rightarrow> engine \<Rightarrow> consensus_config \<Rightarrow> int \<Rightarrow> int \<Rightarrow> block list \<Rightarrow> chain_reason verdict result" where
  "validate_chain C E cfg reward max_supply chain =
     (case chain of
        [] \<Rightarrow> Inr (Invalid EmptyChain)
      | g # bs \<Rightarrow>
          (case validate_block_structure C g None MAX_SUPPLY_BASE_UNITS of
             Invalid r \<Rightarrow> Inr (Invalid (GenesisInvalid r))
           | Valid \<Rightarrow>
               (case validate_links C E cfg reward max_supply [g] bs of
                  Inl e \<Rightarrow> Inl e
                | Inr (Invalid r) \<Rightarrow> Inr (Invalid r)
                | Inr Valid \<Rightarrow>
                    (case state_from_chain C chain reward max_supply of
                       (_, _, Some r) \<Rightarrow> Inr (Invalid (MonetaryStateInvalid r))
                     | (_, total_supply, None) \<Rightarrow>
                         if total_supply > max_supply then Inr (Invalid ChainExceedsSupply)
                         else Inr Valid))))"

section \<open>Transactions\<close>

lemma validate_transaction_Valid:
  "validate_transaction C tx = Valid \<longleftrightarrow> verify C tx \<and> (is_coinbase tx \<or> sender tx \<noteq> receiver tx)"
  by (auto simp: validate_transaction_def verify_def split: verdict.splits if_splits)

lemma first_invalid_tx_Valid:
  "first_invalid_tx C txs = Valid \<longleftrightarrow> (\<forall>tx \<in> set txs. validate_transaction C tx = Valid)"
  by (induction txs) (auto split: verdict.splits)

section \<open>Conservation\<close>

lemma transfer_facts:
  fixes bal :: balances
  assumes "\<not> is_coinbase tx" "dict_invar bal"
  defines "bal' \<equiv> credit (receiver tx) (amount_base_units tx)
    (dict_set (sender tx) (dict_get (sender tx) 0 bal - amount_base_units tx) bal)"
  shows "dict_invar bal'" "sum_list (map snd bal') = sum_list (map snd bal)"
    "dict_get a 0 bal' = dict_get a 0 bal + tx_delta a tx"
  using assms by (auto simp: bal'_def dict_invar_set sum_dict_set tx_delta_def)

definition solvent :: "balances \<Rightarrow> bool" where
  "solvent bal \<longleftrightarrow> (\<forall>a. 0 \<le> dict_get a 0 bal)"

lemma replay_txs_spec:
  assumes "replay_txs C txs bal = Inr bal'" "dict_invar bal"
  shows "dict_invar bal' \<and> sum_list (map snd bal') = sum_list (map snd bal) \<and>
    (\<forall>a. dict_get a 0 bal' = dict_get a 0 bal + txs_delta a (filter (\<lambda>tx. \<not> is_coinbase tx) txs)) \<and>
    (solvent bal \<longrightarrow> solvent bal') \<and>
    (\<forall>tx \<in> set txs. is_coinbase tx \<or> validate_transaction C tx = Valid)"
  using assms
proof (induction txs arbitrary: bal)
  case (Cons tx txs)
  show ?case
  proof (cases "is_coinbase tx")
    case True
    with Cons.prems(1) have "replay_txs C txs bal = Inr bal'" by simp
    from Cons.IH [OF this Cons.prems(2)] True show ?thesis by auto
  next
    case False
    let ?b = "credit (receiver tx) (amount_base_units tx)
      (dict_set (sender tx) (dict_get (sender tx) 0 bal - amount_base_units tx) bal)"
    have v: "validate_transaction C tx = Valid" "amount_base_units tx \<le> dict_get (sender tx) 0 bal"
      and r: "replay_txs C txs ?b = Inr bal'"
      using Cons.prems(1) False by (auto simp: Let_def split: verdict.splits if_splits)
    note t = transfer_facts [OF False Cons.prems(2)]
    have pos: "0 \<le> amount_base_units tx"
      using v(1) verify_facts(1) by (fastforce simp: validate_transaction_Valid)
    have "solvent ?b" if "solvent bal"
      using that v(2) pos by (auto simp: solvent_def)
    with Cons.IH [OF r t(1)] t(2,3) v(1) False show ?thesis by simp
  qed
qed simp

text \<open>The state the replay keeps: one row per address, no negative balance, the balances add up
  to the supply, and the supply stays within the cap.\<close>

definition ledger_invar :: "int \<Rightarrow> balances \<times> int \<Rightarrow> bool" where
  "ledger_invar max_supply st \<longleftrightarrow>
     dict_invar (fst st) \<and> solvent (fst st) \<and>
     sum_list (map snd (fst st)) = snd st \<and> 0 \<le> snd st \<and> snd st \<le> max_supply"

text \<open>A block the replay accepts.\<close>
lemma replay_block_Inr:
  assumes "replay_block C reward mx b (bal, supply) = Inr (bal', supply')" "index b \<noteq> 0"
  shows "\<exists>cb. filter is_coinbase (transactions b) = [cb] \<and>
    amount_base_units cb = min reward (mx - supply) \<and> 0 < amount_base_units cb \<and>
    supply' = supply + amount_base_units cb \<and> supply' \<le> mx \<and>
    replay_txs C (transactions b) (credit (receiver cb) (amount_base_units cb) bal) = Inr bal'"
  using assms
  by (auto simp: replay_block_def Let_def split: list.splits if_splits sum.splits)

lemma replay_block_genesis [simp]: "index b = 0 \<Longrightarrow> replay_block C reward mx b st = Inr st"
  by (cases st) (simp add: replay_block_def)

lemma replay_block_ledger:
  assumes "replay_block C reward mx b st = Inr st'" "ledger_invar mx st"
  shows "ledger_invar mx st'"
proof (cases "index b = 0")
  case False
  obtain bal s bal' s' where st: "st = (bal, s)" "st' = (bal', s')" by fastforce
  obtain cb :: transaction where cb: "0 < amount_base_units cb" "s' = s + amount_base_units cb" "s' \<le> mx"
    "replay_txs C (transactions b) (credit (receiver cb) (amount_base_units cb) bal) = Inr bal'"
    using replay_block_Inr [OF assms(1) [unfolded st] False] by blast
  have inv: "dict_invar bal" "solvent bal" "sum_list (map snd bal) = s" "0 \<le> s"
    using assms(2) by (simp_all add: ledger_invar_def st)
  have "solvent (credit (receiver cb) (amount_base_units cb) bal)"
    using inv cb(1) by (simp add: solvent_def)
  with replay_txs_spec [OF cb(4)] inv cb(1-3) show ?thesis by (simp add: ledger_invar_def st)
qed (use assms in simp)

lemma replay_block_balance:
  assumes "replay_block C reward mx b (bal, s) = Inr (bal', s')" "dict_invar bal" "index b \<noteq> 0"
  shows "dict_get a 0 bal' = dict_get a 0 bal + txs_delta a (transactions b)" "dict_invar bal'"
proof -
  obtain cb where cb: "filter is_coinbase (transactions b) = [cb]"
    "replay_txs C (transactions b) (credit (receiver cb) (amount_base_units cb) bal) = Inr bal'"
    using replay_block_Inr [OF assms(1,3)] by blast
  have "is_coinbase cb" using filter_eq_singleton_split [OF cb(1)] by blast
  then have "tx_delta a cb = (if receiver cb = a then amount_base_units cb else 0)"
    by (simp add: tx_delta_def)
  with replay_txs_spec [OF cb(2)] assms(2) txs_delta_partition [of a "transactions b"] cb(1)
  show "dict_get a 0 bal' = dict_get a 0 bal + txs_delta a (transactions b)" "dict_invar bal'"
    by simp_all
qed

lemma replay_chain_append:
  "replay_chain C reward mx (xs @ ys) st =
     (case replay_chain C reward mx xs st of Inl e \<Rightarrow> Inl e | Inr st' \<Rightarrow> replay_chain C reward mx ys st')"
  by (induction xs arbitrary: st) (auto split: sum.splits)

lemma replay_chain_ledger:
  "replay_chain C reward mx bs st = Inr st' \<Longrightarrow> ledger_invar mx st \<Longrightarrow> ledger_invar mx st'"
  by (induction bs arbitrary: st) (auto split: sum.splits dest: replay_block_ledger)

lemma ledger_invar_start: "0 \<le> mx \<Longrightarrow> ledger_invar mx ([], 0)"
  by (simp add: ledger_invar_def dict_invar_def solvent_def)

lemma state_from_chain_None:
  "state_from_chain C chain reward mx = (bal, s, None) \<longleftrightarrow>
     replay_chain C reward mx chain ([], 0) = Inr (bal, s)"
  by (auto simp: state_from_chain_def split: sum.splits prod.splits)

section \<open>What a valid block is\<close>

definition valid_extension ::
  "crypto \<Rightarrow> engine \<Rightarrow> consensus_config \<Rightarrow> int \<Rightarrow> int \<Rightarrow> block list \<Rightarrow> block \<Rightarrow> bool" where
  "valid_extension C E cfg reward mx chain b \<longleftrightarrow>
     chain \<noteq> [] \<and> index b = index (last chain) + 1 \<and> previous_hash b = block_hash (last chain) \<and>
     num_val (blk_timestamp (last chain)) < num_val (blk_timestamp b) \<and>
     expected_difficulty E cfg chain = Inr (difficulty b) \<and> e_validate E b (difficulty b) \<and>
     (\<exists>bal s st'. replay_chain C reward mx chain ([], 0) = Inr (bal, s) \<and>
        replay_block C reward mx b (bal, s) = Inr st' \<and> snd st' \<le> mx \<and>
        0 < min reward (mx - s) \<and>
        validate_block_structure C b (Some (min reward (mx - s))) mx = Valid)"

lemma validate_block_against_chain_Valid:
  "validate_block_against_chain C E cfg reward mx b chain = Inr Valid \<longleftrightarrow>
     valid_extension C E cfg reward mx chain b"
proof (cases "replay_chain C reward mx chain ([], 0)")
  case (Inl e)
  then show ?thesis
    by (cases e) (auto simp: validate_block_against_chain_def valid_extension_def state_from_chain_def Let_def)
next
  case (Inr st)
  obtain bal s where st: "st = (bal, s)" by fastforce
  have snoc: "replay_chain C reward mx (chain @ [b]) ([], 0) = replay_block C reward mx b (bal, s)"
    by (simp add: replay_chain_append Inr st split: sum.splits)
  show ?thesis
    using Inr snoc
    by (auto simp: validate_block_against_chain_def valid_extension_def state_from_chain_def st Let_def
        split: sum.splits prod.splits verdict.splits if_splits)
qed

lemma validate_links_snoc:
  "validate_links C E cfg reward mx p (xs @ [b]) = Inr Valid \<longleftrightarrow>
     validate_links C E cfg reward mx p xs = Inr Valid \<and>
     validate_block_against_chain C E cfg reward mx b (p @ xs) = Inr Valid"
  by (induction xs arbitrary: p) (auto split: sum.splits verdict.splits)

lemma validate_chain_Valid:
  "validate_chain C E cfg reward mx (g # bs) = Inr Valid \<longleftrightarrow>
     validate_block_structure C g None MAX_SUPPLY_BASE_UNITS = Valid \<and>
     validate_links C E cfg reward mx [g] bs = Inr Valid \<and>
     (\<exists>bal s. replay_chain C reward mx (g # bs) ([], 0) = Inr (bal, s) \<and> s \<le> mx)"
  by (auto simp: validate_chain_def state_from_chain_def split: sum.splits prod.splits verdict.splits)

text \<open>Validating block by block and validating the whole chain agree.\<close>
lemma validate_chain_snoc:
  assumes "chain \<noteq> []"
  shows "validate_chain C E cfg reward mx (chain @ [b]) = Inr Valid \<longleftrightarrow>
    validate_block_structure C (hd chain) None MAX_SUPPLY_BASE_UNITS = Valid \<and>
    validate_links C E cfg reward mx [hd chain] (tl chain) = Inr Valid \<and>
    valid_extension C E cfg reward mx chain b"
proof -
  obtain g bs where chain: "chain = g # bs" using assms by (cases chain) auto
  have "validate_chain C E cfg reward mx (chain @ [b]) = Inr Valid \<longleftrightarrow>
     validate_block_structure C g None MAX_SUPPLY_BASE_UNITS = Valid \<and>
     validate_links C E cfg reward mx [g] bs = Inr Valid \<and>
     valid_extension C E cfg reward mx chain b \<and>
     (\<exists>bal s. replay_chain C reward mx (chain @ [b]) ([], 0) = Inr (bal, s) \<and> s \<le> mx)"
    using validate_chain_Valid [of C E cfg reward mx g "bs @ [b]"]
    by (auto simp: chain validate_links_snoc validate_block_against_chain_Valid)
  moreover have "valid_extension C E cfg reward mx chain b \<Longrightarrow>
      \<exists>bal s. replay_chain C reward mx (chain @ [b]) ([], 0) = Inr (bal, s) \<and> s \<le> mx"
    by (auto simp: valid_extension_def replay_chain_append)
  ultimately show ?thesis by (auto simp: chain)
qed

lemma valid_chain_extend:
  assumes "validate_chain C E cfg reward mx chain = Inr Valid"
  shows "validate_chain C E cfg reward mx (chain @ [b]) = Inr Valid \<longleftrightarrow>
    validate_block_against_chain C E cfg reward mx b chain = Inr Valid"
proof -
  obtain g bs where chain: "chain = g # bs" using assms by (cases chain) (auto simp: validate_chain_def)
  show ?thesis
    using assms validate_chain_snoc [of chain C E cfg reward mx b]
    by (auto simp: chain validate_chain_Valid validate_block_against_chain_Valid)
qed

lemma valid_extension_prefix_state:
  "valid_extension C E cfg reward mx chain b \<Longrightarrow> 0 \<le> mx \<Longrightarrow>
   \<exists>bal s. replay_chain C reward mx chain ([], 0) = Inr (bal, s) \<and> s \<le> mx"
  using replay_chain_ledger ledger_invar_start
  by (fastforce simp: valid_extension_def ledger_invar_def)

lemma valid_chain_prefix:
  assumes "validate_chain C E cfg reward mx (chain @ rest) = Inr Valid" "chain \<noteq> []" "0 \<le> mx"
  shows "validate_chain C E cfg reward mx chain = Inr Valid"
  using assms
proof (induction rest rule: rev_induct)
  case (snoc b rest)
  let ?c = "chain @ rest"
  have f: "validate_block_structure C (hd ?c) None MAX_SUPPLY_BASE_UNITS = Valid"
    "validate_links C E cfg reward mx [hd ?c] (tl ?c) = Inr Valid"
    "valid_extension C E cfg reward mx ?c b"
    using snoc.prems validate_chain_snoc [of ?c C E cfg reward mx b] by auto
  obtain g bs where c: "?c = g # bs" using snoc.prems(2) by (cases ?c) auto
  have "validate_chain C E cfg reward mx ?c = Inr Valid"
    using f valid_extension_prefix_state [OF f(3) assms(3)] unfolding c validate_chain_Valid by simp
  then show ?case using snoc.IH snoc.prems by blast
qed simp

lemma valid_chain_block:
  assumes "validate_chain C E cfg reward mx (p @ b # rest) = Inr Valid" "p \<noteq> []" "0 \<le> mx"
  shows "valid_extension C E cfg reward mx p b"
proof -
  have "validate_chain C E cfg reward mx (p @ [b]) = Inr Valid"
    using valid_chain_prefix [of C E cfg reward mx "p @ [b]" rest] assms by simp
  then show ?thesis using validate_chain_snoc [OF assms(2)] by blast
qed

lemma valid_chain_consecutive:
  assumes "validate_chain C E cfg reward mx chain = Inr Valid" "0 \<le> mx" "Suc i < length chain"
  shows "valid_extension C E cfg reward mx (take (Suc i) chain) (chain ! Suc i)"
    "last (take (Suc i) chain) = chain ! i"
proof -
  have "take (Suc i) chain @ chain ! Suc i # drop (Suc (Suc i)) chain = chain"
    using assms(3) by (simp add: id_take_nth_drop [symmetric])
  moreover have "take (Suc i) chain \<noteq> []" using assms(3) by auto
  ultimately show "valid_extension C E cfg reward mx (take (Suc i) chain) (chain ! Suc i)"
    using valid_chain_block assms(1,2) by metis
  show "last (take (Suc i) chain) = chain ! i"
    using assms(3) by (simp add: take_Suc_conv_app_nth)
qed

section \<open>Issuance\<close>

definition mined_blocks :: "block list \<Rightarrow> int" where
  "mined_blocks chain = int (length (filter (\<lambda>b. index b \<noteq> 0) chain))"

text \<open>The supply is determined by the number of mined blocks alone.\<close>
lemma replay_chain_supply:
  assumes "replay_chain C reward mx chain ([], 0) = Inr (bal, s)" "0 \<le> mx" "0 \<le> reward"
  shows "s = min (mined_blocks chain * reward) mx"
  using assms
proof (induction chain arbitrary: bal s rule: rev_induct)
  case (snoc b chain)
  obtain bal0 s0 where st: "replay_chain C reward mx chain ([], 0) = Inr (bal0, s0)"
    "replay_block C reward mx b (bal0, s0) = Inr (bal, s)"
    using snoc.prems(1) by (auto simp: replay_chain_append split: sum.splits)
  note IH = snoc.IH [OF st(1) snoc.prems(2,3)]
  show ?case
  proof (cases "index b = 0")
    case True
    then show ?thesis using IH st(2) by (simp add: mined_blocks_def)
  next
    case False
    then have "s = s0 + min reward (mx - s0)" "0 < min reward (mx - s0)"
      using replay_block_Inr [OF st(2) False] by auto
    moreover have "mined_blocks (chain @ [b]) * reward = mined_blocks chain * reward + reward"
      using False by (simp add: mined_blocks_def algebra_simps)
    ultimately show ?thesis using IH by linarith
  qed
qed (simp add: mined_blocks_def)

lemma replay_chain_coinbase_total:
  assumes "replay_chain C reward mx chain (bal0, s0) = Inr (bal, s)"
  shows "s = s0 + sum_list (map (\<lambda>b. sum_list (map amount_base_units (filter is_coinbase (transactions b))))
    (filter (\<lambda>b. index b \<noteq> 0) chain))"
  using assms
proof (induction chain arbitrary: bal0 s0)
  case (Cons b chain)
  obtain bal1 s1 where st: "replay_block C reward mx b (bal0, s0) = Inr (bal1, s1)"
    "replay_chain C reward mx chain (bal1, s1) = Inr (bal, s)"
    using Cons.prems by (auto split: sum.splits)
  show ?case
  proof (cases "index b = 0")
    case True
    with Cons.IH [OF st(2)] st(1) show ?thesis by simp
  next
    case False
    from replay_block_Inr [OF st(1) False] Cons.IH [OF st(2)] False show ?thesis by auto
  qed
qed simp

text \<open>Once the cap is reached no block extends the chain.\<close>
lemma no_block_after_cap:
  assumes "replay_chain C reward mx chain ([], 0) = Inr (bal, mx)"
  shows "validate_block_against_chain C E cfg reward mx b chain \<noteq> Inr Valid"
  using assms by (auto simp: validate_block_against_chain_Valid valid_extension_def)

section \<open>Links\<close>

lemma chain_work_append: "chain_work (xs @ ys) = chain_work xs + chain_work ys"
  by (simp add: chain_work_def)

lemma chain_work_nonneg: "0 \<le> chain_work chain"
  by (induction chain) (auto simp: chain_work_def)

lemma chain_work_Cons_pos [simp]: "0 < chain_work (b # bs)"
  using chain_work_nonneg [of bs] by (simp add: chain_work_def add_pos_nonneg)

lemma valid_extension_sealed: "valid_extension C E cfg reward mx chain b \<Longrightarrow> sealed b"
  by (auto simp: valid_extension_def validate_block_structure_def sealed_def split: if_splits)

lemma valid_chain_sealed:
  assumes "validate_chain C E cfg reward mx chain = Inr Valid" "0 \<le> mx" "b \<in> set chain"
  shows "sealed b"
proof -
  obtain i where i: "i < length chain" "b = chain ! i" using assms(3) by (metis in_set_conv_nth)
  show ?thesis
  proof (cases i)
    case 0
    obtain g bs where "chain = g # bs" using assms(3) by (cases chain) auto
    with assms(1) i 0 show ?thesis
      by (auto simp: validate_chain_Valid validate_block_structure_def sealed_def split: if_splits)
  next
    case (Suc k)
    with valid_chain_consecutive(1) [OF assms(1,2)] i valid_extension_sealed show ?thesis by blast
  qed
qed

text \<open>Equal hashes at a height force equal headers at and below it, or exhibit a collision.\<close>
lemma valid_chains_agree:
  assumes a: "validate_chain C E cfg reward mx a = Inr Valid"
    and b: "validate_chain C' E' cfg' reward' mx' b = Inr Valid"
    and mx: "0 \<le> mx" "0 \<le> mx'"
    and "k < length a" "k < length b" "block_hash (a ! k) = block_hash (b ! k)" "i \<le> k"
  shows "same_header (a ! i) (b ! i) \<or> (\<exists>j. i \<le> j \<and> j \<le> k \<and> header_collision (a ! j) (b ! j))"
  using assms(5-8)
proof (induction k)
  case 0
  then have "sealed (a ! 0)" "sealed (b ! 0)"
    using valid_chain_sealed [OF a mx(1)] valid_chain_sealed [OF b mx(2)] by auto
  with 0 compute_hash_binds [of "a ! 0" "b ! 0"] show ?case by (auto simp: sealed_def)
next
  case (Suc k)
  have "sealed (a ! Suc k)" "sealed (b ! Suc k)"
    using Suc.prems valid_chain_sealed [OF a mx(1)] valid_chain_sealed [OF b mx(2)] by auto
  then have top: "same_header (a ! Suc k) (b ! Suc k) \<or> header_collision (a ! Suc k) (b ! Suc k)"
    using Suc.prems compute_hash_binds by (auto simp: sealed_def)
  show ?case
  proof (cases "header_collision (a ! Suc k) (b ! Suc k) \<or> i = Suc k")
    case True
    with top Suc.prems show ?thesis by auto
  next
    case False
    then have "previous_hash (a ! Suc k) = previous_hash (b ! Suc k)"
      using top by (simp add: same_header_def)
    then have "block_hash (a ! k) = block_hash (b ! k)"
      using valid_chain_consecutive [OF a mx(1) Suc.prems(1)]
        valid_chain_consecutive [OF b mx(2) Suc.prems(2)]
      by (simp add: valid_extension_def)
    then have "same_header (a ! i) (b ! i) \<or> (\<exists>j. i \<le> j \<and> j \<le> k \<and> header_collision (a ! j) (b ! j))"
      using Suc.IH Suc.prems False by simp
    then show ?thesis using le_SucI by blast
  qed
qed

lemma valid_chain_index:
  assumes "validate_chain C E cfg reward mx chain = Inr Valid" "0 \<le> mx" "i < length chain"
  shows "index (chain ! i) = index (chain ! 0) + int i"
  using assms(3)
proof (induction i)
  case (Suc i)
  with valid_chain_consecutive [OF assms(1,2), of i] show ?case by (simp add: valid_extension_def)
qed simp

lemma valid_chain_timestamps:
  assumes "validate_chain C E cfg reward mx chain = Inr Valid" "0 \<le> mx" "i < j" "j < length chain"
  shows "num_val (blk_timestamp (chain ! i)) < num_val (blk_timestamp (chain ! j))"
  using assms(3,4)
proof (induction j)
  case (Suc j)
  from valid_chain_consecutive [OF assms(1,2) Suc.prems(2)]
  have "num_val (blk_timestamp (chain ! j)) < num_val (blk_timestamp (chain ! Suc j))"
    by (simp add: valid_extension_def)
  with Suc show ?case by (cases "i = j") auto
qed simp

lemma valid_chain_nonempty: "validate_chain C E cfg reward mx chain = Inr Valid \<Longrightarrow> chain \<noteq> []"
  by (auto simp: validate_chain_def)

lemma valid_chain_replay:
  "validate_chain C E cfg reward mx chain = Inr Valid \<Longrightarrow>
   \<exists>bal s. replay_chain C reward mx chain ([], 0) = Inr (bal, s) \<and> s \<le> mx"
  by (cases chain) (auto simp: validate_chain_def [of _ _ _ _ _ "[]"] validate_chain_Valid)

section \<open>Properties\<close>

text \<open>C5: whenever the replay of a chain succeeds, no balance is negative, the balances add up to
  the supply, the supply is the sum of the coinbase amounts of the mined blocks and does not
  exceed the cap.\<close>
theorem replay_conserves_supply:
  assumes "state_from_chain C chain reward max_supply = (bal, supply, None)" "0 \<le> max_supply"
  shows "(\<forall>a. 0 \<le> dict_get a 0 bal) \<and> sum_list (map snd bal) = supply \<and>
    supply = sum_list (map (\<lambda>b. sum_list (map amount_base_units (filter is_coinbase (transactions b))))
      (filter (\<lambda>b. index b \<noteq> 0) chain)) \<and>
    0 \<le> supply \<and> supply \<le> max_supply"
proof -
  have r: "replay_chain C reward max_supply chain ([], 0) = Inr (bal, supply)"
    using assms(1) by (simp add: state_from_chain_None)
  have "ledger_invar max_supply (bal, supply)"
    by (rule replay_chain_ledger [OF r ledger_invar_start [OF assms(2)]])
  then show ?thesis
    using replay_chain_coinbase_total [OF r] by (simp add: ledger_invar_def solvent_def)
qed

lemma sample_replay:
  "state_from_chain C [sample_block] 5 100 = ([(derive_address ''aa'', 5)], 5, None)"
proof -
  have "is_coinbase sample_coinbase" "amount_base_units sample_coinbase = 5"
    "receiver sample_coinbase = derive_address ''aa''"
    by (simp_all add: sample_coinbase_def is_coinbase_def Let_def)
  then show ?thesis by (simp add: state_from_chain_def replay_block_def credit_def Let_def)
qed

theorem replay_conserves_supply_witness:
  "(\<forall>a. 0 \<le> dict_get a 0 [(derive_address ''aa'', 5 :: int)]) \<and>
   sum_list (map snd [(derive_address ''aa'', 5 :: int)]) = 5"
  using replay_conserves_supply [OF sample_replay [of sample_crypto]] by simp

text \<open>C34: the issuance schedule: after \<open>n\<close> mined blocks the supply of a chain that replays is
  \<open>min (n * reward) cap\<close>, whatever the transactions were.\<close>
theorem issuance_schedule:
  assumes "state_from_chain C chain reward max_supply = (bal, supply, None)" "0 \<le> max_supply" "0 \<le> reward"
  shows "supply = min (mined_blocks chain * reward) max_supply"
  using replay_chain_supply assms by (simp add: state_from_chain_None)

theorem issuance_schedule_witness: "(5::int) = min (mined_blocks [sample_block] * 5) 100"
  using issuance_schedule [OF sample_replay [of sample_crypto]] by simp

text \<open>C6: accepting blocks one by one and validating the whole chain agree: a valid chain extended by
  a block is valid exactly when the block is valid against the chain, and every non-empty
  prefix of a valid chain is valid.\<close>
theorem incremental_validation:
  assumes "validate_chain C E cfg reward mx chain = Inr Valid" "0 \<le> mx"
  shows "(validate_chain C E cfg reward mx (chain @ [b]) = Inr Valid \<longleftrightarrow>
      validate_block_against_chain C E cfg reward mx b chain = Inr Valid) \<and>
    (\<forall>n. 0 < n \<longrightarrow> validate_chain C E cfg reward mx (take n chain) = Inr Valid)"
proof (intro conjI allI impI)
  show "validate_chain C E cfg reward mx (chain @ [b]) = Inr Valid \<longleftrightarrow>
      validate_block_against_chain C E cfg reward mx b chain = Inr Valid"
    by (rule valid_chain_extend [OF assms(1)])
  fix n :: nat
  assume "0 < n"
  then have "take n chain \<noteq> []" using valid_chain_nonempty [OF assms(1)] by (cases n; cases chain) auto
  then show "validate_chain C E cfg reward mx (take n chain) = Inr Valid"
    using valid_chain_prefix [of C E cfg reward mx "take n chain" "drop n chain"] assms by simp
qed

definition sample_genesis :: block where
  "sample_genesis = recompute (sample_block\<lparr>index := 0, transactions := []\<rparr>)"

lemma sample_genesis_valid:
  "0 \<le> mx \<Longrightarrow> validate_chain C E cfg reward mx [sample_genesis] = Inr Valid"
proof -
  have "sealed sample_genesis" "index sample_genesis = 0" by (simp_all add: sample_genesis_def)
  then have "validate_block_structure C sample_genesis None MAX_SUPPLY_BASE_UNITS = Valid"
    by (simp add: validate_block_structure_def sealed_def)
  with \<open>index sample_genesis = 0\<close> show "0 \<le> mx \<Longrightarrow> ?thesis" by (simp add: validate_chain_Valid)
qed

theorem incremental_validation_witness:
  "validate_chain sample_crypto ProofOfWorkConsensus (ConsensusConfig Map.empty) 5 100 (take 1 [sample_genesis]) = Inr Valid"
  using incremental_validation [OF sample_genesis_valid, of 100 sample_crypto ProofOfWorkConsensus
      "ConsensusConfig Map.empty" 5 sample_block, THEN conjunct2, rule_format, of 1] by simp

text \<open>C7: tamper evidence: two valid chains, of any two networks, that have the same hash at some
  height have the same headers at every height up to it, unless two of the headers collide
  under SHA-256.\<close>
theorem tip_hash_binds_history:
  assumes "validate_chain C E cfg reward mx a = Inr Valid" "validate_chain C' E' cfg' reward' mx' b = Inr Valid"
    and "0 \<le> mx" "0 \<le> mx'" "k < length a" "k < length b" "block_hash (a ! k) = block_hash (b ! k)"
  shows "(\<forall>i \<le> k. same_header (a ! i) (b ! i)) \<or> (\<exists>j \<le> k. header_collision (a ! j) (b ! j))"
  using valid_chains_agree [OF assms] by blast

theorem tip_hash_binds_history_witness:
  "(\<forall>i \<le> (0::nat). same_header ([sample_genesis] ! i) ([sample_genesis] ! i)) \<or>
   (\<exists>j \<le> (0::nat). header_collision ([sample_genesis] ! j) ([sample_genesis] ! j))"
  by (rule tip_hash_binds_history
      [OF sample_genesis_valid [of 100 sample_crypto ProofOfWorkConsensus "ConsensusConfig Map.empty" 5]
          sample_genesis_valid [of 100 sample_crypto ProofOfWorkConsensus "ConsensusConfig Map.empty" 5]])
    simp_all

text \<open>the chain stops at the cap: once the replayed supply has reached it, no block at all is
  accepted, so no transfer can be confirmed any more.\<close>
theorem chain_stops_at_cap:
  assumes "state_from_chain C chain reward mx = (bal, mx, None)"
  shows "validate_block_against_chain C E cfg reward mx b chain \<noteq> Inr Valid"
  using no_block_after_cap assms by (simp add: state_from_chain_None)

theorem chain_stops_at_cap_witness:
  "validate_block_against_chain sample_crypto ProofOfWorkConsensus (ConsensusConfig Map.empty) 5 5
     sample_block [sample_block] \<noteq> Inr Valid"
proof (rule chain_stops_at_cap)
  have "is_coinbase sample_coinbase" "amount_base_units sample_coinbase = 5"
    "receiver sample_coinbase = derive_address ''aa''"
    by (simp_all add: sample_coinbase_def is_coinbase_def Let_def)
  then show "state_from_chain sample_crypto [sample_block] 5 5 = ([(derive_address ''aa'', 5)], 5, None)"
    by (simp add: state_from_chain_def replay_block_def credit_def Let_def)
qed

end
