(* ===== verification/Mempool.thy ===== *)
theory Mempool
  imports Transaction Pydict
begin

text \<open>
  \<open>blockchain/mempool.py\<close>: the pool of pending transactions, a \<open>dict\<close> from transaction hash to
  transaction.
\<close>

type_synonym mempool = "(string, transaction) pydict"

definition Mempool_new :: mempool where
  "Mempool_new = []"

definition add_transaction :: "crypto \<Rightarrow> transaction \<Rightarrow> mempool \<Rightarrow> bool \<times> mempool" where
  "add_transaction C tx m =
     (if tx_hash tx \<in> fst ` set m then (False, m)
      else if \<not> verify C tx then (False, m)
      else (True, dict_set (tx_hash tx) tx m))"

definition remove_transactions :: "string list \<Rightarrow> mempool \<Rightarrow> mempool" where
  "remove_transactions hs m = fold dict_pop hs m"

definition get_transaction :: "string \<Rightarrow> mempool \<Rightarrow> transaction option" where
  "get_transaction h m = map_of m h"

text \<open>\<open>sorted\<close> is stable, and so is \<open>sort_key\<close>.\<close>

definition get_pending :: "int option \<Rightarrow> mempool \<Rightarrow> transaction list" where
  "get_pending limit m =
     (let ordered = sort_key (\<lambda>tx. num_val (tx_timestamp tx)) (dict_values m)
      in case limit of None \<Rightarrow> ordered | Some k \<Rightarrow> slice_to k ordered)"

definition pending_spend_for :: "string \<Rightarrow> mempool \<Rightarrow> int" where
  "pending_spend_for addr m =
     sum_list (map amount_base_units (filter (\<lambda>tx. sender tx = addr) (dict_values m)))"

definition mempool_size :: "mempool \<Rightarrow> int" where
  "mempool_size m = int (length m)"

definition mempool_clear :: "mempool \<Rightarrow> mempool" where
  "mempool_clear m = []"

definition mempool_contains :: "string \<Rightarrow> mempool \<Rightarrow> bool" where
  "mempool_contains h m \<longleftrightarrow> h \<in> fst ` set m"

section \<open>Invariant\<close>

definition mempool_invar :: "crypto \<Rightarrow> mempool \<Rightarrow> bool" where
  "mempool_invar C m \<longleftrightarrow>
     dict_invar m \<and> list_all (\<lambda>(h, tx). tx_hash tx = h \<and> verify C tx) m"

lemma mempool_invar_new: "mempool_invar C Mempool_new"
  by (simp add: mempool_invar_def Mempool_new_def dict_invar_def)

lemma mempool_invar_add:
  "mempool_invar C m \<Longrightarrow> add_transaction C tx m = (ok, m') \<Longrightarrow> mempool_invar C m'"
  using pdict.invar_put [of m "tx_hash tx" tx]
  by (auto simp: mempool_invar_def add_transaction_def dict_set_new split: if_splits)

lemma mempool_invar_remove: "mempool_invar C m \<Longrightarrow> mempool_invar C (remove_transactions hs m)"
  by (auto simp: mempool_invar_def remove_transactions_def pdict.invar_del_all list_all_iff
      set_dict_pop_all)

lemma mempool_values_verify: "mempool_invar C m \<Longrightarrow> tx \<in> set (dict_values m) \<Longrightarrow> verify C tx"
  by (auto simp: mempool_invar_def list_all_iff dict_values_def)

section \<open>Behaviour\<close>

lemma add_transaction_iff:
  "add_transaction C tx m = (True, m') \<longleftrightarrow>
     \<not> mempool_contains (tx_hash tx) m \<and> verify C tx \<and> m' = m @ [(tx_hash tx, tx)]"
  by (auto simp: add_transaction_def mempool_contains_def dict_set_new)

lemma add_transaction_rejected: "add_transaction C tx m = (False, m') \<Longrightarrow> m' = m"
  by (auto simp: add_transaction_def split: if_splits)

lemma pending_spend_add:
  "add_transaction C tx m = (True, m') \<Longrightarrow>
   pending_spend_for a m' = pending_spend_for a m + (if sender tx = a then amount_base_units tx else 0)"
  by (auto simp: add_transaction_iff pending_spend_for_def dict_values_def)

lemma get_transaction_remove:
  "get_transaction h (remove_transactions hs m) =
     (if h \<in> set hs then None else get_transaction h m)"
  by (simp add: get_transaction_def remove_transactions_def pdict.lookup_del_all)

lemma sum_list_filter_le:
  "(\<And>x. x \<in> set xs \<Longrightarrow> 0 \<le> f x) \<Longrightarrow> sum_list (map f (filter P xs)) \<le> (sum_list (map f xs) :: int)"
  by (induction xs) (auto intro: add_increasing)

lemma pending_spend_remove_le:
  assumes "mempool_invar C m"
  shows "pending_spend_for a (remove_transactions hs m) \<le> pending_spend_for a m"
proof -
  let ?k = "\<lambda>kv. fst kv \<notin> set hs"
  have "dict_values (remove_transactions hs m) = map snd (filter ?k m)"
    by (simp add: remove_transactions_def fold_dict_pop dict_values_def)
  then have "pending_spend_for a (remove_transactions hs m) =
      sum_list (map (amount_base_units \<circ> snd) (filter ?k (filter (\<lambda>kv. sender (snd kv) = a) m)))"
    by (simp add: pending_spend_for_def filter_map comp_def conj_commute)
  also have "\<dots> \<le> sum_list (map (amount_base_units \<circ> snd) (filter (\<lambda>kv. sender (snd kv) = a) m))"
    by (rule sum_list_filter_le)
      (use mempool_values_verify [OF assms] verify_facts(1) in \<open>force simp: dict_values_def\<close>)
  also have "\<dots> = pending_spend_for a m"
    by (simp add: pending_spend_for_def dict_values_def filter_map comp_def)
  finally show ?thesis .
qed

lemma get_pending_mset: "mset (get_pending None m) = mset (dict_values m)"
  by (simp add: get_pending_def)

lemma get_pending_sorted: "sorted (map (\<lambda>tx. num_val (tx_timestamp tx)) (get_pending None m))"
  by (simp add: get_pending_def)

lemma get_pending_limit: "get_pending (Some k) m = slice_to k (get_pending None m)"
  by (simp add: get_pending_def)

lemma set_get_pending: "set (get_pending limit m) \<subseteq> set (dict_values m)"
  using set_slice_to by (cases limit) (fastforce simp: get_pending_def Let_def)+

section \<open>Properties\<close>

text \<open>\<open>get_pending\<close> returns every pending transaction once, oldest first, equal timestamps in the
  order of arrival, and with a limit the first so many of that list.\<close>
theorem pending_order:
  "mset (get_pending None m) = mset (dict_values m) \<and>
   sorted (map (\<lambda>tx. num_val (tx_timestamp tx)) (get_pending None m)) \<and>
   filter (\<lambda>tx. num_val (tx_timestamp tx) = t) (get_pending None m) =
     filter (\<lambda>tx. num_val (tx_timestamp tx) = t) (dict_values m) \<and>
   get_pending (Some k) m = slice_to k (get_pending None m)"
  using get_pending_mset get_pending_sorted get_pending_limit
  by (auto simp: get_pending_def sort_key_stable)

end
