(* ===== verification/Mining.thy ===== *)
theory Mining
  imports Consensus Mempool
begin

text \<open>
  \<open>blockchain/mining.py\<close>: assembling a block from the pool and a coinbase, and mining it with the
  engine.
\<close>

definition MAX_TRANSACTIONS_PER_BLOCK :: int where
  "MAX_TRANSACTIONS_PER_BLOCK = 500"

record miner =
  miner_consensus :: engine
  miner_block_reward :: int

definition mine_block ::
  "int \<Rightarrow> miner \<Rightarrow> int \<Rightarrow> string \<Rightarrow> mempool \<Rightarrow> string \<Rightarrow> int \<Rightarrow> int \<Rightarrow> int option \<Rightarrow> int option \<Rightarrow>
   (block \<times> string list) result" where
  "mine_block now M idx prev pool miner_address d max_transactions reward_opt ts_opt =
     (let selected = get_pending (Some max_transactions) pool;
          reward = (case reward_opt of None \<Rightarrow> miner_block_reward M | Some r \<Rightarrow> r);
          mine_timestamp = (case ts_opt of None \<Rightarrow> now | Some t \<Rightarrow> t)
      in (case mk_Transaction now COINBASE_SENDER miner_address None (Some (PyInt mine_timestamp))
                 None None [] (Some (PInt reward)) of
            Inl e \<Rightarrow> Inl e
          | Inr coinbase_tx \<Rightarrow>
              let b = post_init
                    \<lparr>index = idx, previous_hash = prev, transactions = coinbase_tx # selected,
                     blk_timestamp = PyInt mine_timestamp, nonce = 0, difficulty = 0,
                     blk_merkle_root = [], block_hash = []\<rparr>
              in (case e_mine (miner_consensus M) b d of
                    Inl e \<Rightarrow> Inl e
                  | Inr mined \<Rightarrow> Inr (mined, map tx_hash selected))))"

text \<open>The coinbase the miner builds.\<close>

definition coinbase_for :: "string \<Rightarrow> int \<Rightarrow> int \<Rightarrow> transaction" where
  "coinbase_for miner_address reward ts =
     (let tx = \<lparr>sender = COINBASE_SENDER, receiver = miner_address, amount_base_units = reward,
                tx_timestamp = PyInt ts, sender_public_key = None, signature = None, tx_hash = []\<rparr>
      in tx\<lparr>tx_hash := tx_compute_hash tx\<rparr>)"

lemma coinbase_for_fields [simp]:
  "sender (coinbase_for a r t) = COINBASE_SENDER" "receiver (coinbase_for a r t) = a"
  "amount_base_units (coinbase_for a r t) = r" "tx_timestamp (coinbase_for a r t) = PyInt t"
  "sender_public_key (coinbase_for a r t) = None" "signature (coinbase_for a r t) = None"
  "is_coinbase (coinbase_for a r t)"
  by (simp_all add: coinbase_for_def Let_def is_coinbase_def)

lemma coinbase_for_hash [simp]: "tx_hash (coinbase_for a r t) = tx_compute_hash (coinbase_for a r t)"
  by (simp add: coinbase_for_def Let_def tx_compute_hash_def hash_payload_def signing_payload_def)

lemma coinbase_for_verifies:
  "0 < r \<Longrightarrow> r \<le> MAX_SUPPLY_BASE_UNITS \<Longrightarrow> is_valid_address a \<Longrightarrow> verify C (coinbase_for a r t)"
  by (simp add: verify_def validate_base_units_def)

context consensus_engine
begin

text \<open>Any engine that keeps the contract yields a mined block of the assembled content.\<close>
lemma mine_block_content:
  assumes "mine_block now M idx prev pool a d k (Some reward) (Some ts) = Inr (b, hs)"
    and "miner_consensus M = E"
  shows "index b = idx" "previous_hash b = prev" "blk_timestamp b = PyInt ts" "difficulty b = d"
    "sealed b" "e_validate E b d"
    "transactions b = coinbase_for a reward ts # get_pending (Some k) pool"
    "hs = map tx_hash (get_pending (Some k) pool)"
proof -
  let ?b = "post_init \<lparr>index = idx, previous_hash = prev,
      transactions = coinbase_for a reward ts # get_pending (Some k) pool,
      blk_timestamp = PyInt ts, nonce = 0, difficulty = 0, blk_merkle_root = [], block_hash = []\<rparr>"
  have m: "e_mine E ?b d = Inr b" and hs: "hs = map tx_hash (get_pending (Some k) pool)"
    using assms
    by (auto simp: mine_block_def mk_Transaction_base_units coinbase_for_def Let_def split: sum.splits)
  from mine_content [OF m] mine_difficulty [OF m] mine_sealed [OF m] mine_validates [OF m] hs
  show "index b = idx" "previous_hash b = prev" "blk_timestamp b = PyInt ts" "difficulty b = d"
    "sealed b" "e_validate E b d"
    "transactions b = coinbase_for a reward ts # get_pending (Some k) pool"
    "hs = map tx_hash (get_pending (Some k) pool)"
    by simp_all
qed

end

end
