(* ===== verification/Storage.thy ===== *)
theory Storage
  imports Settings Pydict
begin

text \<open>
  \<open>blockchain/storage.py\<close>: the tables of the database and the operations of \<open>Storage\<close>.  A table
  is the dict of its rows by primary key, in insertion order; an \<open>INSERT\<close> that violates a
  primary-key or \<open>UNIQUE\<close> constraint raises, and an exception inside \<open>engine.begin()\<close> leaves
  the tables as they were.  A \<open>Float\<close> column gives back a float.  The JSON text of a block's
  transactions is represented by the value it encodes.
\<close>

record block_row =
  row_previous_hash :: string
  row_hash :: string
  row_timestamp :: pynum
  row_nonce :: int
  row_difficulty :: int
  row_merkle_root :: string
  row_transactions :: "(string \<times> pyval) list list"

record tx_row =
  row_block_index :: int
  row_sender :: string
  row_receiver :: string
  row_amount :: int
  row_tx_timestamp :: pynum
  row_public_key :: "string option"
  row_signature :: "string option"

record peer_row =
  peer_node_id :: "string option"
  peer_status :: string
  peer_last_seen :: "rat option"
  registered_at :: rat

record credential_row =
  cred_node_id :: string
  cred_public_key_hex :: string
  cred_trusted :: int
  authenticated_at :: rat

record storage =
  blocks_table :: "(int, block_row) pydict"
  transactions_table :: "(string, tx_row) pydict"
  wallets_table :: "(string, int) pydict"
  peers_table :: "(string, peer_row) pydict"
  node_identity_table :: "(string \<times> rat) list"
  p2p_identity_table :: "(string, string \<times> string) pydict"
  peer_credentials_table :: "(string, credential_row) pydict"

definition empty_storage :: storage where
  "empty_storage =
     \<lparr>blocks_table = [], transactions_table = [], wallets_table = [], peers_table = [],
      node_identity_table = [], p2p_identity_table = [], peer_credentials_table = []\<rparr>"

section \<open>Blocks\<close>

text \<open>A value written to a \<open>Float\<close> column.\<close>

definition float_column :: "pynum \<Rightarrow> pynum" where
  "float_column n = PyFloat (num_val n)"

definition insert_block_row :: "block \<Rightarrow> storage \<Rightarrow> storage result" where
  "insert_block_row b st =
     (case map_result tx_to_dict (transactions b) of
        Inl e \<Rightarrow> Inl StorageError
      | Inr ds \<Rightarrow>
          if index b \<in> fst ` set (blocks_table st) then Inl StorageError
          else if block_hash b \<in> (row_hash \<circ> snd) ` set (blocks_table st) then Inl StorageError
          else
            Inr (st\<lparr>blocks_table := dict_set (index b)
               \<lparr>row_previous_hash = previous_hash b, row_hash = block_hash b,
                row_timestamp = float_column (blk_timestamp b), row_nonce = nonce b,
                row_difficulty = difficulty b, row_merkle_root = blk_merkle_root b,
                row_transactions = ds\<rparr> (blocks_table st)\<rparr>))"

definition insert_tx_row :: "int \<Rightarrow> transaction \<Rightarrow> storage \<Rightarrow> storage result" where
  "insert_tx_row bi tx st =
     (if tx_hash tx \<in> fst ` set (transactions_table st) then Inl StorageError
      else
        Inr (st\<lparr>transactions_table := dict_set (tx_hash tx)
           \<lparr>row_block_index = bi, row_sender = sender tx, row_receiver = receiver tx,
            row_amount = amount_base_units tx, row_tx_timestamp = float_column (tx_timestamp tx),
            row_public_key = sender_public_key tx, row_signature = signature tx\<rparr>
           (transactions_table st)\<rparr>))"

fun insert_tx_rows :: "int \<Rightarrow> transaction list \<Rightarrow> storage \<Rightarrow> storage result" where
  "insert_tx_rows bi [] st = Inr st"
| "insert_tx_rows bi (tx # txs) st =
     (case insert_tx_row bi tx st of Inl e \<Rightarrow> Inl e | Inr st' \<Rightarrow> insert_tx_rows bi txs st')"

definition save_block :: "block \<Rightarrow> storage \<Rightarrow> storage result" where
  "save_block b st =
     (case insert_block_row b st of
        Inl e \<Rightarrow> Inl e
      | Inr st' \<Rightarrow> insert_tx_rows (index b) (transactions b) st')"

text \<open>The dict a row is read back as, and \<open>load_chain\<close>.\<close>

definition row_dict :: "int \<Rightarrow> block_row \<Rightarrow> (string \<times> pyval) list" where
  "row_dict i r =
     [(''index'', PInt i),
      (''previous_hash'', PStr (row_previous_hash r)),
      (''hash'', PStr (row_hash r)),
      (''timestamp'', PNum (row_timestamp r)),
      (''nonce'', PInt (row_nonce r)),
      (''difficulty'', PInt (row_difficulty r)),
      (''merkle_root'', PStr (row_merkle_root r)),
      (''transactions'', PList (map PDict (row_transactions r)))]"

definition load_chain :: "int \<Rightarrow> storage \<Rightarrow> block list result" where
  "load_chain now st =
     map_result (\<lambda>(i, r). blk_from_dict now (row_dict i r)) (sort_key fst (blocks_table st))"

definition storage_get_block :: "int \<Rightarrow> int \<Rightarrow> storage \<Rightarrow> block option result" where
  "storage_get_block now i st =
     (case map_of (blocks_table st) i of
        None \<Rightarrow> Inr None
      | Some r \<Rightarrow> map_sum id Some (blk_from_dict now (row_dict i r)))"

definition chain_length :: "storage \<Rightarrow> int" where
  "chain_length st = int (length (blocks_table st))"

section \<open>Wallet balance cache\<close>

definition compute_balance_from_history :: "string \<Rightarrow> storage \<Rightarrow> int" where
  "compute_balance_from_history addr st =
     (let rows = dict_values (transactions_table st);
          total_in = sum_list (map row_amount (filter (\<lambda>r. row_receiver r = addr) rows));
          total_out = sum_list (map row_amount (filter (\<lambda>r. row_sender r = addr) rows))
      in total_in - total_out)"

definition get_balance :: "string \<Rightarrow> storage \<Rightarrow> int" where
  "get_balance addr st =
     (case map_of (wallets_table st) addr of
        Some n \<Rightarrow> n
      | None \<Rightarrow> compute_balance_from_history addr st)"

definition apply_balance_delta :: "string \<Rightarrow> int \<Rightarrow> storage \<Rightarrow> storage" where
  "apply_balance_delta addr delta st =
     (case map_of (wallets_table st) addr of
        None \<Rightarrow> st\<lparr>wallets_table := dict_set addr delta (wallets_table st)\<rparr>
      | Some n \<Rightarrow> st\<lparr>wallets_table := dict_set addr (n + delta) (wallets_table st)\<rparr>)"

definition apply_tx :: "transaction \<Rightarrow> storage \<Rightarrow> storage" where
  "apply_tx tx st =
     apply_balance_delta (receiver tx) (amount_base_units tx)
       (if is_coinbase tx then st else apply_balance_delta (sender tx) (- amount_base_units tx) st)"

definition unapply_tx :: "transaction \<Rightarrow> storage \<Rightarrow> storage" where
  "unapply_tx tx st =
     apply_balance_delta (receiver tx) (- amount_base_units tx)
       (if is_coinbase tx then st else apply_balance_delta (sender tx) (amount_base_units tx) st)"

definition update_balances_for_block :: "block \<Rightarrow> storage \<Rightarrow> storage" where
  "update_balances_for_block b st = fold apply_tx (transactions b) st"

section \<open>Reorganisation\<close>

text \<open>Reversing the discarded blocks, most recent first.\<close>

fun reverse_txs :: "int \<Rightarrow> (string \<times> pyval) list list \<Rightarrow> storage \<Rightarrow> storage result" where
  "reverse_txs now [] st = Inr st"
| "reverse_txs now (d # ds) st =
     (case tx_from_dict now d of
        Inl e \<Rightarrow> Inl e
      | Inr tx \<Rightarrow> reverse_txs now ds (unapply_tx tx st))"

fun reverse_blocks :: "int \<Rightarrow> block_row list \<Rightarrow> storage \<Rightarrow> storage result" where
  "reverse_blocks now [] st = Inr st"
| "reverse_blocks now (r # rs) st =
     (case reverse_txs now (row_transactions r) st of
        Inl e \<Rightarrow> Inl e
      | Inr st' \<Rightarrow> reverse_blocks now rs st')"

text \<open>Writing the new blocks, with the balances of each transaction.\<close>

fun write_txs :: "int \<Rightarrow> transaction list \<Rightarrow> storage \<Rightarrow> storage result" where
  "write_txs bi [] st = Inr st"
| "write_txs bi (tx # txs) st =
     (case insert_tx_row bi tx st of
        Inl e \<Rightarrow> Inl e
      | Inr st' \<Rightarrow> write_txs bi txs (apply_tx tx st'))"

fun write_blocks :: "block list \<Rightarrow> storage \<Rightarrow> storage result" where
  "write_blocks [] st = Inr st"
| "write_blocks (b # bs) st =
     (case insert_block_row b st of
        Inl e \<Rightarrow> Inl e
      | Inr st' \<Rightarrow>
          (case write_txs (index b) (transactions b) st' of
             Inl e \<Rightarrow> Inl e
           | Inr st'' \<Rightarrow> write_blocks bs st''))"

definition reorganize_from :: "int \<Rightarrow> int \<Rightarrow> block list \<Rightarrow> storage \<Rightarrow> storage result" where
  "reorganize_from now fork_index new_blocks st =
     (let removed = rev (sort_key fst (filter (\<lambda>r. fst r \<ge> fork_index) (blocks_table st)))
      in case reverse_blocks now (map snd removed) st of
           Inl e \<Rightarrow> Inl StorageError
         | Inr st1 \<Rightarrow>
             let st2 = st1\<lparr>transactions_table :=
                   filter (\<lambda>r. \<not> row_block_index (snd r) \<ge> fork_index) (transactions_table st1)\<rparr>;
                 st3 = st2\<lparr>blocks_table := filter (\<lambda>r. \<not> fst r \<ge> fork_index) (blocks_table st2)\<rparr>
             in (case write_blocks new_blocks st3 of
                   Inl e \<Rightarrow> Inl StorageError
                 | Inr st4 \<Rightarrow> Inr st4))"

section \<open>Node identity, peers, credentials\<close>

text \<open>\<open>new_id\<close> is the fresh \<open>uuid4().hex\<close>, \<open>now\<close> the clock, \<open>fresh\<close> the generated key pair.\<close>

definition get_or_create_node_id :: "string \<Rightarrow> rat \<Rightarrow> storage \<Rightarrow> string \<times> storage" where
  "get_or_create_node_id new_id now st =
     (case node_identity_table st of
        (node_id, _) # _ \<Rightarrow> (node_id, st)
      | [] \<Rightarrow> (new_id, st\<lparr>node_identity_table := [(new_id, now)]\<rparr>))"

definition upsert_peer ::
  "rat \<Rightarrow> string \<Rightarrow> string option \<Rightarrow> string \<Rightarrow> rat option \<Rightarrow> storage \<Rightarrow> storage" where
  "upsert_peer now addr node_id status last_seen st =
     (case map_of (peers_table st) addr of
        None \<Rightarrow>
          st\<lparr>peers_table := dict_set addr
             \<lparr>peer_node_id = node_id, peer_status = status, peer_last_seen = last_seen,
              registered_at = now\<rparr> (peers_table st)\<rparr>
      | Some r \<Rightarrow>
          st\<lparr>peers_table := dict_set addr
             (r\<lparr>peer_status := status,
                peer_node_id := (case node_id of None \<Rightarrow> peer_node_id r | Some n \<Rightarrow> Some n),
                peer_last_seen := (case last_seen of None \<Rightarrow> peer_last_seen r | Some t \<Rightarrow> Some t)\<rparr>)
             (peers_table st)\<rparr>)"

definition list_peers :: "storage \<Rightarrow> (string \<times> peer_row) list" where
  "list_peers st = sort_key (\<lambda>r. - registered_at (snd r)) (peers_table st)"

definition get_peer :: "string \<Rightarrow> storage \<Rightarrow> peer_row option" where
  "get_peer addr st = map_of (peers_table st) addr"

definition peer_count :: "storage \<Rightarrow> int" where
  "peer_count st = int (length (peers_table st))"

definition remove_peer :: "string \<Rightarrow> storage \<Rightarrow> storage" where
  "remove_peer addr st = st\<lparr>peers_table := dict_pop addr (peers_table st)\<rparr>"

definition get_or_create_p2p_identity ::
  "string \<times> string \<Rightarrow> string \<Rightarrow> storage \<Rightarrow> (string \<times> string) \<times> storage" where
  "get_or_create_p2p_identity fresh node_id st =
     (case map_of (p2p_identity_table st) node_id of
        Some keys \<Rightarrow> (keys, st)
      | None \<Rightarrow> (fresh, st\<lparr>p2p_identity_table := dict_set node_id fresh (p2p_identity_table st)\<rparr>))"

definition get_peer_credential :: "string \<Rightarrow> storage \<Rightarrow> credential_row option" where
  "get_peer_credential addr st = map_of (peer_credentials_table st) addr"

definition upsert_peer_credential ::
  "rat \<Rightarrow> string \<Rightarrow> string \<Rightarrow> string \<Rightarrow> bool \<Rightarrow> storage \<Rightarrow> storage" where
  "upsert_peer_credential now addr node_id pk trusted st =
     st\<lparr>peer_credentials_table := dict_set addr
        \<lparr>cred_node_id = node_id, cred_public_key_hex = pk, cred_trusted = (if trusted then 1 else 0),
         authenticated_at = now\<rparr> (peer_credentials_table st)\<rparr>"

definition is_peer_trusted :: "string \<Rightarrow> storage \<Rightarrow> bool" where
  "is_peer_trusted addr st =
     (case get_peer_credential addr st of None \<Rightarrow> False | Some c \<Rightarrow> cred_trusted c \<noteq> 0)"

section \<open>Rows\<close>

definition row_of :: "block \<Rightarrow> block_row" where
  "row_of b =
     \<lparr>row_previous_hash = previous_hash b, row_hash = block_hash b,
      row_timestamp = float_column (blk_timestamp b), row_nonce = nonce b,
      row_difficulty = difficulty b, row_merkle_root = blk_merkle_root b,
      row_transactions = map tx_dict (transactions b)\<rparr>"

definition tx_row_of :: "int \<Rightarrow> transaction \<Rightarrow> tx_row" where
  "tx_row_of bi tx =
     \<lparr>row_block_index = bi, row_sender = sender tx, row_receiver = receiver tx,
      row_amount = amount_base_units tx, row_tx_timestamp = float_column (tx_timestamp tx),
      row_public_key = sender_public_key tx, row_signature = signature tx\<rparr>"

definition block_entries :: "block list \<Rightarrow> (int, block_row) pydict" where
  "block_entries chain = map (\<lambda>b. (index b, row_of b)) chain"

definition tx_entries :: "block list \<Rightarrow> (string, tx_row) pydict" where
  "tx_entries chain =
     concat (map (\<lambda>b. map (\<lambda>tx. (tx_hash tx, tx_row_of (index b) tx)) (transactions b)) chain)"

text \<open>Blocks a row can hold: only the genesis timestamp is a float.\<close>

definition row_storable :: "block \<Rightarrow> bool" where
  "row_storable b \<longleftrightarrow> storable_block b \<and> (index b = 0 \<longrightarrow> is_float (blk_timestamp b))"

lemma row_dict_from_row:
  assumes "row_storable b"
  shows "blk_from_dict now (row_dict (index b) (row_of b)) = Inr b"
proof -
  let ?d = "row_dict (index b) (row_of b)"
  have st: "list_all storable_tx (transactions b)" "index b = 0 \<longleftrightarrow> is_float (blk_timestamp b)"
    "blk_merkle_root b \<noteq> []" "block_hash b \<noteq> []"
    using assms by (auto simp: row_storable_def storable_block_def)
  have txs: "transactions_of now ?d = Inr (transactions b)"
    using transactions_roundtrip(2) [OF st(1)]
    by (simp add: transactions_of_def row_dict_def row_of_def del: map_map)
  have ts: "blk_timestamp_of ?d = Inr (blk_timestamp b)"
    using st(2) by (cases "blk_timestamp b")
      (auto simp: blk_timestamp_of_def get_int0_def get_item_def row_dict_def row_of_def float_column_def)
  have "get_index ?d = Inr (index b)" "get_str ''previous_hash'' ?d = Inr (previous_hash b)"
    "get_int0 ''nonce'' ?d = Inr (nonce b)" "get_int0 ''difficulty'' ?d = Inr (difficulty b)"
    "get_str0 ''merkle_root'' ?d = Inr (blk_merkle_root b)" "get_str0 ''hash'' ?d = Inr (block_hash b)"
    by (simp_all add: get_index_def get_item_def get_str_def get_int0_def get_str0_def get_opt_str_def
        row_dict_def row_of_def)
  with txs ts st(3,4) show ?thesis by (simp add: blk_from_dict_def post_init_id)
qed

section \<open>Inserting\<close>

lemma insert_block_row_Inr:
  assumes "insert_block_row b st = Inr st'" "list_all storable_tx (transactions b)"
  shows "st' = st\<lparr>blocks_table := blocks_table st @ [(index b, row_of b)]\<rparr>"
    "index b \<notin> fst ` set (blocks_table st)"
    "block_hash b \<notin> (row_hash \<circ> snd) ` set (blocks_table st)"
  using assms(1) transactions_roundtrip(1) [OF assms(2)]
  by (auto simp: insert_block_row_def row_of_def dict_set_new split: if_splits)

lemma insert_tx_row_Inr:
  assumes "insert_tx_row bi tx st = Inr st'"
  shows "st' = st\<lparr>transactions_table := transactions_table st @ [(tx_hash tx, tx_row_of bi tx)]\<rparr>"
    "tx_hash tx \<notin> fst ` set (transactions_table st)"
  using assms by (auto simp: insert_tx_row_def tx_row_of_def dict_set_new split: if_splits)

lemma insert_tx_rows_Inr:
  assumes "insert_tx_rows bi txs st = Inr st'" "dict_invar (transactions_table st)"
  shows "st' = st\<lparr>transactions_table := transactions_table st'\<rparr> \<and>
    transactions_table st' = transactions_table st @ map (\<lambda>tx. (tx_hash tx, tx_row_of bi tx)) txs \<and>
    dict_invar (transactions_table st')"
  using assms
proof (induction txs arbitrary: st)
  case (Cons tx txs)
  then obtain st1 where st1: "insert_tx_row bi tx st = Inr st1" "insert_tx_rows bi txs st1 = Inr st'"
    by (auto split: sum.splits)
  note i = insert_tx_row_Inr [OF st1(1)]
  have "dict_invar (transactions_table st1)" using i Cons.prems(2) by (simp add: dict_invar_def)
  note IH = Cons.IH [OF st1(2) this]
  have "st' = st\<lparr>transactions_table := transactions_table st'\<rparr>"
    by (subst IH [THEN conjunct1], subst i(1)) simp
  with IH i(1) show ?case by simp
qed simp

section \<open>Balances\<close>

lemma apply_balance_delta_credit:
  "apply_balance_delta a n st = st\<lparr>wallets_table := credit a n (wallets_table st)\<rparr>"
  by (auto simp: apply_balance_delta_def credit_def dict_get_def split: option.splits)

definition touched_tx :: "transaction \<Rightarrow> string set" where
  "touched_tx tx = insert (receiver tx) (if is_coinbase tx then {} else {sender tx})"

text \<open>Applying a transaction changes the wallet table only, by what the transaction moves.\<close>

definition moves :: "(string \<Rightarrow> int) \<Rightarrow> string set \<Rightarrow> storage \<Rightarrow> storage \<Rightarrow> bool" where
  "moves f T st st' \<longleftrightarrow>
     st' = st\<lparr>wallets_table := wallets_table st'\<rparr> \<and>
     (dict_invar (wallets_table st) \<longrightarrow> dict_invar (wallets_table st')) \<and>
     (\<forall>a. dict_get a 0 (wallets_table st') = dict_get a 0 (wallets_table st) + f a) \<and>
     fst ` set (wallets_table st') = fst ` set (wallets_table st) \<union> T"

lemma wallets_only_trans:
  fixes st st' st'' :: storage
  assumes "st' = st\<lparr>wallets_table := wallets_table st'\<rparr>" "st'' = st'\<lparr>wallets_table := wallets_table st''\<rparr>"
  shows "st'' = st\<lparr>wallets_table := wallets_table st''\<rparr>"
  by (subst assms(2), subst assms(1)) simp

lemma moves_trans:
  assumes "moves f S st st'" "moves g T st' st''"
  shows "moves (\<lambda>a. f a + g a) (S \<union> T) st st''"
  using assms wallets_only_trans [of st' st st''] unfolding moves_def by (simp add: Un_assoc)

lemma moves_refl: "moves (\<lambda>_. 0) {} st st"
  by (simp add: moves_def)

lemma apply_tx_moves: "moves (\<lambda>a. tx_delta a tx) (touched_tx tx) st (apply_tx tx st)"
  by (auto simp: moves_def apply_tx_def apply_balance_delta_credit tx_delta_def touched_tx_def)

lemma unapply_tx_moves: "moves (\<lambda>a. - tx_delta a tx) (touched_tx tx) st (unapply_tx tx st)"
  by (auto simp: moves_def unapply_tx_def apply_balance_delta_credit tx_delta_def touched_tx_def)

lemma update_balances_moves:
  "moves (\<lambda>a. txs_delta a (transactions b)) (\<Union> (touched_tx ` set (transactions b)))
     st (update_balances_for_block b st)"
proof -
  have "moves (\<lambda>a. txs_delta a txs) (\<Union> (touched_tx ` set txs)) st (fold apply_tx txs st)" for txs
  proof (induction txs arbitrary: st)
    case Nil
    then show ?case using moves_refl by simp
  next
    case (Cons tx txs)
    from moves_trans [OF apply_tx_moves Cons.IH] show ?case by simp
  qed
  then show ?thesis by (simp add: update_balances_for_block_def)
qed

lemma reverse_txs_moves:
  assumes "list_all storable_tx txs"
  shows "\<exists>st'. reverse_txs now (map tx_dict txs) st = Inr st' \<and>
    moves (\<lambda>a. - txs_delta a txs) (\<Union> (touched_tx ` set txs)) st st'"
  using assms
proof (induction txs arbitrary: st)
  case Nil
  then show ?case using moves_refl by simp
next
  case (Cons tx txs)
  obtain st' where r: "reverse_txs now (map tx_dict txs) (unapply_tx tx st) = Inr st'"
    "moves (\<lambda>a. - txs_delta a txs) (\<Union> (touched_tx ` set txs)) (unapply_tx tx st) st'"
    using Cons by fastforce
  from moves_trans [OF unapply_tx_moves r(2)] r(1) Cons.prems show ?case
    by (auto simp: storable_tx_from_dict)
qed

section \<open>The tables hold a chain\<close>

definition chain_delta :: "string \<Rightarrow> block list \<Rightarrow> int" where
  "chain_delta a chain = sum_list (map (\<lambda>b. txs_delta a (transactions b)) chain)"

definition chain_touched :: "block list \<Rightarrow> string set" where
  "chain_touched chain = (\<Union>b \<in> set chain. \<Union> (touched_tx ` set (transactions b)))"

definition storage_holds :: "storage \<Rightarrow> block list \<Rightarrow> bool" where
  "storage_holds st chain \<longleftrightarrow>
     blocks_table st = block_entries chain \<and> transactions_table st = tx_entries chain \<and>
     dict_invar (blocks_table st) \<and> dict_invar (transactions_table st) \<and>
     dict_invar (wallets_table st) \<and> list_all row_storable chain \<and>
     (\<forall>a. dict_get a 0 (wallets_table st) = chain_delta a chain) \<and>
     chain_touched chain \<subseteq> fst ` set (wallets_table st)"

lemma chain_sums [simp]:
  "chain_delta a [] = 0" "chain_delta a (xs @ ys) = chain_delta a xs + chain_delta a ys"
  "chain_delta a (b # bs) = txs_delta a (transactions b) + chain_delta a bs"
  "chain_touched [] = {}" "chain_touched (xs @ ys) = chain_touched xs \<union> chain_touched ys"
  "chain_touched (b # bs) = \<Union> (touched_tx ` set (transactions b)) \<union> chain_touched bs"
  "block_entries (xs @ ys) = block_entries xs @ block_entries ys"
  "tx_entries (xs @ ys) = tx_entries xs @ tx_entries ys"
  "block_entries [b] = [(index b, row_of b)]"
  "tx_entries [b] = map (\<lambda>tx. (tx_hash tx, tx_row_of (index b) tx)) (transactions b)"
  "tx_entries [] = []" "block_entries [] = []"
  by (auto simp: chain_delta_def chain_touched_def block_entries_def tx_entries_def)

lemma storage_holds_empty: "storage_holds empty_storage []"
  by (simp add: storage_holds_def empty_storage_def dict_invar_def)

lemma row_storable_txs: "row_storable b \<Longrightarrow> list_all storable_tx (transactions b)"
  by (simp add: row_storable_def storable_block_def)

lemma storage_holds_save:
  assumes "storage_holds st chain" "row_storable b" "save_block b st = Inr st1"
  shows "storage_holds (update_balances_for_block b st1) (chain @ [b])"
proof -
  obtain st0 where st0: "insert_block_row b st = Inr st0"
    "insert_tx_rows (index b) (transactions b) st0 = Inr st1"
    using assms(3) by (auto simp: save_block_def split: sum.splits)
  note i = insert_block_row_Inr [OF st0(1) row_storable_txs [OF assms(2)]]
  have inv0: "dict_invar (transactions_table st0)" "dict_invar (blocks_table st0)"
    using assms(1) i by (auto simp: storage_holds_def dict_invar_def)
  note t = insert_tx_rows_Inr [OF st0(2) inv0(1)]
  have b1: "blocks_table st1 = blocks_table st0" "wallets_table st1 = wallets_table st0"
    by (subst t [THEN conjunct1], simp)+
  let ?st = "update_balances_for_block b st1"
  note m = update_balances_moves [of b st1, unfolded moves_def]
  have b2: "blocks_table ?st = blocks_table st1" "transactions_table ?st = transactions_table st1"
    by (subst m [THEN conjunct1], simp)+
  show ?thesis
    using assms(1,2) i(1) t m inv0 b1 b2 unfolding storage_holds_def by auto
qed

text \<open>Writing blocks during a reorganisation is saving each and updating the balances.\<close>
lemma apply_tx_wallets:
  "apply_tx tx st = st\<lparr>wallets_table := wallets_table (apply_tx tx st)\<rparr>"
  "wallets_table (apply_tx tx (st\<lparr>transactions_table := T\<rparr>)) = wallets_table (apply_tx tx st)"
  by (simp_all add: apply_tx_def apply_balance_delta_credit)

lemma insert_tx_row_apply_tx:
  "insert_tx_row bi t (apply_tx tx st) = map_sum id (apply_tx tx) (insert_tx_row bi t st)"
  by (simp add: insert_tx_row_def apply_tx_def apply_balance_delta_credit)

lemma write_txs_split:
  "write_txs bi txs st =
     (case insert_tx_rows bi txs st of Inl e \<Rightarrow> Inl e | Inr st' \<Rightarrow> Inr (fold apply_tx txs st'))"
proof -
  have rows: "insert_tx_rows bi ts (apply_tx tx st) = map_sum id (apply_tx tx) (insert_tx_rows bi ts st)"
    for tx ts and st :: storage
    by (induction ts arbitrary: st) (auto simp: insert_tx_row_apply_tx split: sum.splits)
  show ?thesis
    by (induction txs arbitrary: st) (auto simp: rows split: sum.splits)
qed

lemma write_blocks_save:
  "write_blocks (b # bs) st =
     (case save_block b st of Inl e \<Rightarrow> Inl e | Inr st' \<Rightarrow> write_blocks bs (update_balances_for_block b st'))"
  by (auto simp: save_block_def write_txs_split update_balances_for_block_def split: sum.splits)

lemma storage_holds_write:
  assumes "storage_holds st chain" "list_all row_storable bs" "write_blocks bs st = Inr st'"
  shows "storage_holds st' (chain @ bs)"
  using assms
proof (induction bs arbitrary: st chain)
  case (Cons b bs)
  obtain st1 where "save_block b st = Inr st1" "write_blocks bs (update_balances_for_block b st1) = Inr st'"
    using Cons.prems(3) unfolding write_blocks_save by (auto split: sum.splits)
  then show ?case using Cons.IH storage_holds_save Cons.prems(1,2) by fastforce
qed simp

lemma reverse_blocks_moves:
  assumes "list_all row_storable bs"
  shows "\<exists>st'. reverse_blocks now (map row_of bs) st = Inr st' \<and>
    moves (\<lambda>a. - chain_delta a bs) (chain_touched bs) st st'"
  using assms
proof (induction bs arbitrary: st)
  case Nil
  then show ?case using moves_refl by simp
next
  case (Cons b bs)
  obtain st1 where r1: "reverse_txs now (map tx_dict (transactions b)) st = Inr st1"
    "moves (\<lambda>a. - txs_delta a (transactions b)) (\<Union> (touched_tx ` set (transactions b))) st st1"
    using reverse_txs_moves row_storable_txs Cons.prems by fastforce
  obtain st' where r2: "reverse_blocks now (map row_of bs) st1 = Inr st'"
    "moves (\<lambda>a. - chain_delta a bs) (chain_touched bs) st1 st'"
    using Cons by fastforce
  have "row_transactions (row_of b) = map tx_dict (transactions b)" by (simp add: row_of_def)
  with moves_trans [OF r1(2) r2(2)] r1(1) r2(1) show ?case by simp
qed

lemma chain_delta_rev [simp]: "chain_delta a (rev bs) = chain_delta a bs"
  by (induction bs) auto

lemma chain_touched_rev [simp]: "chain_touched (rev bs) = chain_touched bs"
  by (simp add: chain_touched_def)

lemma set_tx_entries_index: "e \<in> set (tx_entries bs) \<Longrightarrow> row_block_index (snd e) \<in> index ` set bs"
  by (auto simp: tx_entries_def tx_row_of_def)

lemma filter_entries:
  assumes "\<forall>b \<in> set keep. index b < k" "\<forall>b \<in> set gone. k \<le> index b"
  shows "filter (\<lambda>r. \<not> k \<le> fst r) (block_entries (keep @ gone)) = block_entries keep"
    "filter (\<lambda>r. k \<le> fst r) (block_entries (keep @ gone)) = block_entries gone"
    "filter (\<lambda>r. \<not> k \<le> row_block_index (snd r)) (tx_entries (keep @ gone)) = tx_entries keep"
proof -
  show "filter (\<lambda>r. \<not> k \<le> fst r) (block_entries (keep @ gone)) = block_entries keep"
    "filter (\<lambda>r. k \<le> fst r) (block_entries (keep @ gone)) = block_entries gone"
    using assms by (auto simp: block_entries_def filter_map comp_def filter_empty_conv filter_id_conv
        not_le intro!: filter_True)
  have "\<forall>e \<in> set (tx_entries keep). \<not> k \<le> row_block_index (snd e)"
    "\<forall>e \<in> set (tx_entries gone). k \<le> row_block_index (snd e)"
    using set_tx_entries_index assms by fastforce+
  then show "filter (\<lambda>r. \<not> k \<le> row_block_index (snd r)) (tx_entries (keep @ gone)) = tx_entries keep"
    by simp
qed

text \<open>A reorganisation that returns leaves the tables holding the shared prefix and the new blocks.\<close>
lemma storage_holds_reorganize:
  assumes holds: "storage_holds st (keep @ gone)" and "list_all row_storable new"
    and below: "\<forall>b \<in> set keep. index b < k" and above: "\<forall>b \<in> set gone. k \<le> index b"
    and "sorted (map index gone)" and ok: "reorganize_from now k new st = Inr st'"
  shows "storage_holds st' (keep @ new)"
proof -
  have h: "blocks_table st = block_entries (keep @ gone)" "transactions_table st = tx_entries (keep @ gone)"
    "list_all row_storable keep" "list_all row_storable gone"
    "dict_invar (wallets_table st)" "\<forall>a. dict_get a 0 (wallets_table st) = chain_delta a (keep @ gone)"
    "chain_touched (keep @ gone) \<subseteq> fst ` set (wallets_table st)"
    "dict_invar (block_entries (keep @ gone))" "dict_invar (tx_entries (keep @ gone))"
    using holds unfolding storage_holds_def list_all_append by metis+
  note f = filter_entries [OF below above]
  have "sort_key fst (block_entries gone) = block_entries gone"
    by (rule sort_key_id_if_sorted) (use assms(5) in \<open>simp add: block_entries_def comp_def\<close>)
  then have removed: "map snd (rev (sort_key fst (filter (\<lambda>r. fst r \<ge> k) (blocks_table st)))) =
      map row_of (rev gone)"
    using f(2) by (simp add: h(1) block_entries_def rev_map comp_def)
  obtain st1 where r: "reverse_blocks now (map row_of (rev gone)) st = Inr st1"
    "moves (\<lambda>a. - chain_delta a gone) (chain_touched gone) st st1"
    using reverse_blocks_moves [of "rev gone" now st] h(4) by auto
  note m = r(2) [unfolded moves_def]
  have same: "blocks_table st1 = blocks_table st" "transactions_table st1 = transactions_table st"
    by (subst m [THEN conjunct1], simp)+
  let ?st3 = "st1\<lparr>transactions_table := tx_entries keep, blocks_table := block_entries keep\<rparr>"
  have "write_blocks new ?st3 = Inr st'"
    using ok removed r(1) f(1,3) same
    by (simp add: reorganize_from_def h(1,2) Let_def split: sum.splits)
  moreover have "storage_holds ?st3 keep"
    using h m by (auto simp: storage_holds_def dict_invar_def)
  ultimately show ?thesis using storage_holds_write assms(2) by blast
qed

text \<open>A node that restarts reads back the chain it stored.\<close>
lemma load_chain_holds:
  assumes "storage_holds st chain" "sorted (map index chain)"
  shows "load_chain now st = Inr chain"
proof -
  have h: "blocks_table st = block_entries chain" "list_all row_storable chain"
    using assms(1) by (simp_all add: storage_holds_def)
  have "sort_key fst (block_entries chain) = block_entries chain"
    by (rule sort_key_id_if_sorted) (use assms(2) in \<open>simp add: block_entries_def comp_def\<close>)
  moreover have "map_result (\<lambda>b. blk_from_dict now (row_dict (index b) (row_of b))) chain = Inr (map id chain)"
    using h(2) row_dict_from_row by (intro map_result_Inr_all) (auto simp: list_all_iff)
  ultimately show ?thesis
    by (simp add: load_chain_def h(1) block_entries_def map_result_map comp_def)
qed

text \<open>The balance read through the cache is the sum of the movements of the stored chain.\<close>
lemma untouched_history:
  assumes "a \<notin> chain_touched chain" "a \<noteq> COINBASE_SENDER"
  shows "filter (\<lambda>r. row_receiver r = a) (map snd (tx_entries chain)) = []"
    "filter (\<lambda>r. row_sender r = a) (map snd (tx_entries chain)) = []"
  using assms
  by (auto simp: filter_empty_conv tx_entries_def tx_row_of_def chain_touched_def touched_tx_def
      is_coinbase_def split: if_splits)

lemma get_balance_holds:
  assumes "storage_holds st chain" "a \<noteq> COINBASE_SENDER"
  shows "get_balance a st = chain_delta a chain"
proof (cases "map_of (wallets_table st) a")
  case None
  then have "a \<notin> chain_touched chain"
    using assms(1) by (auto simp: storage_holds_def map_of_eq_None_iff)
  moreover have "dict_get a 0 (wallets_table st) = 0" using None by (simp add: dict_get_def)
  moreover have "dict_get a 0 (wallets_table st) = chain_delta a chain" "transactions_table st = tx_entries chain"
    using assms(1) by (simp_all add: storage_holds_def)
  ultimately show ?thesis
    using None untouched_history [of a chain] assms(2)
    by (simp add: get_balance_def compute_balance_from_history_def dict_values_def)
next
  case (Some n)
  moreover have "dict_get a 0 (wallets_table st) = chain_delta a chain"
    using assms(1) by (simp add: storage_holds_def)
  ultimately show ?thesis by (simp add: get_balance_def dict_get_def)
qed

section \<open>When saving succeeds\<close>

lemma insert_tx_rows_ok:
  "dict_invar (transactions_table st) \<Longrightarrow>
   (\<exists>st'. insert_tx_rows bi txs st = Inr st') \<longleftrightarrow>
     distinct (map tx_hash txs) \<and> set (map tx_hash txs) \<inter> fst ` set (transactions_table st) = {}"
proof (induction txs arbitrary: st)
  case (Cons tx txs)
  show ?case
  proof (cases "tx_hash tx \<in> fst ` set (transactions_table st)")
    case True
    then show ?thesis by (auto simp: insert_tx_row_def)
  next
    case False
    then obtain st1 where i: "insert_tx_row bi tx st = Inr st1"
      "transactions_table st1 = transactions_table st @ [(tx_hash tx, tx_row_of bi tx)]"
      by (simp add: insert_tx_row_def tx_row_of_def dict_set_new)
    moreover have "dict_invar (transactions_table st1)"
      using Cons.prems False by (auto simp: dict_invar_def i(2))
    ultimately show ?thesis using Cons.IH [of st1] False by auto
  qed
qed simp

lemma save_block_ok:
  assumes "storage_holds st chain" "row_storable b"
  shows "(\<exists>st'. save_block b st = Inr st') \<longleftrightarrow>
    index b \<notin> index ` set chain \<and> block_hash b \<notin> block_hash ` set chain \<and>
    distinct (map tx_hash (transactions b)) \<and>
    set (map tx_hash (transactions b)) \<inter> (\<Union>c \<in> set chain. tx_hash ` set (transactions c)) = {}"
proof -
  have h: "blocks_table st = block_entries chain" "transactions_table st = tx_entries chain"
    "dict_invar (tx_entries chain)"
    using assms(1) unfolding storage_holds_def by metis+
  have keys: "fst ` set (block_entries chain) = index ` set chain"
    "(row_hash \<circ> snd) ` set (block_entries chain) = block_hash ` set chain"
    "fst ` set (tx_entries chain) = (\<Union>c \<in> set chain. tx_hash ` set (transactions c))"
    by (force simp: block_entries_def row_of_def tx_entries_def)+
  show ?thesis
  proof (cases "index b \<in> index ` set chain \<or> block_hash b \<in> block_hash ` set chain")
    case True
    then show ?thesis
      using transactions_roundtrip(1) [OF row_storable_txs [OF assms(2)]] keys h(1)
      by (auto simp: save_block_def insert_block_row_def split: sum.splits)
  next
    case False
    then obtain st0 where i: "insert_block_row b st = Inr st0" "transactions_table st0 = tx_entries chain"
      using transactions_roundtrip(1) [OF row_storable_txs [OF assms(2)]] keys h(1,2)
      by (simp add: insert_block_row_def)
    then show ?thesis
      using insert_tx_rows_ok [of st0 "index b" "transactions b"] h(3) keys(3) False
      by (simp add: save_block_def)
  qed
qed

section \<open>Properties\<close>


text \<open>\<open>save_block\<close> followed by \<open>update_balances_for_block\<close> extends the stored chain by the block,
  and \<open>save_block\<close> fails exactly on a height, a block hash or a transaction hash that is
  already stored or repeated in the block.\<close>
theorem save_block_extends:
  assumes "storage_holds st chain" "row_storable b"
  shows "((\<exists>st'. save_block b st = Inr st') \<longleftrightarrow>
      index b \<notin> index ` set chain \<and> block_hash b \<notin> block_hash ` set chain \<and>
      distinct (map tx_hash (transactions b)) \<and>
      set (map tx_hash (transactions b)) \<inter> (\<Union>c \<in> set chain. tx_hash ` set (transactions c)) = {}) \<and>
    (\<forall>st'. save_block b st = Inr st' \<longrightarrow> storage_holds (update_balances_for_block b st') (chain @ [b]))"
  using save_block_ok [OF assms] storage_holds_save [OF assms] by blast

text \<open>C8: a reorganisation replaces the blocks from the fork on by the new ones, in the block table,
  the transaction table and the balance cache alike.\<close>
theorem reorganize_replaces_suffix:
  assumes "storage_holds st (keep @ gone)" "list_all row_storable new"
    and "\<forall>b \<in> set keep. index b < k" "\<forall>b \<in> set gone. k \<le> index b" "sorted (map index gone)"
    and "reorganize_from now k new st = Inr st'"
  shows "storage_holds st' (keep @ new)"
  by (rule storage_holds_reorganize [OF assms])

lemma sample_row_storable: "row_storable sample_block"
proof -
  have h: "tx_hash sample_coinbase = tx_compute_hash sample_coinbase"
    by (rule verify_facts(3) [OF sample_coinbase_verifies])
  have f: "amount_base_units sample_coinbase = 5" "tx_timestamp sample_coinbase = PyInt 7"
    by (simp_all add: sample_coinbase_def Let_def)
  have "blk_merkle_root sample_block = tx_compute_hash sample_coinbase"
    "block_hash sample_block = compute_hash sample_block"
    using sample_block_fields(2) h
    by (simp_all add: sealed_def compute_merkle_root_def merkle_root_def merkle_loop.simps)
  with h f show ?thesis by (simp add: row_storable_def storable_block_def storable_tx_def)
qed

lemma sample_saved: "\<exists>st. storage_holds st [sample_block]"
proof -
  obtain st where "save_block sample_block empty_storage = Inr st"
    using save_block_ok [OF storage_holds_empty sample_row_storable] by auto
  from storage_holds_save [OF storage_holds_empty sample_row_storable this] show ?thesis by auto
qed


theorem save_block_extends_witness: "\<exists>st'. save_block sample_block empty_storage = Inr st'"
  using save_block_extends [OF storage_holds_empty sample_row_storable] by simp

theorem reorganize_replaces_suffix_witness:
  "\<exists>st st'. storage_holds st [sample_block] \<and> reorganize_from 0 1 [] st = Inr st' \<and> storage_holds st' ([] @ [])"
proof -
  obtain st where st: "storage_holds st ([] @ [sample_block])" using sample_saved by auto
  obtain st1 where "reverse_blocks 0 (map row_of [sample_block]) st = Inr st1"
    using reverse_blocks_moves [of "[sample_block]" 0 st] sample_row_storable by auto
  moreover have "blocks_table st = [(1, row_of sample_block)]"
    using st by (simp add: storage_holds_def block_entries_def)
  ultimately have "\<exists>st'. reorganize_from 0 1 [] st = Inr st'"
    by (simp add: reorganize_from_def Let_def)
  then obtain st' where "reorganize_from 0 1 [] st = Inr st'" by blast
  with reorganize_replaces_suffix [OF st, of "[]" 1 0 st'] st show ?thesis by auto
qed

end
