(* ===== verification/Blockchain.thy ===== *)
theory Blockchain
  imports Validators Mining Storage
begin

text \<open>
  \<open>blockchain/blockchain.py\<close>: the node's core object and its operations.  An operation that may
  raise after it has changed the object returns the result together with the new object.
  \<open>mine_pending_transactions\<close> is split where the code takes the lock: \<open>prepare_block\<close> runs
  without it, \<open>commit_block\<close> under it, so that other operations may run in between.
\<close>

record blockchain =
  bc_settings :: settings
  bc_storage :: storage
  bc_consensus :: engine
  bc_mempool :: mempool
  bc_miner :: miner
  bc_chain :: "block list"

section \<open>Initialisation\<close>

definition create_and_persist_genesis_block :: "int \<Rightarrow> blockchain \<Rightarrow> blockchain result" where
  "create_and_persist_genesis_block now bc =
     (let cfg = genesis_cfg (bc_settings bc)
      in case genesis now (gen_previous_hash cfg) (gen_timestamp cfg) (gen_nonce cfg) (gen_message cfg) of
           Inl e \<Rightarrow> Inl e
         | Inr g \<Rightarrow>
             (case save_block g (bc_storage bc) of
                Inl e \<Rightarrow> Inl e
              | Inr st \<Rightarrow>
                  Inr (bc\<lparr>bc_storage := update_balances_for_block g st, bc_chain := [g]\<rparr>)))"

definition Blockchain_init :: "int \<Rightarrow> settings \<Rightarrow> storage \<Rightarrow> blockchain result" where
  "Blockchain_init now cfg st =
     (case get_consensus_engine (algorithm (consensus_cfg cfg)) of
        Inl e \<Rightarrow> Inl e
      | Inr E \<Rightarrow>
          (case load_chain now st of
             Inl e \<Rightarrow> Inl e
           | Inr chain \<Rightarrow>
               let bc = \<lparr>bc_settings = cfg, bc_storage = st, bc_consensus = E, bc_mempool = Mempool_new,
                    bc_miner = \<lparr>miner_consensus = E, miner_block_reward = block_reward (mining_cfg cfg)\<rparr>,
                    bc_chain = chain\<rparr>
               in if chain = [] then create_and_persist_genesis_block now bc else Inr bc))"

section \<open>Accessors\<close>

definition latest_block :: "blockchain \<Rightarrow> block" where
  "latest_block bc = last (bc_chain bc)"

definition bc_length :: "blockchain \<Rightarrow> int" where
  "bc_length bc = int (length (bc_chain bc))"

definition genesis_block :: "blockchain \<Rightarrow> block" where
  "genesis_block bc = hd (bc_chain bc)"

definition total_work :: "blockchain \<Rightarrow> int" where
  "total_work bc = chain_work (bc_chain bc)"

definition get_block :: "int \<Rightarrow> blockchain \<Rightarrow> block option" where
  "get_block i bc =
     (if 0 \<le> i \<and> i < int (length (bc_chain bc)) then Some (bc_chain bc ! nat i) else None)"

definition current_difficulty :: "blockchain \<Rightarrow> int result" where
  "current_difficulty bc =
     (let cfg = consensus_cfg (bc_settings bc)
      in e_next_difficulty (bc_consensus bc) (recent_window cfg (bc_chain bc)) (config_difficulty cfg)
           (target_block_time_seconds cfg) (min_difficulty cfg) (max_difficulty cfg)
           (max_difficulty_adjustment_factor cfg))"

section \<open>Transactions\<close>

definition bc_get_balance :: "string \<Rightarrow> blockchain \<Rightarrow> int" where
  "bc_get_balance addr bc = get_balance addr (bc_storage bc)"

definition get_balance_syj :: "string \<Rightarrow> blockchain \<Rightarrow> pydec result" where
  "get_balance_syj addr bc = from_base_units (PInt (bc_get_balance addr bc))"

definition submit_transaction ::
  "crypto \<Rightarrow> transaction \<Rightarrow> blockchain \<Rightarrow> submit_reason verdict \<times> blockchain" where
  "submit_transaction C tx bc =
     (case validate_transaction C tx of
        Invalid r \<Rightarrow> (Invalid (TransactionInvalid r), bc)
      | Valid \<Rightarrow>
          let balance = bc_get_balance (sender tx) bc;
              already_pending = pending_spend_for (sender tx) (bc_mempool bc)
          in if \<not> is_coinbase tx \<and> already_pending + amount_base_units tx > balance
             then (Invalid (InsufficientFunds (sender tx) balance already_pending (amount_base_units tx)), bc)
             else
               (case add_transaction C tx (bc_mempool bc) of
                  (added, m) \<Rightarrow>
                    (if added then Valid else Invalid MempoolRejected, bc\<lparr>bc_mempool := m\<rparr>)))"

definition total_supply_base_units :: "blockchain \<Rightarrow> int" where
  "total_supply_base_units bc =
     sum_list (map amount_base_units
       (concat (map (\<lambda>b. filter is_coinbase (transactions b)) (bc_chain bc))))"

definition get_pending_transactions :: "blockchain \<Rightarrow> transaction list" where
  "get_pending_transactions bc = get_pending None (bc_mempool bc)"

section \<open>Mining\<close>

definition reward_of :: "blockchain \<Rightarrow> int" where
  "reward_of bc = block_reward (mining_cfg (bc_settings bc))"

definition max_supply_of :: "blockchain \<Rightarrow> int" where
  "max_supply_of bc = max_supply_base_units (native_asset_cfg (bc_settings bc))"

text \<open>The part before the lock.  \<open>now\<close> is the clock.\<close>

definition prepare_block :: "int \<Rightarrow> string \<Rightarrow> blockchain \<Rightarrow> (block \<times> string list) result" where
  "prepare_block now miner_address bc =
     (case current_difficulty bc of
        Inl e \<Rightarrow> Inl e
      | Inr d \<Rightarrow>
          let remaining_supply = max_supply_of bc - total_supply_base_units bc in
          if remaining_supply \<le> 0 then Inl (ValidationError SupplyExhausted)
          else
            mine_block now (bc_miner bc) (index (latest_block bc) + 1) (block_hash (latest_block bc))
              (bc_mempool bc) miner_address d MAX_TRANSACTIONS_PER_BLOCK
              (Some (min (reward_of bc) remaining_supply))
              (Some (max now (num_val (blk_timestamp (latest_block bc)) + 1))))"

definition validate_next :: "crypto \<Rightarrow> block \<Rightarrow> blockchain \<Rightarrow> block_reason verdict result" where
  "validate_next C b bc =
     validate_block_against_chain C (bc_consensus bc) (consensus_cfg (bc_settings bc)) (reward_of bc)
       (max_supply_of bc) b (bc_chain bc)"

text \<open>The part under the lock.  The block is appended to the in-memory chain before it is saved.\<close>

definition commit_block ::
  "crypto \<Rightarrow> block \<times> string list \<Rightarrow> blockchain \<Rightarrow> block result \<times> blockchain" where
  "commit_block C mined bc =
     (case mined of (new_block, included) \<Rightarrow>
        (case validate_next C new_block bc of
           Inl e \<Rightarrow> (Inl e, bc)
         | Inr (Invalid r) \<Rightarrow> (Inl (ValidationError (MinedBlockInvalid r)), bc)
         | Inr Valid \<Rightarrow>
             let bc1 = bc\<lparr>bc_chain := bc_chain bc @ [new_block]\<rparr> in
             (case save_block new_block (bc_storage bc1) of
                Inl e \<Rightarrow> (Inl e, bc1)
              | Inr st \<Rightarrow>
                  (Inr new_block,
                   bc1\<lparr>bc_storage := update_balances_for_block new_block st,
                       bc_mempool := remove_transactions included (bc_mempool bc1)\<rparr>))))"

definition mine_pending_transactions ::
  "crypto \<Rightarrow> int \<Rightarrow> string \<Rightarrow> blockchain \<Rightarrow> block result \<times> blockchain" where
  "mine_pending_transactions C now miner_address bc =
     (case prepare_block now miner_address bc of
        Inl e \<Rightarrow> (Inl e, bc)
      | Inr mined \<Rightarrow> commit_block C mined bc)"

section \<open>Validation and replacement\<close>

definition bc_validate_chain :: "crypto \<Rightarrow> block list \<Rightarrow> blockchain \<Rightarrow> chain_reason verdict result" where
  "bc_validate_chain C chain bc =
     validate_chain C (bc_consensus bc) (consensus_cfg (bc_settings bc)) (reward_of bc)
       (max_supply_of bc) chain"

definition is_chain_valid :: "crypto \<Rightarrow> blockchain \<Rightarrow> chain_reason verdict result" where
  "is_chain_valid C bc = bc_validate_chain C (bc_chain bc) bc"

text \<open>The first index at which the hashes differ, or the length of the shorter chain.\<close>

fun find_fork_index :: "block list \<Rightarrow> block list \<Rightarrow> nat" where
  "find_fork_index (a # as) (b # bs) =
     (if block_hash a \<noteq> block_hash b then 0 else Suc (find_fork_index as bs))"
| "find_fork_index _ _ = 0"

definition replace_chain ::
  "crypto \<Rightarrow> int \<Rightarrow> block list \<Rightarrow> blockchain \<Rightarrow> replace_reason verdict result \<times> blockchain" where
  "replace_chain C now candidate bc =
     (case validate_genesis_identity candidate (genesis_block bc) of
        Invalid r \<Rightarrow> (Inr (Invalid r), bc)
      | Valid \<Rightarrow>
          let candidate_work = chain_work candidate; local_work = total_work bc in
          if candidate_work \<le> local_work
          then (Inr (Invalid (WorkNotGreater candidate_work local_work)), bc)
          else
            (case bc_validate_chain C candidate bc of
               Inl e \<Rightarrow> (Inl e, bc)
             | Inr (Invalid r) \<Rightarrow> (Inr (Invalid (CandidateInvalid r)), bc)
             | Inr Valid \<Rightarrow>
                 let fork = find_fork_index (bc_chain bc) candidate;
                     new_blocks = drop fork candidate
                 in (case reorganize_from now (int fork) new_blocks (bc_storage bc) of
                       Inl e \<Rightarrow> (Inl e, bc)
                     | Inr st \<Rightarrow>
                         (Inr Valid,
                          bc\<lparr>bc_storage := st, bc_chain := candidate,
                             bc_mempool := remove_transactions
                               (map tx_hash (concat (map transactions new_blocks))) (bc_mempool bc)\<rparr>))))"

definition status :: "blockchain \<Rightarrow> pyval result" where
  "status bc =
     (case current_difficulty bc of
        Inl e \<Rightarrow> Inl e
      | Inr d \<Rightarrow>
          Inr (PDict
            [(''network_name'', PStr (net_name (network_cfg (bc_settings bc)))),
             (''chain_length'', PInt (bc_length bc)),
             (''latest_block_hash'', PStr (block_hash (latest_block bc))),
             (''difficulty'', PInt d),
             (''pending_transactions'', PInt (mempool_size (bc_mempool bc))),
             (''consensus_algorithm'', PStr (algorithm (consensus_cfg (bc_settings bc))))]))"

section \<open>Difficulty and supply agree with the validators\<close>

lemma current_difficulty_expected:
  "current_difficulty bc = expected_difficulty (bc_consensus bc) (consensus_cfg (bc_settings bc)) (bc_chain bc)"
  by (simp add: current_difficulty_def expected_difficulty_def Let_def)

lemma find_fork_index_bounds: "find_fork_index a b \<le> length a" "find_fork_index a b \<le> length b"
  by (induction a b rule: find_fork_index.induct) auto

lemma find_fork_index_agree: "i < find_fork_index a b \<Longrightarrow> block_hash (a ! i) = block_hash (b ! i)"
  by (induction a b arbitrary: i rule: find_fork_index.induct) (auto simp: nth_Cons split: if_splits nat.splits)

lemma find_fork_index_differ:
  "find_fork_index a b < length a \<Longrightarrow> find_fork_index a b < length b \<Longrightarrow>
   block_hash (a ! find_fork_index a b) \<noteq> block_hash (b ! find_fork_index a b)"
  by (induction a b rule: find_fork_index.induct) auto

section \<open>Blocks read from the wire or mined here can be stored\<close>

definition wire_tx :: "transaction \<Rightarrow> bool" where
  "wire_tx tx \<longleftrightarrow> sender tx = GENESIS_ADDRESS \<or> \<not> is_float (tx_timestamp tx)"

definition wire_block :: "block \<Rightarrow> bool" where
  "wire_block b \<longleftrightarrow> (index b \<noteq> 0 \<longrightarrow> \<not> is_float (blk_timestamp b)) \<and> list_all wire_tx (transactions b)"

lemma mk_Transaction_fields:
  assumes "mk_Transaction now s r amount ts pk sig h abu = Inr tx"
  shows "sender tx = s" "tx_timestamp tx = (case ts of None \<Rightarrow> PyInt now | Some t \<Rightarrow> t)"
  using assms
  by (auto simp: mk_Transaction_def Let_def split: if_splits option.splits sum.splits pyval.splits
      pynum.splits py_error.splits)

lemma tx_from_dict_wire: "tx_from_dict now d = Inr tx \<Longrightarrow> wire_tx tx"
proof -
  assume "tx_from_dict now d = Inr tx"
  then obtain s r amount abu ts pk sig h where f: "tx_timestamp_of d = Inr ts" "get_str ''sender'' d = Inr s"
    "mk_Transaction now s r amount ts pk sig h abu = Inr tx"
    by (auto simp: tx_from_dict_def Let_def split: option.splits sum.splits pyval.splits pynum.splits prod.splits)
  have "s = GENESIS_ADDRESS \<or> (\<exists>t. ts = Some (PyInt t))"
    using f(1,2)
    by (auto simp: tx_timestamp_of_def get_str_def get_item_def map_sum_Inr
        split: option.splits sum.splits if_splits pyval.splits)
  then show ?thesis using mk_Transaction_fields [OF f(3)] by (auto simp: wire_tx_def)
qed

lemma map_result_set:
  "map_result f xs = Inr ys \<Longrightarrow> y \<in> set ys \<Longrightarrow> \<exists>x \<in> set xs. f x = Inr y"
  by (induction xs arbitrary: ys) (auto split: sum.splits)

lemma blk_from_dict_wire:
  assumes "blk_from_dict now d = Inr b"
  shows "wire_block b"
proof -
  obtain txs i prev ts n df m h where f: "transactions_of now d = Inr txs" "get_index d = Inr i"
    "blk_timestamp_of d = Inr ts"
    "b = post_init \<lparr>index = i, previous_hash = prev, transactions = txs, blk_timestamp = ts, nonce = n,
       difficulty = df, blk_merkle_root = m, block_hash = h\<rparr>"
    using assms by (auto simp: blk_from_dict_def split: sum.splits)
  have "i \<noteq> 0 \<longrightarrow> \<not> is_float ts"
    using f(2,3)
    by (auto simp: get_index_def blk_timestamp_of_def get_int0_def get_item_def
        map_sum_Inr split: option.splits sum.splits pyval.splits pynum.splits if_splits)
  moreover have "wire_tx tx" if tx: "tx \<in> set txs" for tx
  proof -
    obtain vs where "map_result (tx_from_pyval now) vs = Inr txs"
      using f(1) tx
      by (auto simp: transactions_of_def split: option.splits pyval.splits if_splits)
    then obtain v where "tx_from_pyval now v = Inr tx" using map_result_set [OF _ tx] by blast
    then show ?thesis using tx_from_dict_wire by (cases v) auto
  qed
  ultimately show ?thesis by (simp add: f(4) wire_block_def list_all_iff)
qed

lemma verified_storable:
  assumes "verify C tx" "wire_tx tx" shows "storable_tx tx"
proof -
  have "\<bar>amount_base_units tx\<bar> < 10 ^ 28"
    using verify_facts(1,2) [OF assms(1)] by (simp add: max_supply_value)
  moreover have "tx_hash tx \<noteq> []" using verify_facts(3) [OF assms(1)] by simp
  ultimately show ?thesis using assms(2) by (auto simp: storable_tx_def wire_tx_def)
qed

lemma valid_extension_txs:
  assumes "valid_extension C E cfg reward mx chain b" "0 \<le> index (last chain)"
  shows "\<forall>tx \<in> set (transactions b). validate_transaction C tx = Valid" "index b \<noteq> 0"
  using assms
  by (auto simp: valid_extension_def validate_block_structure_def first_invalid_tx_Valid
      split: if_splits list.splits)

lemma valid_extension_storable:
  assumes v: "valid_extension C E cfg reward mx chain b" "0 \<le> index (last chain)" and w: "wire_block b"
  shows "row_storable b"
proof -
  note t = valid_extension_txs [OF v]
  have ver: "\<forall>tx \<in> set (transactions b). verify C tx" using t(1) by (simp add: validate_transaction_Valid)
  then have txs: "list_all storable_tx (transactions b)"
    using w verified_storable by (auto simp: wire_block_def list_all_iff)
  have sl: "sealed b" by (rule valid_extension_sealed [OF v(1)])
  have ne: "transactions b \<noteq> []"
    using v t(2) by (auto simp: valid_extension_def validate_block_structure_def split: if_splits list.splits)
  have "\<forall>tx \<in> set (transactions b). length (tx_hash tx) = 64"
    using ver verify_facts(3) by fastforce
  then have "length (merkle_root (map tx_hash (transactions b))) = 64"
    using length_merkle_loop [of "map tx_hash (transactions b)"] ne by (auto simp: merkle_root_def)
  then have "blk_merkle_root b \<noteq> []" "block_hash b \<noteq> []"
    using sl by (auto simp: sealed_def compute_merkle_root_def dest: sym)
  with txs w t(2) show ?thesis by (auto simp: row_storable_def storable_block_def wire_block_def)
qed

section \<open>Balances: replay and movements\<close>

lemma replay_chain_balance:
  assumes "replay_chain C reward mx bs (bal, s) = Inr (bal', s')" "dict_invar bal" "\<forall>b \<in> set bs. index b \<noteq> 0"
  shows "dict_get a 0 bal' = dict_get a 0 bal + chain_delta a bs"
  using assms
proof (induction bs arbitrary: bal s)
  case (Cons b bs)
  obtain bal1 s1 where st: "replay_block C reward mx b (bal, s) = Inr (bal1, s1)"
    "replay_chain C reward mx bs (bal1, s1) = Inr (bal', s')"
    using Cons.prems(1) by (auto split: sum.splits)
  note r = replay_block_balance [OF st(1) Cons.prems(2)]
  from Cons.IH [OF st(2)] r Cons.prems(3) show ?case by simp
qed simp

section \<open>The node invariant\<close>

text \<open>The in-memory chain is valid and starts at height 0; the tables hold the same blocks (above
  the genesis block, whose body no check binds to its hash); the pool is well formed; the
  miner uses the node's engine.\<close>

definition stored_with :: "blockchain \<Rightarrow> block \<Rightarrow> bool" where
  "stored_with bc g \<longleftrightarrow>
     index g = 0 \<and> (\<forall>a. txs_delta a (transactions g) = 0) \<and>
     storage_holds (bc_storage bc) (g # tl (bc_chain bc))"

definition node_ok :: "crypto \<Rightarrow> blockchain \<Rightarrow> bool" where
  "node_ok C bc \<longleftrightarrow>
     is_chain_valid C bc = Inr Valid \<and> index (hd (bc_chain bc)) = 0 \<and> 0 \<le> max_supply_of bc \<and>
     mempool_invar C (bc_mempool bc) \<and> list_all (\<lambda>e. wire_tx (snd e)) (bc_mempool bc) \<and>
     miner_consensus (bc_miner bc) = bc_consensus bc \<and> (\<exists>g. stored_with bc g)"

lemma node_ok_chain:
  assumes "node_ok C bc"
  shows "validate_chain C (bc_consensus bc) (consensus_cfg (bc_settings bc)) (reward_of bc)
    (max_supply_of bc) (bc_chain bc) = Inr Valid" "0 \<le> max_supply_of bc" "bc_chain bc \<noteq> []"
    "index (hd (bc_chain bc)) = 0"
proof -
  show v: "validate_chain C (bc_consensus bc) (consensus_cfg (bc_settings bc)) (reward_of bc)
    (max_supply_of bc) (bc_chain bc) = Inr Valid" and "0 \<le> max_supply_of bc" "index (hd (bc_chain bc)) = 0"
    using assms by (simp_all add: node_ok_def is_chain_valid_def bc_validate_chain_def)
  show "bc_chain bc \<noteq> []" by (rule valid_chain_nonempty [OF v])
qed

lemma node_ok_index:
  assumes "node_ok C bc" "i < length (bc_chain bc)"
  shows "index (bc_chain bc ! i) = int i"
  using valid_chain_index [OF node_ok_chain(1,2) [OF assms(1)] assms(2)] node_ok_chain(3,4) [OF assms(1)]
  by (simp add: hd_conv_nth)

lemma index_tl_nonzero:
  assumes "\<And>i. i < length chain \<Longrightarrow> index (chain ! i) = int i" "b \<in> set (tl chain)"
  shows "index b \<noteq> 0"
proof -
  obtain i where "i < length (tl chain)" "b = tl chain ! i" using assms(2) by (metis in_set_conv_nth)
  then show ?thesis using assms(1) [of "Suc i"] by (simp add: nth_tl)
qed

lemma replay_genesis_first:
  "chain \<noteq> [] \<Longrightarrow> index (hd chain) = 0 \<Longrightarrow>
   replay_chain C reward mx chain st = replay_chain C reward mx (tl chain) st"
  by (cases chain) auto

text \<open>The cached balance is the replayed balance.\<close>
lemma node_balance:
  assumes ok: "node_ok C bc" and "a \<noteq> COINBASE_SENDER"
  shows "\<exists>bal s. replay_chain C (reward_of bc) (max_supply_of bc) (bc_chain bc) ([], 0) = Inr (bal, s) \<and>
    bc_get_balance a bc = dict_get a 0 bal"
proof -
  obtain bal s where r: "replay_chain C (reward_of bc) (max_supply_of bc) (bc_chain bc) ([], 0) = Inr (bal, s)"
    using valid_chain_replay [OF node_ok_chain(1) [OF ok]] by blast
  have nz: "\<forall>b \<in> set (tl (bc_chain bc)). index b \<noteq> 0"
    using index_tl_nonzero node_ok_index [OF ok] by blast
  have "dict_get a 0 bal = chain_delta a (tl (bc_chain bc))"
    using replay_chain_balance [OF _ _ nz] r replay_genesis_first node_ok_chain(3,4) [OF ok]
    by (fastforce simp: dict_invar_def)
  moreover obtain g where "stored_with bc g" using ok by (auto simp: node_ok_def)
  then have "bc_get_balance a bc = chain_delta a (tl (bc_chain bc))"
    using get_balance_holds assms(2) by (auto simp: stored_with_def bc_get_balance_def)
  ultimately show ?thesis using r by auto
qed

section \<open>Every operation keeps the invariant\<close>

lemma commit_block_cases:
  assumes "commit_block C (b, hs) bc = (r, bc')"
  obtains (rejected) e where "r = Inl e" "bc' = bc" "validate_next C b bc \<noteq> Inr Valid"
    | (unsaved) e where "r = Inl e" "validate_next C b bc = Inr Valid"
        "save_block b (bc_storage bc) = Inl e" "bc' = bc\<lparr>bc_chain := bc_chain bc @ [b]\<rparr>"
    | (saved) st where "r = Inr b" "validate_next C b bc = Inr Valid"
        "save_block b (bc_storage bc) = Inr st"
        "bc' = bc\<lparr>bc_chain := bc_chain bc @ [b], bc_storage := update_balances_for_block b st,
                 bc_mempool := remove_transactions hs (bc_mempool bc)\<rparr>"
  using assms
  by (auto simp: commit_block_def Let_def split: sum.splits verdict.splits)

lemma committed_block_storable:
  assumes ok: "node_ok C bc" and v: "validate_next C b bc = Inr Valid" and w: "wire_block b"
  shows "row_storable b"
proof -
  have "valid_extension C (bc_consensus bc) (consensus_cfg (bc_settings bc)) (reward_of bc) (max_supply_of bc) (bc_chain bc) b"
    using v by (simp add: validate_next_def validate_block_against_chain_Valid)
  moreover have "index (last (bc_chain bc)) = int (length (bc_chain bc) - 1)"
    using node_ok_index [OF ok, of "length (bc_chain bc) - 1"] node_ok_chain(3) [OF ok] by (simp add: last_conv_nth)
  ultimately show ?thesis using valid_extension_storable [OF _ _ w] by simp
qed

text \<open>The genesis block of the tables stays.\<close>
lemma stored_with_commit:
  assumes ok: "node_ok C bc" and c: "commit_block C (b, hs) bc = (Inr b', bc')" and w: "wire_block b"
    and g: "stored_with bc g"
  shows "stored_with bc' g"
  using c
proof (cases rule: commit_block_cases)
  case (saved st)
  have "storage_holds (update_balances_for_block b st) ((g # tl (bc_chain bc)) @ [b])"
    using storage_holds_save [OF _ committed_block_storable [OF ok saved(2) w] saved(3)] g unfolding stored_with_def by blast
  then show ?thesis using g node_ok_chain(3) [OF ok] by (simp add: saved(4) stored_with_def)
qed simp_all

lemma node_ok_commit:
  assumes ok: "node_ok C bc" and c: "commit_block C (b, hs) bc = (Inr b', bc')" and w: "wire_block b"
  shows "node_ok C bc'"
  using c
proof (cases rule: commit_block_cases)
  case (saved st)
  note n = node_ok_chain [OF ok]
  have valid: "validate_chain C (bc_consensus bc) (consensus_cfg (bc_settings bc)) (reward_of bc) (max_supply_of bc)
      (bc_chain bc @ [b]) = Inr Valid"
    using valid_chain_extend [OF n(1)] saved(2) by (simp add: validate_next_def)
  obtain g where "stored_with bc g" using ok by (auto simp: node_ok_def)
  note g = stored_with_commit [OF ok c w this]
  have "mempool_invar C (remove_transactions hs (bc_mempool bc))"
    using ok by (simp add: node_ok_def mempool_invar_remove)
  moreover have "list_all (\<lambda>e. wire_tx (snd e)) (remove_transactions hs (bc_mempool bc))"
    using ok by (auto simp: node_ok_def remove_transactions_def list_all_iff set_dict_pop_all)
  ultimately show ?thesis
    using ok valid n(3) g unfolding node_ok_def
    by (auto simp: saved(4) is_chain_valid_def bc_validate_chain_def reward_of_def max_supply_of_def)
qed simp_all

lemma submit_transaction_cases:
  assumes "submit_transaction C tx bc = (v, bc')"
  obtains (rejected) r where "v = Invalid r" "bc' = bc"
    | (accepted) "v = Valid" "validate_transaction C tx = Valid"
        "add_transaction C tx (bc_mempool bc) = (True, bc_mempool bc')"
        "bc' = bc\<lparr>bc_mempool := bc_mempool bc'\<rparr>"
        "is_coinbase tx \<or> pending_spend_for (sender tx) (bc_mempool bc) + amount_base_units tx
           \<le> bc_get_balance (sender tx) bc"
  using assms
  by (auto simp: submit_transaction_def Let_def split: verdict.splits if_splits prod.splits
      dest: add_transaction_rejected)

lemma node_ok_mempool:
  "node_ok C bc \<Longrightarrow> mempool_invar C m \<Longrightarrow> list_all (\<lambda>e. wire_tx (snd e)) m \<Longrightarrow>
   node_ok C (bc\<lparr>bc_mempool := m\<rparr>)"
  by (simp add: node_ok_def is_chain_valid_def bc_validate_chain_def reward_of_def max_supply_of_def
      stored_with_def)

lemma node_ok_submit:
  assumes ok: "node_ok C bc" and s: "submit_transaction C tx bc = (v, bc')" and "wire_tx tx"
  shows "node_ok C bc'"
  using s
proof (cases rule: submit_transaction_cases)
  case accepted
  have "mempool_invar C (bc_mempool bc')"
    using mempool_invar_add [OF _ accepted(3)] ok by (simp add: node_ok_def)
  moreover have "list_all (\<lambda>e. wire_tx (snd e)) (bc_mempool bc')"
    using ok accepted(3) assms(3) by (auto simp: node_ok_def add_transaction_iff)
  ultimately show ?thesis using node_ok_mempool [OF ok] accepted(4) by metis
qed (use ok in simp)

end
