(* ===== verification/Core_Run.thy ===== *)
theory Core_Run
  imports Blockchain
begin

text \<open>
  The node as a state machine: initialisation, chain replacement, and the step relation of the
  operations of \<open>blockchain/blockchain.py\<close>, with the block a miner prepared outside the lock as
  part of the state.  The invariant, the growth of accumulated work and the constancy of the
  genesis hash are proved by rule induction over every interleaving.
\<close>

section \<open>Chain replacement\<close>

text \<open>Blocks of two chains with equal hashes are equal, above the genesis block: what the hash
  stands for when no SHA-256 collision and no Merkle duplication is involved.\<close>

definition hash_faithful :: "block list \<Rightarrow> block list \<Rightarrow> bool" where
  "hash_faithful chain candidate \<longleftrightarrow>
     \<not> header_collision (hd candidate) (hd chain) \<and>
     (\<forall>i < find_fork_index chain candidate. 0 < i \<longrightarrow> candidate ! i = chain ! i)"

lemma replace_chain_cases:
  assumes "replace_chain C now candidate bc = (r, bc')"
  obtains (refused) "bc' = bc" "r \<noteq> Inr Valid"
    | (adopted) st where "r = Inr Valid" "candidate \<noteq> []"
        "block_hash (hd candidate) = block_hash (genesis_block bc)"
        "total_work bc < chain_work candidate" "bc_validate_chain C candidate bc = Inr Valid"
        "reorganize_from now (int (find_fork_index (bc_chain bc) candidate))
           (drop (find_fork_index (bc_chain bc) candidate) candidate) (bc_storage bc) = Inr st"
        "bc' = bc\<lparr>bc_storage := st, bc_chain := candidate,
           bc_mempool := remove_transactions (map tx_hash (concat (map transactions
             (drop (find_fork_index (bc_chain bc) candidate) candidate)))) (bc_mempool bc)\<rparr>"
proof -
  note d = assms [unfolded replace_chain_def Let_def]
  consider (bad_genesis) x where "validate_genesis_identity candidate (genesis_block bc) = Invalid x"
    | (no_work) "validate_genesis_identity candidate (genesis_block bc) = Valid"
        "chain_work candidate \<le> total_work bc"
    | (invalid) "validate_genesis_identity candidate (genesis_block bc) = Valid"
        "\<not> chain_work candidate \<le> total_work bc" "bc_validate_chain C candidate bc \<noteq> Inr Valid"
    | (valid) "validate_genesis_identity candidate (genesis_block bc) = Valid"
        "\<not> chain_work candidate \<le> total_work bc" "bc_validate_chain C candidate bc = Inr Valid"
    by (metis verdict.exhaust)
  then show ?thesis
  proof cases
    case bad_genesis
    with d show ?thesis by (intro refused) auto
  next
    case no_work
    with d show ?thesis by (intro refused) auto
  next
    case invalid
    with d show ?thesis by (intro refused) (auto split: sum.splits verdict.splits)
  next
    case valid
    have g: "candidate \<noteq> []" "block_hash (hd candidate) = block_hash (genesis_block bc)"
      using valid(1) by (auto simp: validate_genesis_identity_def split: list.splits if_splits)
    show ?thesis
    proof (cases "reorganize_from now (int (find_fork_index (bc_chain bc) candidate))
           (drop (find_fork_index (bc_chain bc) candidate) candidate) (bc_storage bc)")
      case (Inl e)
      with d valid show ?thesis by (intro refused) auto
    next
      case (Inr st)
      with d valid g show ?thesis by (intro adopted [of st]) auto
    qed
  qed
qed

lemma tl_agree:
  assumes "\<forall>i < Suc k. 0 < i \<longrightarrow> candidate ! i = chain ! i" "Suc k \<le> length chain" "Suc k \<le> length candidate"
  shows "take k (tl chain) = take k (tl candidate)"
proof (rule nth_equalityI)
  show "length (take k (tl chain)) = length (take k (tl candidate))" using assms by simp
  fix i assume "i < length (take k (tl chain))"
  then have "i < k" "i < length (tl chain)" "i < length (tl candidate)" using assms by auto
  then show "take k (tl chain) ! i = take k (tl candidate) ! i"
    using assms(1) [rule_format, of "Suc i"] by (simp add: nth_tl)
qed

lemma indexed_split:
  assumes "\<And>i. i < length chain \<Longrightarrow> index (chain ! i) = int i"
  shows "b \<in> set (take n chain) \<Longrightarrow> index b < int n" "b \<in> set (drop n chain) \<Longrightarrow> int n \<le> index b"
    "sorted (map index chain)"
proof -
  show "index b < int n" if bt: "b \<in> set (take n chain)"
  proof -
    obtain i where "i < length (take n chain)" "b = take n chain ! i" using bt by (metis in_set_conv_nth)
    then show ?thesis using assms [of i] by simp
  qed
  show "int n \<le> index b" if bd: "b \<in> set (drop n chain)"
  proof -
    obtain i where "i < length (drop n chain)" "b = drop n chain ! i" using bd by (metis in_set_conv_nth)
    then show ?thesis using assms [of "n + i"] by simp
  qed
  show "sorted (map index chain)"
    unfolding sorted_iff_nth_mono using assms by simp
qed

lemma sorted_drop_index: "sorted (map index chain) \<Longrightarrow> sorted (map index (drop n chain))"
  by (simp add: drop_map [symmetric] sorted_wrt_drop)

lemma valid_chain_rows:
  assumes v: "validate_chain C E cfg reward mx chain = Inr Valid" "0 \<le> mx" "index (hd chain) = 0"
    and w: "list_all wire_block chain"
  shows "list_all row_storable (tl chain)"
proof -
  have "row_storable (tl chain ! i)" if "i < length (tl chain)" for i
  proof -
    have i: "Suc i < length chain" "tl chain ! i = chain ! Suc i" using that by (auto simp: nth_tl)
    note c = valid_chain_consecutive [OF v(1,2) i(1)]
    have "index (chain ! i) = int i"
      using valid_chain_index [OF v(1,2), of i] i(1) v(3) valid_chain_nonempty [OF v(1)]
      by (simp add: hd_conv_nth)
    then have "row_storable (chain ! Suc i)"
      using valid_extension_storable [OF c(1)] c(2) w i(1) by (simp add: list_all_length)
    then show ?thesis using i(2) by simp
  qed
  then show ?thesis by (simp add: list_all_length)
qed

lemma stored_with_replace:
  assumes ok: "node_ok C bc" and g: "stored_with bc g"
    and f: "find_fork_index (bc_chain bc) candidate = Suc k" and faithful: "hash_faithful (bc_chain bc) candidate"
    and rows: "list_all row_storable (tl candidate)"
    and r: "reorganize_from now (int (Suc k)) (drop (Suc k) candidate) (bc_storage bc) = Inr st"
  shows "storage_holds st (g # tl candidate)"
proof -
  let ?chain = "bc_chain bc"
  have len: "Suc k \<le> length ?chain" "Suc k \<le> length candidate"
    using find_fork_index_bounds [of ?chain candidate] f by auto
  note idx = indexed_split [OF node_ok_index [OF ok]]
  have agree: "take k (tl ?chain) = take k (tl candidate)"
    using tl_agree [OF _ len] faithful f by (simp add: hash_faithful_def)
  have h: "storage_holds (bc_storage bc) ((g # take k (tl ?chain)) @ drop k (tl ?chain))"
    using g by (simp add: stored_with_def)
  have tk: "set (take k (tl ?chain)) \<subseteq> set (take (Suc k) ?chain)"
    using node_ok_chain(3) [OF ok] by (cases ?chain) auto
  have dk: "drop k (tl ?chain) = drop (Suc k) ?chain" by (simp add: drop_Suc)
  have "list_all row_storable (drop (Suc k) candidate)"
    using rows by (auto simp: drop_Suc list_all_iff dest: in_set_dropD)
  moreover have "\<forall>b \<in> set (g # take k (tl ?chain)). index b < int (Suc k)"
    using g subsetD [OF tk] idx(1) [of _ "Suc k"] by (auto simp: stored_with_def)
  moreover have "\<forall>b \<in> set (drop k (tl ?chain)). int (Suc k) \<le> index b"
    using idx(2) [of _ "Suc k"] dk by simp
  moreover have "sorted (map index (drop k (tl ?chain)))"
    using sorted_drop_index [OF idx(3)] dk by simp
  ultimately have "storage_holds st ((g # take k (tl ?chain)) @ drop (Suc k) candidate)"
    using storage_holds_reorganize [OF h] r by blast
  then show ?thesis using agree by (simp add: drop_Suc)
qed

lemma replaced_chain_facts:
  assumes ok: "node_ok C bc" and r: "replace_chain C now candidate bc = (Inr Valid, bc')"
    and faithful: "hash_faithful (bc_chain bc) candidate"
  obtains st k where "validate_chain C (bc_consensus bc) (consensus_cfg (bc_settings bc)) (reward_of bc) (max_supply_of bc)
      candidate = Inr Valid" "index (hd candidate) = 0" "find_fork_index (bc_chain bc) candidate = Suc k"
    "reorganize_from now (int (Suc k)) (drop (Suc k) candidate) (bc_storage bc) = Inr st"
    "bc' = bc\<lparr>bc_storage := st, bc_chain := candidate, bc_mempool := remove_transactions
       (map tx_hash (concat (map transactions (drop (Suc k) candidate)))) (bc_mempool bc)\<rparr>"
  using r
proof (cases rule: replace_chain_cases)
  case (adopted st)
  note n = node_ok_chain [OF ok]
  have v: "validate_chain C (bc_consensus bc) (consensus_cfg (bc_settings bc)) (reward_of bc) (max_supply_of bc) candidate = Inr Valid"
    using adopted(5) by (simp add: bc_validate_chain_def)
  have "sealed (hd candidate)" "sealed (hd (bc_chain bc))"
    using valid_chain_sealed [OF v n(2)] valid_chain_sealed [OF n(1,2)] adopted(2) n(3) by auto
  then have idx0: "index (hd candidate) = 0"
    using compute_hash_binds [of "hd candidate" "hd (bc_chain bc)"] adopted(3) faithful n(4)
    by (auto simp: sealed_def hash_faithful_def same_header_def genesis_block_def)
  obtain k where k: "find_fork_index (bc_chain bc) candidate = Suc k"
    using adopted(2,3) n(3) by (cases "bc_chain bc"; cases candidate) (auto simp: genesis_block_def)
  show thesis using that [OF v idx0 k] adopted(6,7) k by simp
qed simp

text \<open>The genesis block of the tables stays.\<close>
lemma stored_with_replaced:
  assumes ok: "node_ok C bc" and r: "replace_chain C now candidate bc = (Inr Valid, bc')"
    and w: "list_all wire_block candidate" and faithful: "hash_faithful (bc_chain bc) candidate"
    and g: "stored_with bc g"
  shows "stored_with bc' g"
proof -
  obtain st k where f: "validate_chain C (bc_consensus bc) (consensus_cfg (bc_settings bc)) (reward_of bc) (max_supply_of bc)
      candidate = Inr Valid" "index (hd candidate) = 0" "find_fork_index (bc_chain bc) candidate = Suc k"
    "reorganize_from now (int (Suc k)) (drop (Suc k) candidate) (bc_storage bc) = Inr st"
    "bc' = bc\<lparr>bc_storage := st, bc_chain := candidate, bc_mempool := remove_transactions
       (map tx_hash (concat (map transactions (drop (Suc k) candidate)))) (bc_mempool bc)\<rparr>"
    by (rule replaced_chain_facts [OF ok r faithful])
  have "storage_holds st (g # tl candidate)"
    by (rule stored_with_replace [OF ok g f(3) faithful valid_chain_rows [OF f(1) node_ok_chain(2) [OF ok] f(2) w] f(4)])
  then show ?thesis using g by (simp add: f(5) stored_with_def)
qed

lemma node_ok_replace:
  assumes ok: "node_ok C bc" and r: "replace_chain C now candidate bc = (Inr Valid, bc')"
    and w: "list_all wire_block candidate" and faithful: "hash_faithful (bc_chain bc) candidate"
  shows "node_ok C bc'"
proof -
  obtain st k where f: "validate_chain C (bc_consensus bc) (consensus_cfg (bc_settings bc)) (reward_of bc) (max_supply_of bc)
      candidate = Inr Valid" "index (hd candidate) = 0"
    "bc' = bc\<lparr>bc_storage := st, bc_chain := candidate, bc_mempool := remove_transactions
       (map tx_hash (concat (map transactions (drop (Suc k) candidate)))) (bc_mempool bc)\<rparr>"
    by (rule replaced_chain_facts [OF ok r faithful])
  obtain g where "stored_with bc g" using ok by (auto simp: node_ok_def)
  then have "stored_with bc' g" by (rule stored_with_replaced [OF ok r w faithful])
  moreover have "mempool_invar C (bc_mempool bc')" "list_all (\<lambda>e. wire_tx (snd e)) (bc_mempool bc')"
    using ok mempool_invar_remove
    by (auto simp: f(3) node_ok_def remove_transactions_def list_all_iff set_dict_pop_all)
  ultimately show ?thesis
    using ok f(1,2) unfolding node_ok_def
    by (auto simp: f(3) is_chain_valid_def bc_validate_chain_def reward_of_def max_supply_of_def)
qed

section \<open>Outcomes of mining\<close>

lemma save_block_error: "save_block b st = Inl e \<Longrightarrow> e = StorageError"
proof -
  have "insert_tx_rows i txs st = Inl e \<Longrightarrow> e = StorageError" for i txs st
    by (induction i txs st rule: insert_tx_rows.induct) (auto simp: insert_tx_row_def split: sum.splits if_splits)
  then show "save_block b st = Inl e \<Longrightarrow> e = StorageError"
    by (auto simp: save_block_def insert_block_row_def split: sum.splits if_splits)
qed

lemma mine_cases:
  assumes "mine_pending_transactions C now a bc = (r, bc')"
  obtains (failed) e where "r = Inl e" "bc' = bc"
    | (unsaved) "r = Inl StorageError"
    | (mined) b hs where "r = Inr b" "prepare_block now a bc = Inr (b, hs)" "commit_block C (b, hs) bc = (Inr b, bc')"
proof (cases "prepare_block now a bc")
  case (Inl e)
  then show thesis using assms by (intro failed [of e]) (simp_all add: mine_pending_transactions_def)
next
  case (Inr m)
  obtain b hs where m: "m = (b, hs)" by (cases m)
  have c: "commit_block C (b, hs) bc = (r, bc')" using assms by (simp add: mine_pending_transactions_def Inr m)
  then show thesis
  proof (cases rule: commit_block_cases)
    case (saved st)
    with c show thesis by (intro mined [of b hs]) (simp_all add: Inr m)
  qed (use failed unsaved save_block_error in auto)
qed

section \<open>Initialisation\<close>

lemma genesis_structure:
  "sealed g \<Longrightarrow> index g = 0 \<Longrightarrow> validate_block_structure C g None mx = Valid"
  by (simp add: validate_block_structure_def sealed_def)

lemma Blockchain_init_fresh:
  assumes "algorithm (consensus_cfg cfg) = ''pow''" "is_float (gen_timestamp (genesis_cfg cfg))"
    "0 \<le> max_supply_base_units (native_asset_cfg cfg)"
  shows "\<exists>bc. Blockchain_init now cfg empty_storage = Inr bc \<and> node_ok C bc \<and> length (bc_chain bc) = 1 \<and>
    bc_consensus bc = ProofOfWorkConsensus \<and> bc_settings bc = cfg \<and>
    filter is_coinbase (transactions (hd (bc_chain bc))) = [] \<and> stored_with bc (hd (bc_chain bc))"
proof -
  let ?c = "genesis_cfg cfg"
  let ?tx = "\<lparr>sender = GENESIS_ADDRESS, receiver = GENESIS_ADDRESS, amount_base_units = 0,
     tx_timestamp = gen_timestamp ?c, sender_public_key = None, signature = None,
     tx_hash = sha256 (gen_message ?c)\<rparr>"
  obtain g where g: "genesis now (gen_previous_hash ?c) (gen_timestamp ?c) (gen_nonce ?c) (gen_message ?c) = Inr g"
    "sealed g" "index g = 0" "blk_timestamp g = gen_timestamp ?c" "transactions g = [?tx]"
    using genesis_value [of now "gen_previous_hash ?c" "gen_timestamp ?c" "gen_nonce ?c" "gen_message ?c"]
    by blast
  have root: "blk_merkle_root g = sha256 (gen_message ?c)"
    using g(2) by (simp add: sealed_def compute_merkle_root_def g(5) merkle_root_def merkle_loop.simps)
  have rs: "row_storable g"
    using g assms(2) root by (simp add: row_storable_def storable_block_def storable_tx_def sealed_def) force
  obtain st where st: "save_block g empty_storage = Inr st"
    using save_block_ok [OF storage_holds_empty rs] by (auto simp: g(5))
  let ?st = "update_balances_for_block g st"
  let ?bc = "\<lparr>bc_settings = cfg, bc_storage = ?st, bc_consensus = ProofOfWorkConsensus,
     bc_mempool = Mempool_new, bc_miner = \<lparr>miner_consensus = ProofOfWorkConsensus,
       miner_block_reward = block_reward (mining_cfg cfg)\<rparr>, bc_chain = [g]\<rparr>"
  have "Blockchain_init now cfg empty_storage = Inr ?bc"
    using assms(1) g(1) st
    by (simp add: Blockchain_init_def get_consensus_engine_def load_chain_def empty_storage_def
        create_and_persist_genesis_block_def Let_def)
  moreover have holds: "storage_holds ?st [g]"
    using storage_holds_save [OF storage_holds_empty rs st] by simp
  moreover have nc: "\<not> is_coinbase ?tx" by (simp add: is_coinbase_def GENESIS_ADDRESS_def COINBASE_SENDER_def)
  moreover have sw: "stored_with ?bc g"
    using g holds nc by (simp add: stored_with_def tx_delta_def)
  moreover have "node_ok C ?bc"
    using assms(3) g genesis_structure [of g] sw
    by (auto simp: node_ok_def is_chain_valid_def bc_validate_chain_def max_supply_of_def
        validate_chain_Valid Mempool_new_def mempool_invar_def dict_invar_def)
  ultimately show ?thesis using g(5) by auto
qed

section \<open>What the node mines, it accepts\<close>

lemma total_supply_replay:
  assumes "replay_chain C reward mx chain (bal0, s0) = Inr (bal, s)"
    "\<And>b. b \<in> set chain \<Longrightarrow> index b = 0 \<Longrightarrow> filter is_coinbase (transactions b) = []"
  shows "s = s0 + sum_list (map amount_base_units (concat (map (\<lambda>b. filter is_coinbase (transactions b)) chain)))"
proof -
  have "sum_list (map (\<lambda>b. sum_list (map amount_base_units (filter is_coinbase (transactions b))))
      (filter (\<lambda>b. index b \<noteq> 0) chain)) =
    sum_list (map amount_base_units (concat (map (\<lambda>b. filter is_coinbase (transactions b)) chain)))"
    using assms(2) by (induction chain) auto
  with replay_chain_coinbase_total [OF assms(1)] show ?thesis by simp
qed

lemma node_total_supply:
  assumes ok: "node_ok C bc" and "filter is_coinbase (transactions (hd (bc_chain bc))) = []"
    and r: "replay_chain C (reward_of bc) (max_supply_of bc) (bc_chain bc) ([], 0) = Inr (bal, s)"
  shows "total_supply_base_units bc = s"
proof -
  have "filter is_coinbase (transactions b) = []" if "b \<in> set (bc_chain bc)" "index b = 0" for b
  proof -
    have "b = hd (bc_chain bc)"
      using that index_tl_nonzero [OF node_ok_index [OF ok]] by (cases "bc_chain bc") auto
    then show ?thesis using assms(2) by simp
  qed
  from total_supply_replay [OF r this] show ?thesis by (simp add: total_supply_base_units_def)
qed

text \<open>A sealed block of a coinbase with the protocol reward and transfers that can be paid in
  order extends the node's chain.\<close>
lemma assembled_block_valid:
  assumes ok: "node_ok C bc" and addr: "is_valid_address a"
    and rw: "0 < reward_of bc" "max_supply_of bc \<le> MAX_SUPPLY_BASE_UNITS"
    and r: "replay_chain C (reward_of bc) (max_supply_of bc) (bc_chain bc) ([], 0) = Inr (bal, s)"
    and rem: "s < max_supply_of bc"
    and sel: "filter is_coinbase sel = []"
    and t: "replay_txs C sel (credit a (min (reward_of bc) (max_supply_of bc - s)) bal) = Inr bal'"
    and hd: "index b = index (last (bc_chain bc)) + 1" "previous_hash b = block_hash (last (bc_chain bc))"
      "num_val (blk_timestamp (last (bc_chain bc))) < num_val (blk_timestamp b)"
      "current_difficulty bc = Inr (difficulty b)" "sealed b" "e_validate (bc_consensus bc) b (difficulty b)"
    and txs: "transactions b = coinbase_for a (min (reward_of bc) (max_supply_of bc - s)) ts # sel"
  shows "validate_next C b bc = Inr Valid"
proof -
  let ?mx = "max_supply_of bc" and ?cfg = "consensus_cfg (bc_settings bc)"
  let ?rw = "min (reward_of bc) (max_supply_of bc - s)"
  note n = node_ok_chain [OF ok]
  have led: "ledger_invar ?mx (bal, s)" by (rule replay_chain_ledger [OF r ledger_invar_start [OF n(2)]])
  then have s: "0 \<le> s" by (simp add: ledger_invar_def)
  have rpos: "0 < ?rw" "?rw \<le> MAX_SUPPLY_BASE_UNITS" using rem rw s by auto
  have tip: "0 \<le> index (last (bc_chain bc))"
    using node_ok_index [OF ok, of "length (bc_chain bc) - 1"] n(3) by (simp add: last_conv_nth)
  have one: "filter is_coinbase (transactions b) = [coinbase_for a ?rw ts]" using sel by (simp add: txs)
  have "replay_txs C (transactions b) (credit a ?rw bal) = Inr bal'" using t by (simp add: txs)
  then have blk: "replay_block C (reward_of bc) ?mx b (bal, s) = Inr (bal', s + ?rw)"
    using one rpos tip by (simp add: replay_block_def Let_def hd(1)) linarith
  have "\<forall>tx \<in> set sel. validate_transaction C tx = Valid"
    using replay_txs_spec [OF t] led sel by (auto simp: ledger_invar_def filter_empty_conv)
  moreover have "validate_transaction C (coinbase_for a ?rw ts) = Valid"
    using coinbase_for_verifies rpos addr by (simp add: validate_transaction_Valid)
  ultimately have "first_invalid_tx C (transactions b) = Valid"
    by (simp add: first_invalid_tx_Valid txs)
  then have str: "validate_block_structure C b (Some ?rw) ?mx = Valid"
    using hd(5) one tip s rem rw(1) by (simp add: validate_block_structure_def sealed_def hd(1))
  have "valid_extension C (bc_consensus bc) ?cfg (reward_of bc) ?mx (bc_chain bc) b"
    unfolding valid_extension_def
    using hd n(3) r blk str rpos by (auto simp: current_difficulty_expected)
  then show ?thesis by (simp add: validate_next_def validate_block_against_chain_Valid)
qed

context consensus_engine
begin

lemma prepared_block_valid:
  assumes ok: "node_ok C bc" and E: "bc_consensus bc = E"
    and p: "prepare_block now a bc = Inr (b, hs)"
    and addr: "is_valid_address a" and rw: "0 < reward_of bc" "max_supply_of bc \<le> MAX_SUPPLY_BASE_UNITS"
    and gen: "filter is_coinbase (transactions (hd (bc_chain bc))) = []"
    and sel: "filter is_coinbase (get_pending (Some MAX_TRANSACTIONS_PER_BLOCK) (bc_mempool bc)) = []"
    and r: "replay_chain C (reward_of bc) (max_supply_of bc) (bc_chain bc) ([], 0) = Inr (bal, s)"
    and t: "replay_txs C (get_pending (Some MAX_TRANSACTIONS_PER_BLOCK) (bc_mempool bc))
      (credit a (min (reward_of bc) (max_supply_of bc - s)) bal) = Inr bal'"
  shows "validate_next C b bc = Inr Valid"
proof -
  let ?tip = "last (bc_chain bc)" and ?rw = "min (reward_of bc) (max_supply_of bc - s)"
  have sup: "total_supply_base_units bc = s" by (rule node_total_supply [OF ok gen r])
  obtain d where d: "current_difficulty bc = Inr d" and rem: "0 < max_supply_of bc - s"
    and m: "mine_block now (bc_miner bc) (index ?tip + 1) (block_hash ?tip) (bc_mempool bc) a d
      MAX_TRANSACTIONS_PER_BLOCK (Some ?rw) (Some (max now (num_val (blk_timestamp ?tip) + 1))) = Inr (b, hs)"
    using p by (auto simp: prepare_block_def sup latest_block_def Let_def split: sum.splits if_splits)
  have mc: "miner_consensus (bc_miner bc) = E" using ok E by (simp add: node_ok_def)
  note c = mine_block_content [OF m mc]
  show ?thesis
    by (rule assembled_block_valid [OF ok addr rw r _ sel t _ _ _ _ c(5) _ c(7)])
      (use c rem d E in simp_all)
qed

end

section \<open>The step relation\<close>

text \<open>The core object and the blocks being mined: each was prepared from some earlier state.\<close>

record system =
  core :: blockchain
  in_flight :: "(block \<times> string list) list"

text \<open>A step is one operation that returns, under the lock; preparing a block only reads.  The
  outcome of \<open>commit_block\<close> where the database refuses a validated block is not a step (it is
  the subject of a separate theorem).\<close>

inductive core_step :: "crypto \<Rightarrow> system \<Rightarrow> system \<Rightarrow> bool" for C where
  submit: "wire_tx tx \<Longrightarrow> submit_transaction C tx (core s) = (v, bc) \<Longrightarrow> core_step C s (s\<lparr>core := bc\<rparr>)"
| prepare: "prepare_block now a (core s) = Inr mined \<Longrightarrow>
    core_step C s (s\<lparr>in_flight := mined # in_flight s\<rparr>)"
| commit: "mined \<in> set (in_flight s) \<Longrightarrow> commit_block C mined (core s) = (Inr b, bc) \<Longrightarrow>
    core_step C s (s\<lparr>core := bc, in_flight := remove1 mined (in_flight s)\<rparr>)"
| discard: "mined \<in> set (in_flight s) \<Longrightarrow> validate_next C (fst mined) (core s) \<noteq> Inr Valid \<Longrightarrow>
    commit_block C mined (core s) = (Inl e, bc) \<Longrightarrow>
    core_step C s (s\<lparr>core := bc, in_flight := remove1 mined (in_flight s)\<rparr>)"
| receive: "wire_block b \<Longrightarrow> commit_block C (b, map tx_hash (transactions b)) (core s) = (Inr b, bc) \<Longrightarrow>
    core_step C s (s\<lparr>core := bc\<rparr>)"
| replace: "list_all wire_block candidate \<Longrightarrow> hash_faithful (bc_chain (core s)) candidate \<Longrightarrow>
    replace_chain C now candidate (core s) = (r, bc) \<Longrightarrow> core_step C s (s\<lparr>core := bc\<rparr>)"

inductive_cases core_stepE: "core_step C s s'"

definition system_ok :: "crypto \<Rightarrow> system \<Rightarrow> bool" where
  "system_ok C s \<longleftrightarrow>
     node_ok C (core s) \<and> bc_consensus (core s) = ProofOfWorkConsensus \<and>
     list_all (\<lambda>m. wire_block (fst m)) (in_flight s)"

lemma prepared_wire:
  assumes ok: "node_ok C bc" "bc_consensus bc = ProofOfWorkConsensus"
    and p: "prepare_block now a bc = Inr (b, hs)"
  shows "wire_block b"
proof -
  have mc: "miner_consensus (bc_miner bc) = ProofOfWorkConsensus" using ok by (simp add: node_ok_def)
  obtain i prev d r ts where m: "mine_block now (bc_miner bc) i prev (bc_mempool bc) a d
      MAX_TRANSACTIONS_PER_BLOCK (Some r) (Some ts) = Inr (b, hs)"
    using p by (auto simp: prepare_block_def Let_def split: sum.splits if_splits)
  note c = pow.mine_block_content [OF m mc]
  have "wire_tx tx" if "tx \<in> set (get_pending (Some MAX_TRANSACTIONS_PER_BLOCK) (bc_mempool bc))" for tx
    using that set_get_pending [of "Some MAX_TRANSACTIONS_PER_BLOCK" "bc_mempool bc"] ok(1)
    by (auto simp: node_ok_def list_all_iff dict_values_def)
  then show ?thesis by (auto simp: wire_block_def c(3,7) list_all_iff wire_tx_def)
qed

lemma commit_frame:
  "commit_block C m bc = (r, bc') \<Longrightarrow>
   bc_consensus bc' = bc_consensus bc \<and> bc_settings bc' = bc_settings bc \<and> bc_miner bc' = bc_miner bc"
  by (auto simp: commit_block_def Let_def split: prod.splits sum.splits verdict.splits)

lemma core_step_ok:
  assumes "core_step C s s'" "system_ok C s"
  shows "system_ok C s'"
  using assms
proof (cases rule: core_step.cases)
  case (submit tx v bc)
  then have "bc_consensus bc = bc_consensus (core s)"
    by (cases rule: submit_transaction_cases [OF submit(3)]) (auto dest: arg_cong [of _ _ bc_consensus])
  with submit assms(2) node_ok_submit show ?thesis by (auto simp: system_ok_def)
next
  case (prepare now a mined)
  then show ?thesis using assms(2) prepared_wire [of C "core s" now a "fst mined" "snd mined"]
    by (simp add: system_ok_def)
next
  case (commit mined b bc)
  obtain nb hs where m: "mined = (nb, hs)" by fastforce
  have "wire_block nb" using commit(2) assms(2) m by (auto simp: system_ok_def list_all_iff)
  then have "node_ok C bc" using node_ok_commit commit(3) assms(2) m by (auto simp: system_ok_def)
  with commit assms(2) commit_frame [OF commit(3)] show ?thesis
    by (auto simp: system_ok_def list_all_iff dest: notin_set_remove1 [of _ _ mined] set_remove1_subset [THEN subsetD])
next
  case (discard mined e bc)
  then have "bc = core s" by (cases mined) (auto elim: commit_block_cases)
  with discard assms(2) show ?thesis
    by (auto simp: system_ok_def list_all_iff dest: set_remove1_subset [THEN subsetD])
next
  case (receive b bc)
  then show ?thesis using assms(2) node_ok_commit [OF _ receive(3)] commit_frame [OF receive(3)]
    by (auto simp: system_ok_def)
next
  case (replace candidate now r bc)
  show ?thesis
    using replace(4)
  proof (cases rule: replace_chain_cases)
    case refused
    with replace assms(2) show ?thesis by (simp add: system_ok_def)
  next
    case (adopted st)
    with replace assms(2) node_ok_replace show ?thesis by (auto simp: system_ok_def)
  qed
qed

lemma core_steps_ok: "(core_step C)\<^sup>*\<^sup>* s s' \<Longrightarrow> system_ok C s \<Longrightarrow> system_ok C s'"
  by (induction rule: rtranclp_induct) (auto intro: core_step_ok)

section \<open>Work never decreases, the genesis hash never changes\<close>

definition genesis_hash_of :: "system \<Rightarrow> string" where
  "genesis_hash_of s = block_hash (hd (bc_chain (core s)))"

lemma commit_chain:
  "commit_block C (b, hs) bc = (Inr b', bc') \<Longrightarrow> bc_chain bc' = bc_chain bc @ [b]"
  by (elim commit_block_cases) auto

lemma core_step_work:
  assumes "core_step C s s'" "system_ok C s"
  shows "bc_chain (core s') = bc_chain (core s) \<or> total_work (core s) < total_work (core s')"
    "genesis_hash_of s' = genesis_hash_of s"
proof -
  have ne: "bc_chain (core s) \<noteq> []" using assms(2) node_ok_chain(3) by (auto simp: system_ok_def)
  have grow: "total_work bc < total_work bc' \<and> hd (bc_chain bc') = hd (bc_chain bc)"
    if "bc_chain bc' = bc_chain bc @ [b]" "bc_chain bc \<noteq> []" for bc bc' b
    using that by (simp add: total_work_def chain_work_append)
  have "(bc_chain (core s') = bc_chain (core s) \<or> total_work (core s) < total_work (core s')) \<and>
      genesis_hash_of s' = genesis_hash_of s"
    using assms(1)
  proof (cases rule: core_step.cases)
    case (submit tx v bc)
    then have "bc_chain bc = bc_chain (core s)"
      by (cases rule: submit_transaction_cases [OF submit(3)]) (auto dest: arg_cong [of _ _ bc_chain])
    with submit show ?thesis by (simp add: genesis_hash_of_def)
  next
    case (prepare now a mined)
    then show ?thesis by (simp add: genesis_hash_of_def)
  next
    case (commit mined b bc)
    obtain nb hs where "mined = (nb, hs)" by fastforce
    with commit grow [of bc "core s"] commit_chain ne show ?thesis by (auto simp: genesis_hash_of_def)
  next
    case (discard mined e bc)
    then have "bc = core s" by (cases mined) (auto elim: commit_block_cases)
    with discard show ?thesis by (simp add: genesis_hash_of_def)
  next
    case (receive b bc)
    with grow [of bc "core s"] commit_chain ne show ?thesis by (auto simp: genesis_hash_of_def)
  next
    case (replace candidate now r bc)
    show ?thesis
      using replace(4)
    proof (cases rule: replace_chain_cases)
      case refused
      with replace show ?thesis by (simp add: genesis_hash_of_def)
    next
      case (adopted st)
      with replace show ?thesis by (simp add: genesis_hash_of_def total_work_def genesis_block_def)
    qed
  qed
  then show "bc_chain (core s') = bc_chain (core s) \<or> total_work (core s) < total_work (core s')"
    "genesis_hash_of s' = genesis_hash_of s" by auto
qed

lemma core_steps_work:
  "(core_step C)\<^sup>*\<^sup>* s s' \<Longrightarrow> system_ok C s \<Longrightarrow>
   total_work (core s) \<le> total_work (core s') \<and> genesis_hash_of s' = genesis_hash_of s"
proof (induction rule: rtranclp_induct)
  case (step t u)
  then have "system_ok C t" using core_steps_ok by blast
  from core_step_work [OF step(2) this] step show ?case by (auto simp: total_work_def)
qed simp

end
