(* ===== verification/Samples.thy ===== *)
theory Samples
  imports Core_Run
begin

text \<open>
  Concrete values on which the properties of the later theories are applied: a configuration whose difficulty is 0, a fresh node, and blocks
  mined by it.
\<close>

definition default_p2p :: p2p_config where
  "default_p2p =
     \<lparr>node_id_override = [], advertised_address = [], bootstrap_peers = [], max_peers = 25,
      sync_timeout_seconds = 10, propagation_timeout_seconds = 5, max_chain_sync_bytes = 8388608,
      max_block_payload_bytes = 524288, max_transaction_payload_bytes = 16384,
      rate_limit_requests = 60, rate_limit_window_seconds = 60, allow_private_peer_addresses = True,
      auth_freshness_window_seconds = 300, replay_cache_size = 10000, max_sync_blocks = 50000,
      max_handshake_payload_bytes = 8192, max_request_body_bytes = 1048576,
      maintenance_interval_seconds = 15, max_peer_failures = 8, rate_limit_max_keys = 10000\<rparr>"

definition sample_settings :: settings where
  "sample_settings =
     \<lparr>genesis_cfg = GenesisConfig,
      consensus_cfg = \<lparr>algorithm = ''pow'', config_difficulty = 0, target_block_time_seconds = 30,
        difficulty_adjustment_interval = 1, min_difficulty = 0, max_difficulty = 32,
        max_difficulty_adjustment_factor = 4\<rparr>,
      mining_cfg = \<lparr>block_reward = 5000000000, coinbase_address = COINBASE_SENDER, halving_interval = 210000\<rparr>,
      network_cfg = \<lparr>net_name = ''sayanjali-mainnet-mvp'', net_host = ''0.0.0.0'', net_port = 8000, chain_id = 1\<rparr>,
      native_asset_cfg = NativeAssetConfig, p2p_cfg = default_p2p\<rparr>"

definition sample_node :: blockchain where
  "sample_node = (case Blockchain_init 0 sample_settings empty_storage of Inr bc \<Rightarrow> bc)"

definition sample_address :: string where
  "sample_address = derive_address ''aa''"

lemma sample_address_valid [simp]: "is_valid_address sample_address"
  by (simp add: sample_address_def)

lemma sample_node_facts:
  "node_ok C sample_node" "length (bc_chain sample_node) = 1"
  "bc_consensus sample_node = ProofOfWorkConsensus" "bc_settings sample_node = sample_settings"
  "filter is_coinbase (transactions (hd (bc_chain sample_node))) = []"
  "Blockchain_init 0 sample_settings empty_storage = Inr sample_node"
  "stored_with sample_node (hd (bc_chain sample_node))"
proof -
  have "algorithm (consensus_cfg sample_settings) = ''pow''"
    "is_float (gen_timestamp (genesis_cfg sample_settings))"
    "0 \<le> max_supply_base_units (native_asset_cfg sample_settings)"
    by (simp_all add: sample_settings_def GenesisConfig_def NativeAssetConfig_def max_supply_value)
  from Blockchain_init_fresh [OF this, of 0 C]
  show "node_ok C sample_node" "length (bc_chain sample_node) = 1"
    "bc_consensus sample_node = ProofOfWorkConsensus" "bc_settings sample_node = sample_settings"
    "filter is_coinbase (transactions (hd (bc_chain sample_node))) = []"
    "Blockchain_init 0 sample_settings empty_storage = Inr sample_node"
    "stored_with sample_node (hd (bc_chain sample_node))"
    by (auto simp: sample_node_def)
qed

lemma sample_rates [simp]:
  "reward_of sample_node = 5000000000" "max_supply_of sample_node = 72000000000000000"
  by (simp_all add: reward_of_def max_supply_of_def sample_node_facts sample_settings_def
      NativeAssetConfig_def max_supply_value)

text \<open>Mining at difficulty 0 succeeds with the first nonce.\<close>
lemma pow_mine_zero: "pow_mine b 0 = Inr (with_nonce 0 (b\<lparr>difficulty := 0\<rparr>))"
  by (simp add: pow_mine_start mine_loop.simps zeros_def)

lemma sample_difficulty:
  assumes "length chain \<ge> 1"
  shows "expected_difficulty ProofOfWorkConsensus (consensus_cfg sample_settings) chain = Inr 0"
proof -
  have "length (recent_window (consensus_cfg sample_settings) chain) = 1"
    using assms by (auto simp: recent_window_def sample_settings_def slice_from_def Let_def)
  then show ?thesis
    by (simp add: expected_difficulty_def ProofOfWorkConsensus_def pow_next_difficulty_def)
      (simp add: sample_settings_def)
qed

end
