(* ===== verification/Core_Properties.thy ===== *)
theory Core_Properties
  imports Samples
begin

text \<open>
  Properties that span the core components: the node started from an empty database and run
  through any sequence of operations, mining, the pool, and what the checks of block and
  chain do not bind.
\<close>

section \<open>Samples: a node with two blocks\<close>

text \<open>Mining on the fresh node with an empty pool.\<close>

definition sample_mined :: "block \<times> string list" where
  "sample_mined = (case prepare_block 0 sample_address sample_node of Inr m \<Rightarrow> m)"

lemma sample_prepared: "prepare_block 0 sample_address sample_node = Inr sample_mined"
proof -
  have len: "length (bc_chain sample_node) = 1" by (rule sample_node_facts)
  have d: "current_difficulty sample_node = Inr 0"
    using sample_difficulty [of "bc_chain sample_node"] len
    by (simp add: current_difficulty_expected sample_node_facts(3,4))
  have ok: "node_ok sample_crypto sample_node" by (rule sample_node_facts)
  obtain bal s where r: "replay_chain sample_crypto (reward_of sample_node) (max_supply_of sample_node)
      (bc_chain sample_node) ([], 0) = Inr (bal, s)"
    using valid_chain_replay [OF node_ok_chain(1) [OF ok]] by blast
  have "mined_blocks (bc_chain sample_node) = 0"
    using node_ok_chain(3,4) [OF ok] len by (cases "bc_chain sample_node") (auto simp: mined_blocks_def)
  then have "s = 0" using replay_chain_supply [OF r] by simp
  then have sup: "total_supply_base_units sample_node = 0"
    using node_total_supply [OF ok sample_node_facts(5) r] by simp
  have mc: "miner_consensus (bc_miner sample_node) = ProofOfWorkConsensus"
    using ok sample_node_facts(3) by (simp add: node_ok_def)
  have "\<exists>m. prepare_block 0 sample_address sample_node = Inr m"
    by (simp add: prepare_block_def d sup mine_block_def mk_Transaction_base_units Let_def mc
        ProofOfWorkConsensus_def pow_mine_zero)
  then show ?thesis by (auto simp: sample_mined_def)
qed

lemma sample_empty_pool: "bc_mempool sample_node = []"
proof -
  have "bc_mempool bc = []" if "Blockchain_init 0 sample_settings empty_storage = Inr bc" for bc
    using that
    by (auto simp: Blockchain_init_def load_chain_def empty_storage_def Let_def Mempool_new_def
        create_and_persist_genesis_block_def split: sum.splits)
  then show ?thesis using sample_node_facts(6) by blast
qed

definition sample_system :: system where
  "sample_system = \<lparr>core = sample_node, in_flight = []\<rparr>"

lemma sample_system_ok: "system_ok C sample_system"
  using sample_node_facts by (simp add: system_ok_def sample_system_def)

section \<open>Running the node\<close>



text \<open>Along every run the accumulated work never decreases, a step that changes the chain
  strictly increases it, and the genesis hash stays the same.\<close>
theorem work_never_decreases:
  assumes "system_ok C s" "(core_step C)\<^sup>*\<^sup>* s t" "core_step C t u"
  shows "total_work (core s) \<le> total_work (core t) \<and> genesis_hash_of u = genesis_hash_of s \<and>
    (bc_chain (core u) = bc_chain (core t) \<or> total_work (core t) < total_work (core u))"
  using core_steps_work [OF assms(2,1)] core_step_work [OF assms(3) core_steps_ok [OF assms(2,1)]] by simp

theorem work_never_decreases_witness:
  "genesis_hash_of (sample_system\<lparr>in_flight := [sample_mined]\<rparr>) = genesis_hash_of sample_system"
proof -
  have "core_step sample_crypto sample_system (sample_system\<lparr>in_flight := [sample_mined]\<rparr>)"
    using core_step.prepare [of 0 sample_address sample_system] sample_prepared
    by (simp add: sample_system_def)
  from work_never_decreases [OF sample_system_ok rtranclp.rtrancl_refl this] show ?thesis by simp
qed

section \<open>Mining\<close>



lemma sample_chain_valid:
  "validate_chain sample_crypto ProofOfWorkConsensus (consensus_cfg sample_settings) 5000000000 72000000000000000
     (bc_chain sample_node @ [fst sample_mined]) = Inr Valid"
proof -
  have ok: "node_ok sample_crypto sample_node" by (rule sample_node_facts)
  obtain bal s where r: "replay_chain sample_crypto (reward_of sample_node) (max_supply_of sample_node)
      (bc_chain sample_node) ([], 0) = Inr (bal, s)"
    using valid_chain_replay [OF node_ok_chain(1) [OF ok]] by blast
  have p: "prepare_block 0 sample_address sample_node = Inr (fst sample_mined, snd sample_mined)"
    by (simp add: sample_prepared)
  have "validate_next sample_crypto (fst sample_mined) sample_node = Inr Valid"
    by (rule pow.prepared_block_valid [OF ok sample_node_facts(3) p sample_address_valid _ _ sample_node_facts(5) _ r])
      (simp_all add: max_supply_value sample_empty_pool get_pending_def dict_values_def slice_to_def)
  then show ?thesis
    using valid_chain_extend [OF node_ok_chain(1) [OF ok]]
    by (simp add: validate_next_def sample_node_facts(3,4))
qed

text \<open>In a valid chain the heights count up by one, every block names the hash of the one before,
  timestamps increase strictly, every block carries its own root and hash, and every block's
  difficulty is the one the blocks before it require.\<close>
theorem valid_chain_links:
  assumes "validate_chain C E cfg reward mx chain = Inr Valid" "0 \<le> mx" "Suc i < length chain"
  shows "index (chain ! Suc i) = index (chain ! i) + 1 \<and>
    previous_hash (chain ! Suc i) = block_hash (chain ! i) \<and>
    num_val (blk_timestamp (chain ! i)) < num_val (blk_timestamp (chain ! Suc i)) \<and>
    sealed (chain ! Suc i) \<and> e_validate E (chain ! Suc i) (difficulty (chain ! Suc i)) \<and>
    expected_difficulty E cfg (take (Suc i) chain) = Inr (difficulty (chain ! Suc i))"
  using valid_chain_consecutive [OF assms] valid_extension_sealed [OF valid_chain_consecutive(1) [OF assms]]
  by (auto simp: valid_extension_def)

theorem valid_chain_links_witness:
  "previous_hash ((bc_chain sample_node @ [fst sample_mined]) ! Suc 0) =
   block_hash ((bc_chain sample_node @ [fst sample_mined]) ! 0)"
  using valid_chain_links [OF sample_chain_valid, of 0] sample_node_facts(2) by simp

section \<open>The pool\<close>


lemma sample_coinbase_valid [simp]:
  "is_coinbase sample_coinbase" "validate_transaction sample_crypto sample_coinbase = Valid"
  using sample_coinbase_verifies
  by (simp_all add: validate_transaction_Valid) (simp_all add: is_coinbase_def sample_coinbase_def Let_def)


text \<open>A block with a second coinbase fails the replay.\<close>
lemma two_coinbases_invalid:
  assumes "index b \<noteq> 0" "\<And>cb. filter is_coinbase (transactions b) \<noteq> [cb]"
  shows "validate_block_against_chain C E cfg reward mx b chain \<noteq> Inr Valid"
proof -
  have "replay_block C reward mx b (bal, s) \<noteq> Inr st'" for bal s st'
    using assms by (cases st') (auto dest: replay_block_Inr)
  then show ?thesis by (auto simp: validate_block_against_chain_Valid valid_extension_def)
qed

lemma pool_coinbase_blocks_mining:
  assumes ok: "node_ok C bc" "bc_consensus bc = ProofOfWorkConsensus"
    and cb: "cb \<in> set (get_pending (Some MAX_TRANSACTIONS_PER_BLOCK) (bc_mempool bc))" "is_coinbase cb"
  shows "\<exists>e. mine_pending_transactions C now a bc = (Inl e, bc)"
proof (cases "prepare_block now a bc")
  case (Inl e)
  then show ?thesis by (simp add: mine_pending_transactions_def)
next
  case (Inr m)
  obtain b hs where m: "m = (b, hs)" by fastforce
  have mc: "miner_consensus (bc_miner bc) = ProofOfWorkConsensus" using ok by (simp add: node_ok_def)
  obtain d r ts where mb: "mine_block now (bc_miner bc) (index (latest_block bc) + 1)
      (block_hash (latest_block bc)) (bc_mempool bc) a d MAX_TRANSACTIONS_PER_BLOCK (Some r) (Some ts) = Inr (b, hs)"
    using Inr m by (auto simp: prepare_block_def Let_def split: sum.splits if_splits)
  note c = pow.mine_block_content [OF mb mc]
  have "0 \<le> index (latest_block bc)"
    using node_ok_index [OF ok(1), of "length (bc_chain bc) - 1"] node_ok_chain(3) [OF ok(1)]
    by (simp add: latest_block_def last_conv_nth)
  moreover have "filter is_coinbase (transactions b) \<noteq> [x]" for x
    using cb by (auto simp: c(7) filter_empty_conv)
  ultimately have "validate_next C b bc \<noteq> Inr Valid"
    using two_coinbases_invalid c(1) by (auto simp: validate_next_def)
  then show ?thesis
    using Inr m by (auto simp: mine_pending_transactions_def commit_block_def split: sum.splits verdict.splits)
qed

text \<open>\<open>submit_transaction\<close> takes an unsigned coinbase transaction of any sender's making into the
  pool; from then on, with fewer than 500 transactions pending, every attempt to mine
  raises and leaves the pool as it is.\<close>
theorem submitted_coinbase_blocks_mining:
  assumes "node_ok C bc" "bc_consensus bc = ProofOfWorkConsensus"
    and "is_coinbase cb" "verify C cb" "wire_tx cb" "\<not> mempool_contains (tx_hash cb) (bc_mempool bc)"
    and "length (bc_mempool bc) < 500"
  shows "\<exists>bc'. submit_transaction C cb bc = (Valid, bc') \<and>
    (\<forall>now a. \<exists>e. mine_pending_transactions C now a bc' = (Inl e, bc'))"
proof -
  let ?m = "bc_mempool bc @ [(tx_hash cb, cb)]" and ?bc = "bc\<lparr>bc_mempool := bc_mempool bc @ [(tx_hash cb, cb)]\<rparr>"
  have add: "add_transaction C cb (bc_mempool bc) = (True, ?m)"
    using assms by (simp add: add_transaction_iff)
  have "validate_transaction C cb = Valid" using assms by (simp add: validate_transaction_Valid)
  then have s: "submit_transaction C cb bc = (Valid, ?bc)"
    using assms(3) by (simp add: submit_transaction_def add Let_def)
  have ok: "node_ok C ?bc" by (rule node_ok_submit [OF assms(1) s assms(5)])
  have "length ?m \<le> 500" using assms(7) by simp
  then have "get_pending (Some MAX_TRANSACTIONS_PER_BLOCK) ?m = get_pending None ?m"
    by (simp add: get_pending_limit slice_to_def MAX_TRANSACTIONS_PER_BLOCK_def)
      (simp add: get_pending_def dict_values_def)
  then have "cb \<in> set (get_pending (Some MAX_TRANSACTIONS_PER_BLOCK) (bc_mempool ?bc))"
    using get_pending_mset [of ?m, THEN mset_eq_setD] by (simp add: dict_values_def)
  from pool_coinbase_blocks_mining [OF ok _ this assms(3)] assms(2) s show ?thesis by auto
qed

theorem submitted_coinbase_blocks_mining_witness:
  "\<exists>bc'. submit_transaction sample_crypto sample_coinbase sample_node = (Valid, bc') \<and>
    (\<forall>now a. \<exists>e. mine_pending_transactions sample_crypto now a bc' = (Inl e, bc'))"
  by (rule submitted_coinbase_blocks_mining [OF sample_node_facts(1,3) _ sample_coinbase_verifies])
    (simp_all add: sample_coinbase_def Let_def is_coinbase_def wire_tx_def mempool_contains_def sample_empty_pool)

text \<open>nothing in \<open>submit_transaction\<close> looks at the chain: a transaction that a block has already
  confirmed is accepted again whenever it is no longer pending and the sender can pay.\<close>
theorem confirmed_transaction_resubmitted:
  assumes "b \<in> set (bc_chain bc)" "tx \<in> set (transactions b)" "validate_transaction C tx = Valid"
    and "\<not> mempool_contains (tx_hash tx) (bc_mempool bc)"
    and "pending_spend_for (sender tx) (bc_mempool bc) + amount_base_units tx \<le> bc_get_balance (sender tx) bc"
  shows "fst (submit_transaction C tx bc) = Valid"
proof -
  have "add_transaction C tx (bc_mempool bc) = (True, bc_mempool bc @ [(tx_hash tx, tx)])"
    using assms by (simp add: add_transaction_iff validate_transaction_Valid)
  then show ?thesis using assms(3,5) by (simp add: submit_transaction_def Let_def)
qed

lemma sample_signed_valid: "validate_transaction sample_crypto sample_signed = Valid"
  using sample_signed_verifies by (simp add: validate_transaction_Valid)

theorem confirmed_transaction_resubmitted_witness:
  "fst (submit_transaction sample_crypto sample_signed
     (sample_node\<lparr>bc_chain := [sample_block\<lparr>transactions := [sample_signed]\<rparr>],
        bc_storage := empty_storage\<lparr>wallets_table := [(sender sample_signed, 10)]\<rparr>\<rparr>)) = Valid"
  by (rule confirmed_transaction_resubmitted [where b = "sample_block\<lparr>transactions := [sample_signed]\<rparr>",
        OF _ _ sample_signed_valid])
    (simp_all add: sample_empty_pool mempool_contains_def pending_spend_for_def dict_values_def
      bc_get_balance_def get_balance_def)

text \<open>C39: a validated block the database refuses (a transaction hash it already holds) stays on the
  in-memory chain: after the exception the node's chain has one block more than its tables,
  and a restart would read the shorter chain.\<close>
theorem refused_block_stays_in_memory:
  assumes "node_ok C bc" "stored_with bc (hd (bc_chain bc))"
    and "validate_next C b bc = Inr Valid" "save_block b (bc_storage bc) = Inl e"
  shows "\<exists>bc'. commit_block C (b, hs) bc = (Inl e, bc') \<and> bc_chain bc' = bc_chain bc @ [b] \<and>
    bc_storage bc' = bc_storage bc \<and> load_chain now (bc_storage bc') = Inr (bc_chain bc)"
proof -
  have "storage_holds (bc_storage bc) (bc_chain bc)"
    using assms(2) node_ok_chain(3) [OF assms(1)] by (simp add: stored_with_def)
  then have "load_chain now (bc_storage bc) = Inr (bc_chain bc)"
    using load_chain_holds indexed_split(3) [OF node_ok_index [OF assms(1)]] by blast
  then show ?thesis using assms(3,4) by (simp add: commit_block_def Let_def)
qed

text \<open>A block on the fresh node in which the miner's own transfer stands twice.\<close>

definition sample_double :: block where
  "sample_double =
     with_nonce 0
       \<lparr>index = 1, previous_hash = block_hash (hd (bc_chain sample_node)),
        transactions = [coinbase_for (derive_address (point_hex (1, 2))) 5000000000
            (num_val (blk_timestamp (hd (bc_chain sample_node))) + 1), sample_signed, sample_signed],
        blk_timestamp = PyInt (num_val (blk_timestamp (hd (bc_chain sample_node))) + 1), nonce = 0,
        difficulty = 0, blk_merkle_root = [], block_hash = []\<rparr>"

lemma sample_node_state:
  "bc_chain sample_node = [hd (bc_chain sample_node)]" "index (hd (bc_chain sample_node)) = 0"
  "replay_chain sample_crypto 5000000000 72000000000000000 (bc_chain sample_node) ([], 0) = Inr ([], 0)"
  "current_difficulty sample_node = Inr 0"
proof -
  show c: "bc_chain sample_node = [hd (bc_chain sample_node)]"
    using sample_node_facts(2) by (cases "bc_chain sample_node") auto
  show z: "index (hd (bc_chain sample_node)) = 0" by (rule node_ok_chain(4) [OF sample_node_facts(1)])
  show "replay_chain sample_crypto 5000000000 72000000000000000 (bc_chain sample_node) ([], 0) = Inr ([], 0)"
    by (subst c) (simp add: z)
  show "current_difficulty sample_node = Inr 0"
    using sample_difficulty [of "bc_chain sample_node"] sample_node_facts(2)
    by (simp add: current_difficulty_expected sample_node_facts(3,4))
qed

lemma sealed_validates_at_zero: "sealed b \<Longrightarrow> difficulty b = 0 \<Longrightarrow> pow_validate b 0"
  by (simp add: pow_validate_def sealed_def meets_difficulty_def zeros_def)

lemma sample_double_fields [simp]:
  "sealed sample_double" "difficulty sample_double = 0" "index sample_double = 1"
  "blk_timestamp sample_double = PyInt (num_val (blk_timestamp (hd (bc_chain sample_node))) + 1)"
  "previous_hash sample_double = block_hash (hd (bc_chain sample_node))"
  "transactions sample_double = [coinbase_for (derive_address (point_hex (1, 2))) 5000000000
     (num_val (blk_timestamp (hd (bc_chain sample_node))) + 1), sample_signed, sample_signed]"
  by (simp_all add: sample_double_def)

lemma sample_double_valid: "validate_next sample_crypto sample_double sample_node = Inr Valid"
proof -
  let ?a = "derive_address (point_hex (1, 2))"
  have ne: "?a \<noteq> sample_receiver" by simp
  have "filter is_coinbase [sample_signed, sample_signed] = []"
    using sample_signed_not_coinbase by simp
  moreover have "\<exists>bal'. replay_txs sample_crypto [sample_signed, sample_signed] (credit ?a 5000000000 []) = Inr bal'"
    using sample_signed_not_coinbase sample_signed_valid ne ne [symmetric] by (simp add: Let_def)
  then obtain bal' where "replay_txs sample_crypto [sample_signed, sample_signed]
      (credit ?a (min (reward_of sample_node) (max_supply_of sample_node - 0)) []) = Inr bal'"
    by auto
  moreover have "last (bc_chain sample_node) = hd (bc_chain sample_node)"
    by (subst sample_node_state(1)) simp
  moreover have "e_validate (bc_consensus sample_node) sample_double 0"
    by (simp add: sample_node_facts(3) ProofOfWorkConsensus_def sealed_validates_at_zero)
  ultimately show ?thesis
    by (intro assembled_block_valid [OF sample_node_facts(1), where a = ?a and bal = "[]" and s = 0])
      (simp_all add: max_supply_value sample_node_state(2-4))
qed

lemma sample_double_refused: "\<exists>e. save_block sample_double (bc_storage sample_node) = Inl e"
proof -
  have h: "storage_holds (bc_storage sample_node) (bc_chain sample_node)"
    using sample_node_facts(7) node_ok_chain(3) [OF sample_node_facts(1)] by (simp add: stored_with_def)
  have "wire_block sample_double"
    by (simp add: wire_block_def wire_tx_def)
  then have "row_storable sample_double"
    using sample_double_valid valid_extension_storable sample_node_state(1,2)
    by (metis last.simps order_refl validate_block_against_chain_Valid validate_next_def)
  then have "\<not> (\<exists>st. save_block sample_double (bc_storage sample_node) = Inr st)"
    using save_block_ok [OF h] by simp
  then show ?thesis by (cases "save_block sample_double (bc_storage sample_node)") auto
qed

theorem refused_block_stays_in_memory_witness:
  "\<exists>e bc'. commit_block sample_crypto (sample_double, []) sample_node = (Inl e, bc') \<and>
     bc_chain bc' = bc_chain sample_node @ [sample_double] \<and> bc_storage bc' = bc_storage sample_node \<and>
     load_chain 0 (bc_storage bc') = Inr (bc_chain sample_node)"
proof -
  obtain e where "save_block sample_double (bc_storage sample_node) = Inl e" using sample_double_refused by blast
  from refused_block_stays_in_memory [OF sample_node_facts(1,7) sample_double_valid this, of "[]" 0]
  show ?thesis by blast
qed

section \<open>What block and chain validation do not bind\<close>

text \<open>the twin of a block: repeat the last transaction of a valid block with an odd number of
  transactions, at least three.  The twin has the same hash and, when the sender can pay
  once more, is just as valid: two nodes with the same tip hash may hold different balances.\<close>
theorem twin_block_is_valid:
  assumes "valid_extension C ProofOfWorkConsensus cfg reward mx chain b" "0 \<le> index (last chain)"
    and "odd (length (transactions b))" "1 < length (transactions b)"
    and "tx = last (transactions b)" "\<not> is_coinbase tx"
    and "replay_chain C reward mx (chain @ [b]) ([], 0) = Inr (bal, s)"
    and "amount_base_units tx \<le> dict_get (sender tx) 0 bal"
  shows "valid_extension C ProofOfWorkConsensus cfg reward mx chain (b\<lparr>transactions := transactions b @ [tx]\<rparr>) \<and>
    block_hash (b\<lparr>transactions := transactions b @ [tx]\<rparr>) = block_hash b"
proof -
  let ?t = "b\<lparr>transactions := transactions b @ [tx]\<rparr>"
  note t = valid_extension_txs [OF assms(1,2)]
  have tx: "validate_transaction C tx = Valid" using t(1) assms(4,5) by (cases "transactions b") auto
  have root: "compute_merkle_root ?t = compute_merkle_root b"
    using merkle_root_dup_last [of "map tx_hash (transactions b)"] assms(3-5)
    by (cases "transactions b = []") (auto simp: compute_merkle_root_def last_map)
  have hash: "compute_hash ?t = compute_hash b" by (simp add: compute_hash_def header_payload_def)
  obtain bal0 s0 st' where r: "replay_chain C reward mx chain ([], 0) = Inr (bal0, s0)"
    "replay_block C reward mx b (bal0, s0) = Inr st'" "snd st' \<le> mx" "0 < min reward (mx - s0)"
    "validate_block_structure C b (Some (min reward (mx - s0))) mx = Valid"
    using assms(1) by (auto simp: valid_extension_def)
  have st': "st' = (bal, s)" using assms(7) r(1,2) by (simp add: replay_chain_append)
  obtain cb where cb: "filter is_coinbase (transactions b) = [cb]"
    "amount_base_units cb = min reward (mx - s0)" "s = s0 + amount_base_units cb" "s \<le> mx"
    "replay_txs C (transactions b) (credit (receiver cb) (amount_base_units cb) bal0) = Inr bal"
    using replay_block_Inr [OF r(2) [unfolded st'] t(2)] by blast
  have snoc: "replay_txs C (xs @ [tx]) b0 = (case replay_txs C xs b0 of Inl e \<Rightarrow> Inl e | Inr b1 \<Rightarrow> replay_txs C [tx] b1)"
    for xs b0
    by (induction xs arbitrary: b0) (auto simp: Let_def split: verdict.splits)
  have "\<exists>bal2. replay_txs C (transactions ?t) (credit (receiver cb) (amount_base_units cb) bal0) = Inr bal2"
    using cb(5) assms(6,8) tx by (simp add: snoc Let_def)
  then obtain bal2 where "replay_block C reward mx ?t (bal0, s0) = Inr (bal2, s)"
    using cb r(4) assms(6) t(2) by (auto simp: replay_block_def Let_def)
  moreover have "validate_block_structure C ?t (Some (min reward (mx - s0))) mx = Valid"
    using r(5) root hash assms(6) tx
    by (auto simp: validate_block_structure_def first_invalid_tx_Valid split: if_splits list.splits)
  moreover have "e_validate ProofOfWorkConsensus ?t (difficulty b)"
    using assms(1) hash
    by (auto simp: valid_extension_def ProofOfWorkConsensus_def pow_validate_def meets_difficulty_def split: if_splits)
  ultimately show ?thesis using assms(1) r(1,4) cb(4) by (auto simp: valid_extension_def)
qed

theorem twin_block_is_valid_witness:
  "valid_extension sample_crypto ProofOfWorkConsensus (consensus_cfg sample_settings) 5000000000 72000000000000000
     (bc_chain sample_node) (sample_double\<lparr>transactions := transactions sample_double @ [sample_signed]\<rparr>)"
proof -
  have v: "valid_extension sample_crypto ProofOfWorkConsensus (consensus_cfg sample_settings) 5000000000
      72000000000000000 (bc_chain sample_node) sample_double"
    using sample_double_valid
    by (simp add: validate_next_def validate_block_against_chain_Valid sample_node_facts(3,4))
  let ?a = "derive_address (point_hex (1, 2))"
  have ne: "?a \<noteq> sample_receiver" by simp
  have "\<exists>bal. replay_chain sample_crypto 5000000000 72000000000000000 (bc_chain sample_node @ [sample_double]) ([], 0) =
      Inr (bal, 5000000000) \<and> 5 \<le> dict_get ?a 0 bal"
    using sample_node_state(3) sample_signed_not_coinbase sample_signed_valid ne ne [symmetric]
    by (simp add: replay_chain_append replay_block_def Let_def)
  then obtain bal where r: "replay_chain sample_crypto 5000000000 72000000000000000
      (bc_chain sample_node @ [sample_double]) ([], 0) = Inr (bal, 5000000000)" "5 \<le> dict_get ?a 0 bal"
    by blast
  have "last (bc_chain sample_node) = hd (bc_chain sample_node)"
    by (subst sample_node_state(1)) simp
  with twin_block_is_valid [OF v _ _ _ _ _ r(1), of sample_signed] r(2) sample_signed_not_coinbase
    sample_node_state(2)
  show ?thesis by simp
qed

text \<open>Validation reads the genesis block's header only.\<close>

abbreviation forge :: "transaction list \<Rightarrow> block \<Rightarrow> block" where
  "forge txs g \<equiv> g\<lparr>transactions := txs\<rparr>"

lemma next_difficulty_forge:
  "pow_next_difficulty (forge txs g # p) cd t mn mx f = pow_next_difficulty (g # p) cd t mn mx f"
  by (cases "p = []") (simp_all add: pow_next_difficulty_def actual_timespan_def Let_def)

lemma recent_window_Cons:
  "(\<exists>q. \<forall>h. recent_window cfg (h # p) = h # q) \<or> (\<exists>q. \<forall>h. recent_window cfg (h # p) = q)"
proof -
  let ?w = "difficulty_adjustment_interval cfg"
  show ?thesis
  proof (cases "int (length p) + 1 < ?w")
    case True
    then show ?thesis by (simp add: recent_window_def)
  next
    case False
    define n where "n = (if 0 \<le> - ?w then nat (- ?w) else nat (max 0 (int (length p) + 1 - ?w)))"
    have "recent_window cfg (h # p) = drop n (h # p)" for h
      using False by (auto simp: recent_window_def slice_from_def n_def Let_def add.commute)
    then show ?thesis by (cases n) auto
  qed
qed

lemma expected_difficulty_forge:
  "expected_difficulty ProofOfWorkConsensus cfg (forge txs g # p) =
   expected_difficulty ProofOfWorkConsensus cfg (g # p)"
  using recent_window_Cons [of cfg p]
  by (auto simp: expected_difficulty_def ProofOfWorkConsensus_def next_difficulty_forge)

lemma valid_extension_forge:
  assumes "index g = 0"
  shows "valid_extension C ProofOfWorkConsensus cfg reward mx (forge txs g # p) b \<longleftrightarrow>
    valid_extension C ProofOfWorkConsensus cfg reward mx (g # p) b"
  using assms by (simp add: valid_extension_def expected_difficulty_forge)

lemma validate_links_forge:
  assumes "index g = 0"
  shows "validate_links C ProofOfWorkConsensus cfg reward mx (forge txs g # p) bs = Inr Valid \<longleftrightarrow>
    validate_links C ProofOfWorkConsensus cfg reward mx (g # p) bs = Inr Valid"
proof (induction bs arbitrary: p)
  case (Cons b bs)
  have step: "validate_links C ProofOfWorkConsensus cfg reward mx q (b # bs) = Inr Valid \<longleftrightarrow>
      valid_extension C ProofOfWorkConsensus cfg reward mx q b \<and>
      validate_links C ProofOfWorkConsensus cfg reward mx (q @ [b]) bs = Inr Valid" for q
    by (auto simp: validate_block_against_chain_Valid [symmetric] split: sum.splits verdict.splits)
  show ?case using Cons.IH [of "p @ [b]"] valid_extension_forge [OF assms]
    unfolding step by simp
qed simp

lemma validate_chain_forge:
  assumes "index g = 0" "map tx_hash txs = map tx_hash (transactions g)"
  shows "validate_chain C ProofOfWorkConsensus cfg reward mx (forge txs g # bs) = Inr Valid \<longleftrightarrow>
    validate_chain C ProofOfWorkConsensus cfg reward mx (g # bs) = Inr Valid"
proof -
  have "compute_merkle_root (forge txs g) = compute_merkle_root g" "compute_hash (forge txs g) = compute_hash g"
    using assms(2) by (simp_all add: compute_merkle_root_def compute_hash_def header_payload_def)
  then have "validate_block_structure C (forge txs g) None m = validate_block_structure C g None m" for m
    using assms(1) by (simp add: validate_block_structure_def)
  then show ?thesis using validate_links_forge [OF assms(1), where p = "[]"] assms(1)
    by (simp add: validate_chain_Valid)
qed

text \<open>The body of the genesis block is not bound to its hash: in a candidate chain the node would
  adopt, the genesis transactions can be exchanged for any others that carry the same
  \<open>tx_hash\<close> texts, and the node adopts the forged chain; a coinbase placed there counts
  towards the supply that mining reads.\<close>
theorem forged_genesis_adopted:
  assumes "bc_consensus bc = ProofOfWorkConsensus" "bc_chain bc \<noteq> []" "index g = 0"
    and "map tx_hash txs = map tx_hash (transactions g)"
    and "replace_chain C now (g # bs) bc = (Inr Valid, bc1)"
  shows "\<exists>bc2. replace_chain C now (forge txs g # bs) bc = (Inr Valid, bc2) \<and>
    bc_chain bc2 = forge txs g # bs \<and> bc_storage bc2 = bc_storage bc1 \<and>
    total_supply_base_units bc2 - sum_list (map amount_base_units (filter is_coinbase txs)) =
    total_supply_base_units bc1 - sum_list (map amount_base_units (filter is_coinbase (transactions g)))"
  using assms(5)
proof (cases rule: replace_chain_cases)
  case (adopted st)
  obtain h hs where c: "bc_chain bc = h # hs" using assms(2) by (cases "bc_chain bc") auto
  have hash: "block_hash g = block_hash h" using adopted(3) c by (simp add: genesis_block_def)
  have work: "chain_work (forge txs g # bs) = chain_work (g # bs)" by (simp add: chain_work_def)
  have "bc_validate_chain C (forge txs g # bs) bc = Inr Valid"
    using adopted(5) validate_chain_forge [OF assms(3,4)] assms(1) by (simp add: bc_validate_chain_def)
  then have "replace_chain C now (forge txs g # bs) bc = (Inr Valid,
      bc\<lparr>bc_storage := st, bc_chain := forge txs g # bs, bc_mempool := bc_mempool bc1\<rparr>)"
    using adopted(4,6,7) hash work c
    by (simp add: replace_chain_def validate_genesis_identity_def genesis_block_def Let_def)
  then show ?thesis using adopted(7) by (simp add: total_supply_base_units_def)
qed simp

lemma sample_mined_txs: "\<exists>r ts. transactions (fst sample_mined) = [coinbase_for sample_address r ts]"
proof -
  have mc: "miner_consensus (bc_miner sample_node) = ProofOfWorkConsensus"
    using sample_node_facts(1,3) by (simp add: node_ok_def)
  have "prepare_block 0 sample_address sample_node = Inr (fst sample_mined, snd sample_mined)"
    by (simp add: sample_prepared)
  then obtain i prev d r ts where m: "mine_block 0 (bc_miner sample_node) i prev (bc_mempool sample_node)
      sample_address d MAX_TRANSACTIONS_PER_BLOCK (Some r) (Some ts) = Inr (fst sample_mined, snd sample_mined)"
    by (auto simp: prepare_block_def Let_def split: sum.splits if_splits)
  from pow.mine_block_content(7) [OF m mc] show ?thesis
    by (auto simp: sample_empty_pool get_pending_def dict_values_def slice_to_def)
qed

lemma sample_replacement:
  "\<exists>bc1. replace_chain sample_crypto 0 (bc_chain sample_node @ [fst sample_mined])
     (sample_node\<lparr>bc_storage := empty_storage\<rparr>) = (Inr Valid, bc1)"
proof -
  let ?g = "hd (bc_chain sample_node)" and ?b = "fst sample_mined"
  have c: "bc_chain sample_node @ [?b] = [?g, ?b]" by (subst sample_node_state(1)) simp
  have ok: "node_ok sample_crypto sample_node" by (rule sample_node_facts)
  have w: "wire_block ?b"
    using prepared_wire [OF ok sample_node_facts(3)] sample_prepared by (metis prod.collapse)
  have "valid_extension sample_crypto ProofOfWorkConsensus (consensus_cfg sample_settings) 5000000000
      72000000000000000 (bc_chain sample_node) ?b"
    using sample_chain_valid validate_chain_snoc [OF node_ok_chain(3) [OF ok]] by blast
  then have "row_storable ?b"
    by (rule valid_extension_storable [OF _ _ w]) (subst sample_node_state(1), simp add: sample_node_state(2))
  moreover have "distinct (map tx_hash (transactions ?b))"
    using sample_mined_txs by auto
  ultimately obtain st where "save_block ?b empty_storage = Inr st"
    using save_block_ok [OF storage_holds_empty, of ?b] by auto
  then have "\<exists>st'. reorganize_from 0 1 [?b] empty_storage = Inr st'"
    by (simp add: reorganize_from_def empty_storage_def Let_def write_blocks_save del: write_blocks.simps(2))
  moreover have "find_fork_index (bc_chain sample_node) [?g, ?b] = 1"
    by (subst sample_node_state(1)) simp
  moreover have "chain_work (bc_chain sample_node) < chain_work [?g, ?b]"
    by (subst sample_node_state(1)) (simp add: chain_work_def)
  moreover have "bc_validate_chain sample_crypto [?g, ?b] (sample_node\<lparr>bc_storage := empty_storage\<rparr>) = Inr Valid"
    using sample_chain_valid c sample_rates
    by (simp add: bc_validate_chain_def sample_node_facts(3,4) reward_of_def max_supply_of_def)
  ultimately show ?thesis
    unfolding c replace_chain_def validate_genesis_identity_def genesis_block_def total_work_def Let_def
    by auto
qed

theorem forged_genesis_adopted_witness:
  "\<exists>bc2. replace_chain sample_crypto 0
      (forge (map (\<lambda>tx. tx\<lparr>sender := COINBASE_SENDER, amount_base_units := 7\<rparr>)
         (transactions (hd (bc_chain sample_node)))) (hd (bc_chain sample_node)) # [fst sample_mined])
      (sample_node\<lparr>bc_storage := empty_storage\<rparr>) = (Inr Valid, bc2)"
proof -
  have c: "bc_chain sample_node @ [fst sample_mined] = hd (bc_chain sample_node) # [fst sample_mined]"
    by (subst sample_node_state(1)) simp
  obtain bc1 where r: "replace_chain sample_crypto 0 (hd (bc_chain sample_node) # [fst sample_mined])
      (sample_node\<lparr>bc_storage := empty_storage\<rparr>) = (Inr Valid, bc1)"
    using sample_replacement unfolding c by blast
  have "bc_chain (sample_node\<lparr>bc_storage := empty_storage\<rparr>) \<noteq> []"
    using node_ok_chain(3) [OF sample_node_facts(1)] by simp
  from forged_genesis_adopted [OF _ this sample_node_state(2) _ r,
      of "map (\<lambda>tx. tx\<lparr>sender := COINBASE_SENDER, amount_base_units := 7\<rparr>) (transactions (hd (bc_chain sample_node)))"]
  show ?thesis by (auto simp: sample_node_facts(3) comp_def)
qed

end
