(* ===== verification/Ratelimit.thy ===== *)
theory Ratelimit
  imports Complex_Main Pydict
begin

text \<open>
  \<open>blockchain/network/ratelimit.py\<close>: the per-peer request limiter.  The ordered dict of request
  histories is an association list, least recently used key first; a history is the deque of the
  times of the granted requests, oldest first.
\<close>

section \<open>State and operations\<close>

record rate_limiter =
  max_requests :: int
  window_seconds :: rat
  max_keys :: int
  rl_hits :: "(string, rat list) pydict"

definition PeerRateLimiter :: "int \<Rightarrow> rat \<Rightarrow> int \<Rightarrow> rate_limiter" where
  "PeerRateLimiter max_reqs window keys =
     \<lparr>max_requests = max_reqs, window_seconds = window, max_keys = keys, rl_hits = []\<rparr>"

text \<open>\<open>move_to_end\<close> for a known key; otherwise an empty deque at the end, and the oldest entry
  goes when there are now too many.\<close>

definition touch_key :: "string \<Rightarrow> rate_limiter \<Rightarrow> rat list \<times> (string, rat list) pydict" where
  "touch_key key rl =
     (case map_of (rl_hits rl) key of
        Some h \<Rightarrow> (h, dict_pop key (rl_hits rl) @ [(key, h)])
      | None \<Rightarrow>
          let hs = rl_hits rl @ [(key, [])]
          in ([], if int (length hs) > max_keys rl then tl hs else hs))"

text \<open>\<open>hits\<close> in the source is a reference to the deque: what happens to it shows in the dict as
  long as the key is there (it was just evicted when \<open>max_keys\<close> is not positive).\<close>

definition store_hits :: "string \<Rightarrow> rat list \<Rightarrow> (string, rat list) pydict \<Rightarrow> (string, rat list) pydict" where
  "store_hits key h hs = map (\<lambda>(k, v). if k = key then (k, h) else (k, v)) hs"

definition allow :: "rat \<Rightarrow> string \<Rightarrow> rate_limiter \<Rightarrow> bool \<times> rate_limiter" where
  "allow now key rl =
     (let window_start = now - window_seconds rl;
          (h, hs) = touch_key key rl;
          h' = dropWhile (\<lambda>t. t < window_start) h
      in if int (length h') \<ge> max_requests rl
         then (False, rl\<lparr>rl_hits := store_hits key h' hs\<rparr>)
         else (True, rl\<lparr>rl_hits := store_hits key (h' @ [now]) hs\<rparr>))"

definition tracked_key_count :: "rate_limiter \<Rightarrow> int" where
  "tracked_key_count rl = int (length (rl_hits rl))"

definition limiter_reset :: "rate_limiter \<Rightarrow> rate_limiter" where
  "limiter_reset rl = rl\<lparr>rl_hits := []\<rparr>"

section \<open>Bounded memory\<close>

lemma length_store_hits [simp]: "length (store_hits key h hs) = length hs"
  by (simp add: store_hits_def)

lemma keys_store_hits [simp]: "map fst (store_hits key h hs) = map fst hs"
  by (induction hs) (auto simp: store_hits_def)

lemma map_of_store_hits:
  "map_of (store_hits key h hs) k =
     (if k = key then map_option (\<lambda>_. h) (map_of hs key) else map_of hs k)"
  by (induction hs) (auto simp: store_hits_def)

lemma length_dict_pop:
  "dict_invar d \<Longrightarrow> k \<in> fst ` set d \<Longrightarrow> Suc (length (dict_pop k d)) = length d"
proof (induction d)
  case (Cons kv d)
  have "dict_pop k d = d" if "fst kv = k"
    using Cons.prems(1) that by (auto simp: dict_pop_def dict_invar_def filter_id_conv image_iff)
  then show ?case
    using Cons by (cases "fst kv = k") (auto simp: dict_pop_def dict_invar_def)
qed simp

lemma length_touch_key:
  assumes "dict_invar (rl_hits rl)" "tracked_key_count rl \<le> max_keys rl"
  shows "int (length (snd (touch_key key rl))) \<le> max_keys rl"
proof (cases "map_of (rl_hits rl) key")
  case None
  then show ?thesis using assms(2) by (auto simp: touch_key_def Let_def tracked_key_count_def)
next
  case (Some h)
  then have "key \<in> fst ` set (rl_hits rl)" by (metis map_of_eq_None_iff option.discI)
  with length_dict_pop [OF assms(1) this] Some assms(2) show ?thesis
    by (simp add: touch_key_def tracked_key_count_def)
qed

lemma invar_touch_key: "dict_invar (rl_hits rl) \<Longrightarrow> dict_invar (snd (touch_key key rl))"
proof (cases "map_of (rl_hits rl) key")
  case None
  assume "dict_invar (rl_hits rl)"
  with None have "distinct (map fst (rl_hits rl @ [(key, [])]))"
    by (auto simp: dict_invar_def map_of_eq_None_iff)
  then show ?thesis
    using None by (auto simp: touch_key_def Let_def dict_invar_def map_tl distinct_tl
        simp del: map_append)
next
  case (Some h)
  assume "dict_invar (rl_hits rl)"
  then have "dict_invar (dict_pop key (rl_hits rl))" by (rule dict_invar_pop)
  with Some show ?thesis by (auto simp: touch_key_def dict_invar_def dict_pop_def)
qed

lemma allow_frame [simp]:
  "max_requests (snd (allow now key rl)) = max_requests rl"
  "window_seconds (snd (allow now key rl)) = window_seconds rl"
  "max_keys (snd (allow now key rl)) = max_keys rl"
  by (simp_all add: allow_def Let_def case_prod_unfold)

definition rl_invar :: "rate_limiter \<Rightarrow> bool" where
  "rl_invar rl \<longleftrightarrow> dict_invar (rl_hits rl) \<and> tracked_key_count rl \<le> max_keys rl"

lemma rl_invar_allow: "rl_invar rl \<Longrightarrow> rl_invar (snd (allow now key rl))"
  using length_touch_key [of rl key] invar_touch_key [of rl key]
  by (auto simp: rl_invar_def allow_def Let_def case_prod_unfold tracked_key_count_def dict_invar_def)

section \<open>The sliding window\<close>

text \<open>What the limiter promises: the granted requests are logged, and a request is granted when
  fewer than \<open>max_requests\<close> of the key's granted ones are at most \<open>window_seconds\<close> old.\<close>

type_synonym grants = "(string \<times> rat) list"

definition grants_of :: "string \<Rightarrow> grants \<Rightarrow> rat list" where
  "grants_of key gs = map snd (filter (\<lambda>g. fst g = key) gs)"

definition window_allow :: "int \<Rightarrow> rat \<Rightarrow> rat \<Rightarrow> string \<Rightarrow> grants \<Rightarrow> bool" where
  "window_allow n w now key gs \<longleftrightarrow> int (length (filter (\<lambda>t. now - w \<le> t) (grants_of key gs))) < n"

fun window_run :: "int \<Rightarrow> rat \<Rightarrow> (rat \<times> string) list \<Rightarrow> grants \<Rightarrow> bool list" where
  "window_run n w [] gs = []"
| "window_run n w ((now, key) # rs) gs =
     (if window_allow n w now key gs
      then True # window_run n w rs (gs @ [(key, now)])
      else False # window_run n w rs gs)"

fun limiter_run :: "(rat \<times> string) list \<Rightarrow> rate_limiter \<Rightarrow> bool list" where
  "limiter_run [] rl = []"
| "limiter_run ((now, key) # rs) rl =
     (case allow now key rl of (ok, rl') \<Rightarrow> ok # limiter_run rs rl')"

definition history :: "string \<Rightarrow> rate_limiter \<Rightarrow> rat list" where
  "history key rl = (case map_of (rl_hits rl) key of None \<Rightarrow> [] | Some h \<Rightarrow> h)"

text \<open>The simulation: every history is the recent part of the key's grants, where recent reaches
  back at least one window.\<close>

definition simulates :: "rat \<Rightarrow> string set \<Rightarrow> rate_limiter \<Rightarrow> grants \<Rightarrow> bool" where
  "simulates now K rl gs \<longleftrightarrow>
     dict_invar (rl_hits rl) \<and> fst ` set (rl_hits rl) \<subseteq> K \<and>
     (\<forall>key. sorted (grants_of key gs) \<and> (\<forall>t \<in> set (grants_of key gs). t \<le> now) \<and>
        (\<exists>c \<le> now - window_seconds rl. history key rl = filter (\<lambda>t. c \<le> t) (grants_of key gs)))"

lemma dropWhile_sorted: "sorted h \<Longrightarrow> dropWhile (\<lambda>t. t < c) h = filter (\<lambda>t. c \<le> t) (h :: rat list)"
proof (induction h)
  case (Cons t h)
  have "filter (\<lambda>t. c \<le> t) h = h" if "\<not> t < c"
    using Cons.prems that by (intro filter_True) auto
  then show ?case using Cons by (cases "t < c") auto
qed simp

lemma history_allow:
  fixes now :: rat and key :: string and rl :: rate_limiter
  assumes "dict_invar (rl_hits rl)" "finite K" "key \<in> K" "fst ` set (rl_hits rl) \<subseteq> K"
    and "int (card K) \<le> max_keys rl"
  defines "h \<equiv> dropWhile (\<lambda>t. t < now - window_seconds rl) (history key rl)"
  defines "ok \<equiv> int (length h) < max_requests rl"
  shows "fst (allow now key rl) = ok"
    and "history k (snd (allow now key rl)) =
      (if k = key then (if ok then h @ [now] else h) else history k rl)"
    and "fst ` set (rl_hits (snd (allow now key rl))) \<subseteq> K"
proof -
  have roomy: "int (length (rl_hits rl @ [(key, [])])) \<le> max_keys rl" if "map_of (rl_hits rl) key = None"
  proof -
    have "distinct (map fst (rl_hits rl @ [(key, [])]))"
      using assms(1) that by (auto simp: dict_invar_def map_of_eq_None_iff)
    then have "length (rl_hits rl @ [(key, [])]) = card (set (map fst (rl_hits rl @ [(key, [])])))"
      by (metis distinct_card length_map)
    also have "\<dots> \<le> card K" using assms(2-4) by (intro card_mono) auto
    finally show ?thesis using assms(5) by linarith
  qed
  have touch: "fst (touch_key key rl) = history key rl"
    "map_of (snd (touch_key key rl)) = (map_of (rl_hits rl))(key \<mapsto> history key rl)"
    "fst ` set (snd (touch_key key rl)) = insert key (fst ` set (rl_hits rl))"
  proof -
    show "fst (touch_key key rl) = history key rl"
      by (simp add: touch_key_def history_def Let_def split: option.splits)
    show "map_of (snd (touch_key key rl)) = (map_of (rl_hits rl))(key \<mapsto> history key rl)"
    proof (cases "map_of (rl_hits rl) key")
      case None
      then show ?thesis using roomy [OF None]
        by (auto simp: touch_key_def history_def Let_def fun_eq_iff map_add_def split: option.splits)
    next
      case (Some v)
      then show ?thesis
        by (auto simp: touch_key_def history_def map_of_dict_pop fun_eq_iff map_add_def split: option.splits)
    qed
    show "fst ` set (snd (touch_key key rl)) = insert key (fst ` set (rl_hits rl))"
    proof (cases "map_of (rl_hits rl) key")
      case None
      then show ?thesis using roomy [OF None] by (auto simp: touch_key_def Let_def)
    next
      case (Some v)
      then have "key \<in> fst ` set (rl_hits rl)" by (metis map_of_eq_None_iff option.discI)
      then show ?thesis using Some by (auto simp: touch_key_def dict_pop_def)
    qed
  qed
  show "fst (allow now key rl) = ok"
    by (simp add: allow_def Let_def case_prod_unfold touch(1) ok_def h_def not_less)
  show "history k (snd (allow now key rl)) =
      (if k = key then (if ok then h @ [now] else h) else history k rl)"
    by (auto simp: allow_def Let_def case_prod_unfold touch(1,2) ok_def h_def history_def
        map_of_store_hits not_less)
  have "fst ` set (rl_hits (snd (allow now key rl))) = fst ` set (snd (touch_key key rl))"
    by (simp add: allow_def Let_def case_prod_unfold flip: set_map)
  then show "fst ` set (rl_hits (snd (allow now key rl))) \<subseteq> K"
    using touch(3) assms(3,4) by simp
qed

lemma grants_of_snoc: "grants_of k (gs @ [(key, t)]) = grants_of k gs @ (if k = key then [t] else [])"
  by (simp add: grants_of_def)

lemma simulates_step:
  assumes sim: "simulates now K rl gs" and "now \<le> now'" "0 \<le> window_seconds rl"
    and K: "finite K" "key \<in> K" "int (card K) \<le> max_keys rl"
  defines "ok \<equiv> window_allow (max_requests rl) (window_seconds rl) now' key gs"
  shows "fst (allow now' key rl) = ok"
    and "simulates now' K (snd (allow now' key rl)) (if ok then gs @ [(key, now')] else gs)"
proof -
  let ?w = "window_seconds rl"
  let ?rl = "snd (allow now' key rl)"
  have inv: "dict_invar (rl_hits rl)" "fst ` set (rl_hits rl) \<subseteq> K"
    and gs: "sorted (grants_of k gs)" "\<forall>t \<in> set (grants_of k gs). t \<le> now'" for k
    using sim \<open>now \<le> now'\<close> by (force simp: simulates_def)+
  have hist: "\<exists>c \<le> now' - ?w. history k rl = filter (\<lambda>t. c \<le> t) (grants_of k gs)" for k
  proof -
    obtain c where "c \<le> now - ?w" "history k rl = filter (\<lambda>t. c \<le> t) (grants_of k gs)"
      using sim unfolding simulates_def by blast
    moreover have "c \<le> now' - ?w" using calculation(1) \<open>now \<le> now'\<close> by linarith
    ultimately show ?thesis by blast
  qed
  obtain c where c: "c \<le> now' - ?w" "history key rl = filter (\<lambda>t. c \<le> t) (grants_of key gs)"
    using hist by blast
  have h: "dropWhile (\<lambda>t. t < now' - ?w) (history key rl) = filter (\<lambda>t. now' - ?w \<le> t) (grants_of key gs)"
  proof -
    have "sorted (history key rl)" using gs(1) c(2) by (simp add: sorted_wrt_filter)
    moreover have "c \<le> t \<and> now' - ?w \<le> t \<longleftrightarrow> now' - ?w \<le> t" for t using c(1) by linarith
    ultimately show ?thesis by (simp add: dropWhile_sorted c(2))
  qed
  note step = history_allow [OF inv(1) K(1,2) inv(2) K(3), where now = now', unfolded h]
  show ok: "fst (allow now' key rl) = ok"
    using step(1) by (simp add: ok_def window_allow_def)
  have hist': "\<exists>c \<le> now' - ?w. history k ?rl =
      filter (\<lambda>t. c \<le> t) (grants_of k (if ok then gs @ [(key, now')] else gs))" for k
  proof (cases "k = key")
    case True
    have "history k ?rl = filter (\<lambda>t. now' - ?w \<le> t) (grants_of k (if ok then gs @ [(key, now')] else gs))"
      using step(2) True \<open>0 \<le> ?w\<close> by (simp add: ok_def window_allow_def grants_of_snoc)
    then show ?thesis by blast
  next
    case False
    then show ?thesis using hist [of k] step(2) by (simp add: grants_of_snoc)
  qed
  have "dict_invar (rl_hits ?rl)"
    using invar_touch_key [OF inv(1), of key]
    by (simp add: allow_def Let_def case_prod_unfold dict_invar_def)
  then show "simulates now' K ?rl (if ok then gs @ [(key, now')] else gs)"
    using step(3) gs hist' by (auto simp: simulates_def grants_of_snoc sorted_append)
qed

lemma limiter_run_simulates:
  assumes "simulates now K rl gs" "sorted (now # map fst rs)" "0 \<le> window_seconds rl"
    and "finite K" "snd ` set rs \<subseteq> K" "int (card K) \<le> max_keys rl"
  shows "limiter_run rs rl = window_run (max_requests rl) (window_seconds rl) rs gs"
  using assms
proof (induction rs arbitrary: now rl gs)
  case (Cons r rs)
  obtain now' key where r: "r = (now', key)" by fastforce
  have key: "key \<in> K" "now \<le> now'" using Cons.prems r by auto
  note step = simulates_step [OF Cons.prems(1) key(2) Cons.prems(3,4) key(1) Cons.prems(6)]
  have "limiter_run rs (snd (allow now' key rl)) =
      window_run (max_requests rl) (window_seconds rl) rs
        (if fst (allow now' key rl) then gs @ [(key, now')] else gs)"
    using Cons.IH [OF step(2)] Cons.prems r step(1) by simp
  then show ?case using step(1) by (simp add: r case_prod_unfold)
qed simp



text \<open>The memory bound holds for keys of any number: a limiter never tracks more than
  \<open>max_keys\<close> of them.\<close>
lemma limiter_memory_bounded:
  assumes "rl_invar rl"
  shows "tracked_key_count (fold (\<lambda>(now, key) rl. snd (allow now key rl)) rs rl) \<le> max_keys rl"
proof -
  have "rl_invar (fold (\<lambda>(now, key) rl. snd (allow now key rl)) rs rl) \<and>
      max_keys (fold (\<lambda>(now, key) rl. snd (allow now key rl)) rs rl) = max_keys rl"
    using assms by (induction rs arbitrary: rl) (auto simp: rl_invar_allow)
  then show ?thesis by (simp add: rl_invar_def)
qed

end
