(* ===== verification/Identity.thy ===== *)
theory Identity
  imports Complex_Main Wallet Settings
begin

text \<open>
  \<open>blockchain/network/identity.py\<close>: a node's P2P key pair, and Python's \<open>float(v)\<close> on a JSON value,
  which the envelope check applies to timestamps.  The curve operations are the same parameter
  \<open>crypto\<close> as for wallets.
\<close>

section \<open>Key pairs\<close>

definition ORDER :: int where
  "ORDER = 0xFFFFFFFFFFFFFFFFFFFFFFFFFFFFFFFEBAAEDCE6AF48A03BBFD25E8CD0364141"

record p2p_identity =
  ident_node_id :: string
  ident_private_key_hex :: string
  ident_public_key_hex :: string

text \<open>\<open>generate\<close>, with the private value the generator drew.\<close>

definition P2PIdentity_generate :: "crypto \<Rightarrow> string \<Rightarrow> int \<Rightarrow> p2p_identity" where
  "P2PIdentity_generate C node_id d =
     (case ec_public C d of
        (x, y) \<Rightarrow>
          \<lparr>ident_node_id = node_id, ident_private_key_hex = hex (to_bytes_big 32 d),
           ident_public_key_hex = hex (to_bytes_big 32 x) @ hex (to_bytes_big 32 y)\<rparr>)"

definition identity_sign :: "crypto \<Rightarrow> p2p_identity \<Rightarrow> string \<Rightarrow> string result" where
  "identity_sign C i message =
     (case fromhex (ident_private_key_hex i) of
        None \<Rightarrow> Inl ValueError
      | Some raw \<Rightarrow>
          (case ec_sign C (from_bytes_big raw) message of
             (r, s) \<Rightarrow>
               let s' = (if s > ORDER div 2 then ORDER - s else s)
               in Inr (hex (to_bytes_big 32 r) @ hex (to_bytes_big 32 s'))))"

text \<open>The key and the signature come from the wire: \<open>bytes.fromhex\<close> raises \<open>TypeError\<close> on a value
  that is not a string, which both functions catch.\<close>

fun wire_hex :: "pyval \<Rightarrow> bytes option" where
  "wire_hex (PStr s) = fromhex s"
| "wire_hex _ = None"

definition verify_identity_signature :: "crypto \<Rightarrow> pyval \<Rightarrow> string \<Rightarrow> pyval \<Rightarrow> bool" where
  "verify_identity_signature C public_key message sig_hex =
     (case (wire_hex public_key, wire_hex sig_hex) of
        (Some pub, Some sig) \<Rightarrow>
          if length pub \<noteq> 64 \<or> length sig \<noteq> 64 then False
          else
            let s = from_bytes_big (drop 32 sig) in
            if s = 0 \<or> s > ORDER div 2 then False
            else
              let x = from_bytes_big (take 32 pub); y = from_bytes_big (drop 32 pub)
              in ec_on_curve C x y \<and> ec_verify C x y (from_bytes_big (take 32 sig)) s message
      | _ \<Rightarrow> False)"

definition is_valid_public_key :: "crypto \<Rightarrow> pyval \<Rightarrow> bool" where
  "is_valid_public_key C public_key =
     (case wire_hex public_key of
        None \<Rightarrow> False
      | Some raw \<Rightarrow>
          length raw = 64 \<and> ec_on_curve C (from_bytes_big (take 32 raw)) (from_bytes_big (drop 32 raw)))"

section \<open>A generated identity signs verifiably\<close>

text \<open>The P2P keys are wallet keys without an address, so the wallet lemmas carry over.\<close>
lemma ORDER_eq: "ORDER = SECP256K1_ORDER"
  by (simp add: ORDER_def SECP256K1_ORDER_def)

lemma verify_identity_signature_eq:
  "verify_identity_signature C (PStr pk) m (PStr sig) = verify_signature C pk m sig"
  unfolding verify_identity_signature_def verify_signature_def ORDER_eq wire_hex.simps by (rule refl)

lemma verify_identity_signatureD:
  "verify_identity_signature C pk m sig \<Longrightarrow>
   \<exists>k s. pk = PStr k \<and> sig = PStr s \<and> verify_signature C k m s"
proof -
  assume v: "verify_identity_signature C pk m sig"
  have "\<exists>k. pk = PStr k" using v by (cases pk) (simp_all add: verify_identity_signature_def)
  moreover have "\<exists>s. sig = PStr s"
    using v by (cases sig) (simp_all add: verify_identity_signature_def split: option.splits)
  ultimately show ?thesis using v by (auto simp: verify_identity_signature_eq)
qed

lemma verified_key_valid:
  "verify_identity_signature C pk m sig \<Longrightarrow> is_valid_public_key C pk"
  by (auto simp: verify_identity_signature_def is_valid_public_key_def Let_def
      split: option.splits if_splits)

lemma empty_signature_rejected: "\<not> verify_identity_signature C pk m (PStr [])"
  by (auto simp: verify_identity_signature_def split: option.splits)

definition genuine :: "crypto \<Rightarrow> p2p_identity \<Rightarrow> bool" where
  "genuine C i \<longleftrightarrow> (\<exists>d. 0 < d \<and> d < ORDER \<and> i = P2PIdentity_generate C (ident_node_id i) d)"

lemma genuine_signs:
  assumes "crypto_correct C" "genuine C i"
  shows "\<exists>sig. identity_sign C i m = Inr sig \<and>
    verify_identity_signature C (PStr (ident_public_key_hex i)) m (PStr sig)"
proof -
  obtain d where d: "0 < d" "d < SECP256K1_ORDER" "i = P2PIdentity_generate C (ident_node_id i) d"
    using assms(2) by (auto simp: genuine_def ORDER_eq)
  define key where "key = hex (to_bytes_big 32 d)"
  have raw: "fromhex key = Some (to_bytes_big 32 d)" "from_bytes_big (to_bytes_big 32 d) = d"
    using d order_bound by (simp_all add: key_def)
  then obtain w where w: "Wallet_from_private_key C key = Inr w"
    and weq: "private_key_hex w = lower key" "public_key_hex w = point_hex (ec_public C d)"
    using d by (auto simp: Wallet_from_private_key_def Let_def)
  have i: "ident_private_key_hex i = key" "ident_public_key_hex i = public_key_hex w"
    by (subst d(3), simp add: P2PIdentity_generate_def weq(2) point_hex_def key_def case_prod_unfold)+
  have "identity_sign C i m = Wallet_sign C w m"
    unfolding identity_sign_def Wallet_sign_def i weq(1) fromhex_lower low_s_def ORDER_eq Let_def
    by (rule refl)
  then show ?thesis
    using Wallet_sign_verifies [OF assms(1) w, of m] by (auto simp: i verify_identity_signature_eq)
qed

section \<open>\<open>float(v)\<close>\<close>

text \<open>A binary64 as the checks see it: a finite value (the rational the text or the integer
  denotes), an infinity or not a number.\<close>

datatype pyfloat = Finite rat | Infinite | NotANumber

text \<open>The least integer that rounds beyond the largest binary64.\<close>

definition float_overflow :: int where
  "float_overflow = 2 ^ 1024 - 2 ^ 970"

definition float_of_rat :: "rat \<Rightarrow> pyfloat" where
  "float_of_rat q = (if \<bar>q\<bar> < of_int float_overflow then Finite q else Infinite)"

text \<open>An underscore may only stand between two digits.\<close>

fun underscores_ok :: "bool \<Rightarrow> string \<Rightarrow> bool" where
  "underscores_ok after_digit [] \<longleftrightarrow> True"
| "underscores_ok after_digit (c # cs) \<longleftrightarrow>
     (if c = CHR ''_''
      then after_digit \<and> (case cs of [] \<Rightarrow> False | d # _ \<Rightarrow> is_digit d) \<and> underscores_ok False cs
      else underscores_ok (is_digit c) cs)"

definition float_of_string :: "string \<Rightarrow> pyfloat option" where
  "float_of_string s =
     (let t = strip s;
          u = lower (if startswith ''-'' t \<or> startswith ''+'' t then tl t else t)
      in if u = ''nan'' then Some NotANumber
         else if u = ''inf'' \<or> u = ''infinity'' then Some Infinite
         else if \<not> underscores_ok False t then None
         else case decimal_of_string t of
                Some (Dec c e) \<Rightarrow> Some (float_of_rat (rat_of_dec c e))
              | _ \<Rightarrow> None)"

fun py_float :: "pyval \<Rightarrow> pyfloat result" where
  "py_float (PNum (PyInt i)) = (if \<bar>i\<bar> < float_overflow then Inr (Finite (of_int i)) else Inl OverflowError)"
| "py_float (PNum (PyFloat i)) = Inr (Finite (of_int i))"
| "py_float (PDec m k) = Inr (Finite (of_int m / 10 ^ Suc k))"
| "py_float (PBool b) = Inr (Finite (if b then 1 else 0))"
| "py_float (PStr s) = (case float_of_string s of None \<Rightarrow> Inl ValueError | Some f \<Rightarrow> Inr f)"
| "py_float _ = Inl TypeError"

lemma py_float_nan: "py_float (PStr ''nan'') = Inr NotANumber"
  by code_simp

end
