(* ===== verification/Json_Text.thy ===== *)
theory Json_Text
  imports Json
begin

text \<open>
  The canonical JSON text of a payload determines the payload, for payloads of any shape: the text
  of a value is self-delimiting, so a text that is followed by a comma or a closing bracket can be
  read back in one way only.  Whatever the node signs or hashes through
  \<open>deterministic_json\<close> rests on this.
\<close>

section \<open>Well-formed values\<close>

text \<open>A float is written as \<open>PDec\<close> only when it is not a whole number.\<close>

fun wf_pyval :: "pyval \<Rightarrow> bool" where
  "wf_pyval (PDec m k) \<longleftrightarrow> m mod 10 \<noteq> 0"
| "wf_pyval (PList vs) \<longleftrightarrow> (\<forall>v \<in> set vs. wf_pyval v)"
| "wf_pyval (PDict kvs) \<longleftrightarrow> (\<forall>kv \<in> set kvs. wf_pyval (snd kv))"
| "wf_pyval _ \<longleftrightarrow> True"

section \<open>Numbers\<close>

lemma length_frac_digits [simp]: "length (frac_digits k n) = k"
  by (induction k arbitrary: n) simp_all

lemma frac_digits_digits: "0 \<le> n \<Longrightarrow> \<forall>c \<in> set (frac_digits k n). is_digit c"
proof (induction k arbitrary: n)
  case (Suc k)
  have "\<forall>c \<in> set (frac_digits k (n div 10)). is_digit c"
    using Suc.IH [of "n div 10"] Suc.prems by (simp add: pos_imp_zdiv_nonneg_iff)
  then show ?case by simp
qed simp

lemma digits_val_frac: "0 \<le> n \<Longrightarrow> n < 10 ^ k \<Longrightarrow> digits_val (frac_digits k n) = n"
proof (induction k arbitrary: n)
  case 0
  then show ?case by (simp add: digits_val_def)
next
  case (Suc k)
  then have "n div 10 < 10 ^ k" by (simp add: div_less_iff_less_mult mult.commute)
  with Suc show ?case by (simp add: digits_val_snoc)
qed

lemma not_digit_dot [simp]: "\<not> is_digit (CHR ''.'')"
  by (simp add: is_digit_def)

lemma dec_text_chars: "\<forall>c \<in> set (dec_text m k). num_char c"
  using frac_digits_digits [of "\<bar>m\<bar> mod 10 ^ Suc k" "Suc k"] show_int_chars [of "\<bar>m\<bar> div 10 ^ Suc k"]
  by (auto simp: dec_text_def num_char_def simp del: frac_digits.simps power_Suc)

lemma show_int_nonneg: "0 \<le> n \<Longrightarrow> show_int n = show_digits n"
  by (simp add: show_int_def)

lemma dec_text_inj:
  assumes eq: "dec_text m k = dec_text m' k'" and nz: "m \<noteq> 0" "m' \<noteq> 0"
  shows "m = m' \<and> k = k'"
proof -
  define a b where "a = \<bar>m\<bar> div 10 ^ Suc k" and "b = \<bar>m\<bar> mod 10 ^ Suc k"
  define a' b' where "a' = \<bar>m'\<bar> div 10 ^ Suc k'" and "b' = \<bar>m'\<bar> mod 10 ^ Suc k'"
  have nn: "0 \<le> a" "0 \<le> a'" "0 \<le> b" "0 \<le> b'" "b < 10 ^ Suc k" "b' < 10 ^ Suc k'"
    by (simp_all add: a_def a'_def b_def b'_def pos_imp_zdiv_nonneg_iff)
  have shape: "dec_text m k = (if m < 0 then ''-'' else []) @ show_digits a @ ''.'' @ frac_digits (Suc k) b"
    "dec_text m' k' = (if m' < 0 then ''-'' else []) @ show_digits a' @ ''.'' @ frac_digits (Suc k') b'"
    using nn by (simp_all only: dec_text_def a_def a'_def b_def b'_def show_int_nonneg)
  have no_minus: "CHR ''-'' # u \<noteq> show_digits n @ z" if "0 \<le> n" for n u z
    using hd_show_digits [OF that] by (cases "show_digits n") auto
  have sign: "m < 0 \<longleftrightarrow> m' < 0"
    using eq no_minus [OF nn(1)] no_minus [OF nn(2)]
    unfolding shape by (cases "m < 0"; cases "m' < 0") (simp_all del: frac_digits.simps, metis)
  then have "show_digits a @ CHR ''.'' # frac_digits (Suc k) b =
      show_digits a' @ CHR ''.'' # frac_digits (Suc k') b'"
    using eq unfolding shape by (simp del: frac_digits.simps)
  then have parts: "show_digits a = show_digits a'" "frac_digits (Suc k) b = frac_digits (Suc k') b'"
    using run_split [OF show_digits_digits [OF nn(1)] show_digits_digits [OF nn(2)]] not_digit_dot
    by (metis list.inject)+
  then have "k = k'" by (metis length_frac_digits nat.inject)
  moreover have "a = a'" using parts(1) nn show_digits_inj by blast
  moreover have "b = b'" using parts(2) nn digits_val_frac by metis
  ultimately have "\<bar>m\<bar> = \<bar>m'\<bar>"
    unfolding a_def a'_def b_def b'_def by (metis div_mult_mod_eq)
  then show ?thesis using sign \<open>k = k'\<close> by arith
qed

lemma dec_text_not_json_num:
  assumes "m mod 10 \<noteq> 0"
  shows "dec_text m k \<noteq> json_num n"
proof (cases n)
  case (PyInt i)
  have "CHR ''.'' \<in> set (dec_text m k)" by (simp add: dec_text_def)
  then show ?thesis using PyInt bspec [OF show_int_chars [of i], of "CHR ''.''"] by fastforce
next
  case (PyFloat i)
  have "\<bar>m\<bar> mod 10 ^ Suc k mod 10 = \<bar>m\<bar> mod 10" by (simp add: mod_mod_cancel)
  moreover have "\<bar>m\<bar> mod 10 \<noteq> 0" using assms by presburger
  moreover have "(0::int) \<le> \<bar>m\<bar> mod 10" "\<bar>m\<bar> mod 10 < 10" by simp_all
  ultimately have "(of_char (last (dec_text m k)) :: int) \<noteq> 48" by (simp add: dec_text_def)
  moreover have "(of_char (last (json_num n)) :: int) = 48" by (simp add: PyFloat)
  ultimately show ?thesis by metis
qed

section \<open>Self-delimiting texts\<close>

definition closes :: "char \<Rightarrow> bool" where
  "closes c \<longleftrightarrow> c = CHR '','' \<or> c = CHR '']'' \<or> c = CHR ''}''"

lemma closes_not_num: "closes c \<Longrightarrow> \<not> num_char c"
  by (auto simp: closes_def num_char_def is_digit_def)

text \<open>A text reader for one element: what follows the text of an element, after a character that
  closes it, is determined.\<close>

definition delimited :: "('a \<Rightarrow> string) \<Rightarrow> ('a \<Rightarrow> bool) \<Rightarrow> 'a \<Rightarrow> bool" where
  "delimited f P v \<longleftrightarrow>
     (\<forall>w c d x y. P w \<longrightarrow> closes c \<longrightarrow> closes d \<longrightarrow> f v @ c # x = f w @ d # y \<longrightarrow>
        v = w \<and> c # x = d # y)"

lemma join_delimited:
  assumes "\<forall>v \<in> set vs. delimited f P v" "\<forall>w \<in> set ws. P w"
    and "\<forall>v. f v \<noteq> [] \<and> \<not> closes (hd (f v))"
    and "e = CHR '']'' \<or> e = CHR ''}''"
    and "join '','' (map f vs) @ e # x = join '','' (map f ws) @ e # y"
  shows "vs = ws \<and> x = y"
  using assms(1,2,5)
proof (induction vs arbitrary: ws)
  case Nil
  then show ?case
  proof (cases ws)
    case (Cons w ws')
    then obtain z where "join '','' (map f ws) = f w @ z" by (cases ws') auto
    then have "e = hd (f w)" using Nil(3) assms(3) by (cases "f w") auto
    then show ?thesis using assms(3,4) by (auto simp: closes_def)
  qed simp
next
  case (Cons v vs)
  have e: "closes e" "e \<noteq> CHR '',''" using assms(4) by (auto simp: closes_def)
  have comma: "closes (CHR '','')" by (simp add: closes_def)
  show ?case
  proof (cases ws)
    case Nil
    obtain z where "join '','' (map f (v # vs)) = f v @ z" by (cases vs) auto
    then have "e = hd (f v)" using Cons.prems(3) Nil assms(3) by (cases "f v") auto
    then show ?thesis using assms(3) e by auto
  next
    case (Cons w ws')
    have d: "v = w \<and> c # x' = d # y'"
      if "closes c" "closes d" "f v @ c # x' = f w @ d # y'" for c d x' y'
    proof -
      have "delimited f P v" "P w" using Cons.prems(1,2) Cons by simp_all
      then show ?thesis using that unfolding delimited_def by blast
    qed
    show ?thesis
    proof (cases "vs = [] \<or> ws' = []")
      case True
      then consider "vs = []" "ws' = []" | v' vs' where "vs = v' # vs'" "ws' = []"
        | w' ws'' where "vs = []" "ws' = w' # ws''"
        by (cases vs; cases ws') auto
      then show ?thesis
      proof cases
        case 1
        then show ?thesis using d [of e e x y] e Cons.prems(3) Cons by simp
      next
        case 2
        then show ?thesis
          using d [of "CHR '',''" e "join '','' (map f (v' # vs')) @ e # x" y] e comma
            Cons.prems(3) Cons by simp
      next
        case 3
        then show ?thesis
          using d [of e "CHR '',''" x "join '','' (map f (w' # ws'')) @ e # y"] e comma
            Cons.prems(3) Cons by simp
      qed
    next
      case False
      then have j: "join '','' (map f (v # vs)) = f v @ CHR '','' # join '','' (map f vs)"
        "join '','' (map f (w # ws')) = f w @ CHR '','' # join '','' (map f ws')"
        by (cases vs; cases ws'; simp)+
      have "v = w \<and> join '','' (map f vs) @ e # x = join '','' (map f ws') @ e # y"
        using d [OF comma comma] Cons.prems(3) unfolding Cons j by simp
      then show ?thesis using Cons.IH [of ws'] Cons.prems(1,2) Cons by auto
    qed
  qed
qed

text \<open>The first character of a text tells the kind of the value.\<close>

datatype kind = KNull | KTrue | KFalse | KNumber | KString | KList | KDict

fun kind_of :: "pyval \<Rightarrow> kind" where
  "kind_of PNone = KNull"
| "kind_of (PBool b) = (if b then KTrue else KFalse)"
| "kind_of (PNum _) = KNumber"
| "kind_of (PDec _ _) = KNumber"
| "kind_of (PStr _) = KString"
| "kind_of (PList _) = KList"
| "kind_of (PDict _) = KDict"

definition kind_of_char :: "char \<Rightarrow> kind" where
  "kind_of_char c =
     (if c = CHR ''n'' then KNull else if c = CHR ''t'' then KTrue else if c = CHR ''f'' then KFalse
      else if c = CHR 0x22 then KString else if c = CHR ''['' then KList
      else if c = CHR ''{'' then KDict else KNumber)"

lemma kind_of_num_char: "num_char c \<Longrightarrow> kind_of_char c = KNumber \<and> \<not> closes c"
proof -
  assume c: "num_char c"
  have "\<not> num_char (CHR ''n'')" "\<not> num_char (CHR ''t'')" "\<not> num_char (CHR ''f'')" "\<not> num_char (CHR 0x22)"
    "\<not> num_char (CHR ''['')" "\<not> num_char (CHR ''{'')"
    by (simp_all add: num_char_def is_digit_def)
  with c have "c \<noteq> CHR ''n''" "c \<noteq> CHR ''t''" "c \<noteq> CHR ''f''" "c \<noteq> CHR 0x22" "c \<noteq> CHR ''[''" "c \<noteq> CHR ''{''"
    by metis+
  with c closes_not_num show ?thesis by (auto simp: kind_of_char_def)
qed

lemma num_texts_nonempty: "json_num n \<noteq> []" "dec_text m k \<noteq> []"
proof -
  show "json_num n \<noteq> []" by (cases n) (simp_all add: show_int_def)
  show "dec_text m k \<noteq> []" unfolding dec_text_def by simp
qed

lemma dumps_head:
  "dumps v \<noteq> [] \<and> kind_of_char (hd (dumps v)) = kind_of v \<and> \<not> closes (hd (dumps v))"
proof (cases v)
  case (PNum n)
  then show ?thesis
    using kind_of_num_char json_num_chars [of n] num_texts_nonempty(1) [of n] by simp
next
  case (PDec m k)
  then show ?thesis
    using kind_of_num_char dec_text_chars [of m k] num_texts_nonempty(2) [of m k] by simp
qed (simp_all add: kind_of_char_def closes_def json_string_def)

lemma dumps_same_kind: "dumps v @ x = dumps w @ y \<Longrightarrow> kind_of v = kind_of w"
  using dumps_head [of v] dumps_head [of w] by (metis hd_append2)

lemma num_delimited:
  assumes "kind_of v = KNumber" "wf_pyval v"
  shows "delimited dumps wf_pyval v"
  unfolding delimited_def
proof (intro allI impI)
  fix w c d x y
  assume w: "wf_pyval w" and cl: "closes c" "closes d" and eq: "dumps v @ c # x = dumps w @ d # y"
  have kw: "kind_of w = KNumber" using dumps_same_kind [OF eq] assms(1) by simp
  have number: "(\<exists>n. u = PNum n) \<or> (\<exists>m k. u = PDec m k)" if "kind_of u = KNumber" for u
    using that by (cases u) (simp_all split: if_splits)
  have chars: "\<forall>c \<in> set (dumps u). num_char c" if "kind_of u = KNumber" for u
    using number [OF that] json_num_chars dec_text_chars by (metis dumps.simps(3,4))
  have "dumps v = dumps w \<and> c # x = d # y"
    using run_split [OF chars [OF assms(1)] chars [OF kw] _ _ eq] closes_not_num cl by blast
  moreover have "v = w" if "dumps v = dumps w"
  proof -
    have nz: "m \<noteq> 0" if "m mod 10 \<noteq> 0" for m :: int using that by auto
    consider n n' where "v = PNum n" "w = PNum n'" | n m k where "v = PNum n" "w = PDec m k"
      | n m k where "v = PDec m k" "w = PNum n" | m k m' k' where "v = PDec m k" "w = PDec m' k'"
      using number [OF assms(1)] number [OF kw] by blast
    then show ?thesis
    proof cases
      case 1
      with that show ?thesis by simp
    next
      case 2
      with that w dec_text_not_json_num show ?thesis by (metis dumps.simps(3,4) wf_pyval.simps(1))
    next
      case 3
      with that assms dec_text_not_json_num show ?thesis by (metis dumps.simps(3,4) wf_pyval.simps(1))
    next
      case 4
      with that assms w nz show ?thesis using dec_text_inj [of m k m' k'] by simp
    qed
  qed
  ultimately show "v = w \<and> c # x = d # y" by simp
qed

definition item_text :: "string \<times> pyval \<Rightarrow> string" where
  "item_text kv = json_string (fst kv) @ '':'' @ dumps (snd kv)"

lemma dumps_PDict: "dumps (PDict kvs) = ''{'' @ join '','' (map item_text kvs) @ ''}''"
  by (simp add: item_text_def case_prod_unfold cong: map_cong)

lemma item_head: "item_text kv \<noteq> [] \<and> \<not> closes (hd (item_text kv))"
  unfolding item_text_def json_string_def closes_def by simp

lemma item_delimited:
  "delimited dumps wf_pyval (snd kv) \<Longrightarrow> delimited item_text (\<lambda>kv. wf_pyval (snd kv)) kv"
  unfolding delimited_def item_text_def
proof (intro allI impI)
  fix w c d x y
  assume a: "\<forall>w c d x y. wf_pyval w \<longrightarrow> closes c \<longrightarrow> closes d \<longrightarrow>
      dumps (snd kv) @ c # x = dumps w @ d # y \<longrightarrow> snd kv = w \<and> c # x = d # y"
    and "wf_pyval (snd w)" "closes c" "closes d"
    and eq: "(json_string (fst kv) @ '':'' @ dumps (snd kv)) @ c # x =
      (json_string (fst w) @ '':'' @ dumps (snd w)) @ d # y"
  from eq have "fst kv = fst w" "dumps (snd kv) @ c # x = dumps (snd w) @ d # y" by simp_all
  moreover have "snd kv = snd w \<and> c # x = d # y"
    using a \<open>wf_pyval (snd w)\<close> \<open>closes c\<close> \<open>closes d\<close> calculation(2) by blast
  ultimately show "kv = w \<and> c # x = d # y" by (metis prod_eqI)
qed

theorem dumps_delimited: "wf_pyval v \<Longrightarrow> delimited dumps wf_pyval v"
proof (induction v)
  case (PList vs)
  have "PList vs = w \<and> c # x = d # y"
    if w: "wf_pyval w" and eq: "dumps (PList vs) @ c # x = dumps w @ d # y" for w c d x y
  proof -
    obtain ws where ws: "w = PList ws"
      using dumps_same_kind [OF eq] by (cases w) (auto split: if_splits)
    show ?thesis
      using join_delimited [of vs dumps wf_pyval ws "CHR '']''" "c # x" "d # y"] PList w ws eq dumps_head
      by simp
  qed
  then show ?case unfolding delimited_def by blast
next
  case (PDict kvs)
  have all: "\<forall>kv \<in> set kvs. delimited item_text (\<lambda>kv. wf_pyval (snd kv)) kv"
    using PDict item_delimited by (metis snds.intros wf_pyval.simps(3))
  have "PDict kvs = w \<and> c # x = d # y"
    if w: "wf_pyval w" and eq: "dumps (PDict kvs) @ c # x = dumps w @ d # y" for w c d x y
  proof -
    obtain kws where kws: "w = PDict kws"
      using dumps_same_kind [OF eq] by (cases w) (auto split: if_splits)
    show ?thesis
      using join_delimited [of kvs item_text "\<lambda>kv. wf_pyval (snd kv)" kws "CHR ''}''" "c # x" "d # y"]
        all w kws eq item_head
      by (simp add: dumps_PDict del: dumps.simps)
  qed
  then show ?case unfolding delimited_def by blast
next
  case (PStr s)
  have "PStr s = w \<and> c # x = d # y" if eq: "dumps (PStr s) @ c # x = dumps w @ d # y" for w c d x y
    using dumps_same_kind [OF eq] eq by (cases w) (auto split: if_splits)
  then show ?case unfolding delimited_def by blast
next
  case (PBool b)
  have "PBool b = w \<and> c # x = d # y" if eq: "dumps (PBool b) @ c # x = dumps w @ d # y" for w c d x y
  proof -
    have "w = PBool b"
      using dumps_same_kind [OF eq] by (cases w) (simp_all split: if_splits)
    then show ?thesis using eq by simp
  qed
  then show ?case unfolding delimited_def by blast
next
  case PNone
  have "PNone = w \<and> c # x = d # y" if eq: "dumps PNone @ c # x = dumps w @ d # y" for w c d x y
    using dumps_same_kind [OF eq] eq by (cases w) (auto split: if_splits)
  then show ?case unfolding delimited_def by blast
qed (simp_all add: num_delimited)

corollary dumps_inj: "wf_pyval v \<Longrightarrow> wf_pyval w \<Longrightarrow> dumps v = dumps w \<Longrightarrow> v = w"
  using dumps_delimited [of v] unfolding delimited_def closes_def by blast

section \<open>Canonical texts\<close>

lemma wf_sort_keys [simp]: "wf_pyval (sort_keys v) = wf_pyval v"
  by (induction v) auto

text \<open>Equal canonical texts mean the same value up to the order of the keys, at every depth.\<close>
theorem deterministic_json_inj:
  assumes "deterministic_json v = deterministic_json w" "wf_pyval v" "wf_pyval w"
  shows "sort_keys v = sort_keys w"
  using dumps_inj [of "sort_keys v" "sort_keys w"] assms by (simp add: deterministic_json_def)

text \<open>For dicts with distinct keys, \<open>sort_keys\<close> keeps what \<open>d[k]\<close> returns.\<close>
lemma sort_keys_lookup:
  assumes "sort_keys (PDict xs) = sort_keys (PDict ys)" "distinct (map fst xs)" "distinct (map fst ys)"
  shows "map_option sort_keys (map_of xs k) = map_option sort_keys (map_of ys k)"
proof -
  let ?g = "\<lambda>(k, v). (k, sort_keys v)"
  have keys: "map fst (map ?g zs) = map fst zs" for zs :: "(string \<times> pyval) list"
    by (induction zs) auto
  have m: "map_of (map ?g zs) k = map_option sort_keys (map_of zs k)" for zs
    by (induction zs) auto
  have eq: "set (map ?g xs) = set (map ?g ys)"
    using arg_cong [of _ _ set, OF assms(1) [simplified]] by simp
  have "map_of (map ?g xs) = map_of (map ?g ys)"
    using assms(2,3) eq keys by (simp only: map_of_inject_set)
  then show ?thesis unfolding m [symmetric] by (rule fun_cong)
qed

end
