(* ===== verification/Handshake.thy ===== *)
theory Handshake
  imports Identity Json_Text Pydict
begin

text \<open>
  \<open>blockchain/network/handshake.py\<close>: signed envelopes, the replay cache and the challenge store.
  An envelope is the dict that travels as JSON.  The clock (\<open>time.time()\<close>) and the random bytes
  (\<open>os.urandom\<close>) are arguments.  The stored credential that \<open>verify_auth_envelope\<close> also takes only
  decides whether a warning is logged, so it is not an argument here; \<open>authenticate_request\<close>
  compares it afterwards.
\<close>

type_synonym envelope = "(string \<times> pyval) list"

datatype auth_reason =
    NotAnObject
  | MissingFields "string list"
  | UnknownProtocolName
  | UnsupportedVersion pyval
  | DifferentNetwork
  | DifferentGenesis
  | InvalidPublicKey
  | InvalidNodeId
  | NoChallengeIssued
  | ChallengeExpired
  | ChallengeMismatch
  | InvalidSignature
  | InvalidTimestamp
  | TimestampExpired
  | InvalidNonce
  | ReplayedNonce
  | NoEnvelope
  | IdentityMismatch
  | NotTrustedYet

section \<open>Constants and context\<close>

definition PROTOCOL_NAME :: string where
  "PROTOCOL_NAME = ''sayanjali-p2p''"

definition SUPPORTED_PROTOCOL_VERSIONS :: "string list" where
  "SUPPORTED_PROTOCOL_VERSIONS = [''1.0'']"

definition REQUIRED_ENVELOPE_FIELDS :: "string list" where
  "REQUIRED_ENVELOPE_FIELDS =
     [''protocol_name'', ''protocol_version'', ''node_id'', ''public_key'', ''network_name'',
      ''genesis_hash'', ''advertised_address'', ''capabilities'', ''timestamp'', ''nonce'', ''signature'']"

record auth_context =
  ctx_identity :: p2p_identity
  ctx_network_name :: string
  ctx_genesis_hash :: string
  ctx_advertised_address :: string
  ctx_capabilities :: "string list"

definition AuthContext :: "p2p_identity \<Rightarrow> string \<Rightarrow> string \<Rightarrow> string \<Rightarrow> auth_context" where
  "AuthContext i network gen addr =
     \<lparr>ctx_identity = i, ctx_network_name = network, ctx_genesis_hash = gen,
      ctx_advertised_address = addr, ctx_capabilities = [''blocks'', ''transactions'', ''sync'']\<rparr>"

section \<open>Envelopes\<close>

definition signed_keys :: "string list" where
  "signed_keys =
     [''protocol_name'', ''protocol_version'', ''node_id'', ''public_key'', ''network_name'',
      ''genesis_hash'', ''advertised_address'', ''capabilities'', ''timestamp'', ''nonce'']"

definition signing_fields :: "envelope \<Rightarrow> string \<Rightarrow> envelope result" where
  "signing_fields env payload_hash =
     (case map_result (\<lambda>k. map_sum id (Pair k) (get_item k env)) signed_keys of
        Inl e \<Rightarrow> Inl e
      | Inr kvs \<Rightarrow> Inr (kvs @ [(''payload_hash'', PStr payload_hash)]))"

text \<open>\<open>sha256(deterministic_json(payload or {}))\<close>.\<close>

definition payload_digest :: "envelope option \<Rightarrow> string" where
  "payload_digest payload =
     sha256 (deterministic_json (PDict (case payload of None \<Rightarrow> [] | Some p \<Rightarrow> p)))"

definition unsigned_envelope :: "auth_context \<Rightarrow> pyval \<Rightarrow> string \<Rightarrow> envelope" where
  "unsigned_envelope ctx now nce =
     [(''protocol_name'', PStr PROTOCOL_NAME),
      (''protocol_version'', PStr ''1.0''),
      (''node_id'', PStr (ident_node_id (ctx_identity ctx))),
      (''public_key'', PStr (ident_public_key_hex (ctx_identity ctx))),
      (''network_name'', PStr (ctx_network_name ctx)),
      (''genesis_hash'', PStr (ctx_genesis_hash ctx)),
      (''advertised_address'', PStr (ctx_advertised_address ctx)),
      (''capabilities'', PList (map PStr (ctx_capabilities ctx))),
      (''timestamp'', now),
      (''nonce'', PStr nce)]"

definition build_auth_envelope ::
  "crypto \<Rightarrow> auth_context \<Rightarrow> envelope option \<Rightarrow> pyval \<Rightarrow> string \<Rightarrow> envelope result" where
  "build_auth_envelope C ctx payload now nce =
     (let env = unsigned_envelope ctx now nce
      in (case signing_fields env (payload_digest payload) of
           Inl e \<Rightarrow> Inl e
         | Inr flds \<Rightarrow>
             (case identity_sign C (ctx_identity ctx) (deterministic_json (PDict flds)) of
                Inl e \<Rightarrow> Inl e
              | Inr sig \<Rightarrow> Inr (dict_set ''signature'' (PStr sig) env))))"

definition build_handshake_envelope ::
  "crypto \<Rightarrow> auth_context \<Rightarrow> pyval \<Rightarrow> pyval \<Rightarrow> string \<Rightarrow> envelope result" where
  "build_handshake_envelope C ctx challenge now nce =
     (case build_auth_envelope C ctx (Some [(''challenge'', challenge)]) now nce of
        Inl e \<Rightarrow> Inl e
      | Inr env0 \<Rightarrow>
          let env = dict_set ''challenge'' challenge env0
          in (case signing_fields env (payload_digest (Some [(''challenge'', challenge)])) of
               Inl e \<Rightarrow> Inl e
             | Inr flds \<Rightarrow>
                 (case identity_sign C (ctx_identity ctx)
                         (deterministic_json (PDict (dict_set ''challenge'' challenge flds))) of
                    Inl e \<Rightarrow> Inl e
                  | Inr sig \<Rightarrow> Inr (dict_set ''signature'' (PStr sig) env))))"

section \<open>The replay cache\<close>

type_synonym replay_cache = bounded_set_state

definition ReplayCache :: "int \<Rightarrow> replay_cache" where
  "ReplayCache n = BoundedSet n"

definition replay_key :: "string \<Rightarrow> string \<Rightarrow> string" where
  "replay_key node_id nce = node_id @ '':'' @ nce"

definition check_and_record :: "string \<Rightarrow> string \<Rightarrow> replay_cache \<Rightarrow> bool \<times> replay_cache" where
  "check_and_record node_id nce cache =
     (let key = replay_key node_id nce
      in if bs_contains key cache then (False, cache) else (True, bs_add key cache))"

section \<open>The challenge store\<close>

record challenge_store =
  challenges :: "(string, string \<times> rat) pydict"
  challenge_order :: "string list"
  challenge_max_size :: int
  challenge_ttl_seconds :: rat

definition ChallengeStore :: "int \<Rightarrow> rat \<Rightarrow> challenge_store" where
  "ChallengeStore n ttl =
     \<lparr>challenges = [], challenge_order = [], challenge_max_size = n, challenge_ttl_seconds = ttl\<rparr>"

text \<open>\<open>issue\<close>; \<open>fresh\<close> is \<open>os.urandom(24).hex()\<close>.  \<open>list.remove\<close> raises \<open>ValueError\<close> for an item
  that is not in the list.\<close>

definition issue :: "rat \<Rightarrow> string \<Rightarrow> string \<Rightarrow> challenge_store \<Rightarrow> (string \<times> challenge_store) result" where
  "issue now fresh node_id st =
     (if map_of (challenges st) node_id \<noteq> None \<and> node_id \<notin> set (challenge_order st) then Inl ValueError
      else
        let ord = (if map_of (challenges st) node_id \<noteq> None then remove1 node_id (challenge_order st)
                   else challenge_order st) @ [node_id];
            chs = dict_set node_id (fresh, now) (challenges st)
        in Inr (fresh,
             if int (length ord) > challenge_max_size st
             then st\<lparr>challenges := dict_pop (hd ord) chs, challenge_order := tl ord\<rparr>
             else st\<lparr>challenges := chs, challenge_order := ord\<rparr>))"

definition verify_and_consume ::
  "rat \<Rightarrow> string \<Rightarrow> pyval \<Rightarrow> challenge_store \<Rightarrow> auth_reason verdict \<times> challenge_store" where
  "verify_and_consume now node_id presented st =
     (case map_of (challenges st) node_id of
        None \<Rightarrow> (Invalid NoChallengeIssued, st)
      | Some (issued, issued_at) \<Rightarrow>
          if now - issued_at > challenge_ttl_seconds st
          then (Invalid ChallengeExpired, st\<lparr>challenges := dict_pop node_id (challenges st)\<rparr>)
          else if presented \<noteq> PStr issued then (Invalid ChallengeMismatch, st)
          else (Valid, st\<lparr>challenges := dict_pop node_id (challenges st),
                          challenge_order := remove1 node_id (challenge_order st)\<rparr>))"

section \<open>Verification\<close>

text \<open>\<open>x in {"1.0"}\<close> hashes \<open>x\<close>: a list or a dict raises \<open>TypeError\<close>.\<close>

definition version_supported :: "pyval \<Rightarrow> bool result" where
  "version_supported v =
     (case v of
        PList _ \<Rightarrow> Inl TypeError
      | PDict _ \<Rightarrow> Inl TypeError
      | PStr s \<Rightarrow> Inr (s \<in> set SUPPORTED_PROTOCOL_VERSIONS)
      | _ \<Rightarrow> Inr False)"

definition env_get :: "envelope \<Rightarrow> string \<Rightarrow> pyval" where
  "env_get env k = (case map_of env k of None \<Rightarrow> PNone | Some v \<Rightarrow> v)"

text \<open>The checks the two verification functions start with, after the check for missing fields
  (so that every \<open>envelope[k]\<close> is there).\<close>

definition check_network_identity :: "crypto \<Rightarrow> auth_context \<Rightarrow> envelope \<Rightarrow> auth_reason verdict result" where
  "check_network_identity C ctx env =
     (if env_get env ''protocol_name'' \<noteq> PStr PROTOCOL_NAME then Inr (Invalid UnknownProtocolName)
      else case version_supported (env_get env ''protocol_version'') of
        Inl e \<Rightarrow> Inl e
      | Inr False \<Rightarrow> Inr (Invalid (UnsupportedVersion (env_get env ''protocol_version'')))
      | Inr True \<Rightarrow>
          if env_get env ''network_name'' \<noteq> PStr (ctx_network_name ctx) then Inr (Invalid DifferentNetwork)
          else if env_get env ''genesis_hash'' \<noteq> PStr (ctx_genesis_hash ctx) then Inr (Invalid DifferentGenesis)
          else if \<not> is_valid_public_key C (env_get env ''public_key'') then Inr (Invalid InvalidPublicKey)
          else (case env_get env ''node_id'' of
                  PStr s \<Rightarrow> if s = [] then Inr (Invalid InvalidNodeId) else Inr Valid
                | _ \<Rightarrow> Inr (Invalid InvalidNodeId)))"

definition missing_fields :: "string list \<Rightarrow> envelope \<Rightarrow> string list" where
  "missing_fields required env = filter (\<lambda>f. map_of env f = None) required"

fun str_of :: "pyval \<Rightarrow> string" where
  "str_of (PStr s) = s"
| "str_of _ = []"

definition check_signature :: "crypto \<Rightarrow> envelope \<Rightarrow> envelope result \<Rightarrow> auth_reason verdict result" where
  "check_signature C env flds =
     (case flds of
        Inl e \<Rightarrow> Inl e
      | Inr fs \<Rightarrow>
          if verify_identity_signature C (env_get env ''public_key'') (deterministic_json (PDict fs))
               (env_get env ''signature'')
          then Inr Valid else Inr (Invalid InvalidSignature))"

text \<open>\<open>abs(now - timestamp) > window\<close> is false when the timestamp is not a number.\<close>

fun stale :: "rat \<Rightarrow> rat \<Rightarrow> pyfloat \<Rightarrow> bool" where
  "stale now window (Finite t) \<longleftrightarrow> \<bar>now - t\<bar> > window"
| "stale now window Infinite \<longleftrightarrow> True"
| "stale now window NotANumber \<longleftrightarrow> False"

definition verify_auth_envelope ::
  "crypto \<Rightarrow> pyval \<Rightarrow> envelope option \<Rightarrow> auth_context \<Rightarrow> rat \<Rightarrow> rat \<Rightarrow> replay_cache \<Rightarrow>
   auth_reason verdict result \<times> replay_cache" where
  "verify_auth_envelope C envelope payload ctx now window cache =
     (case envelope of
        PDict env \<Rightarrow>
          if missing_fields REQUIRED_ENVELOPE_FIELDS env \<noteq> []
          then (Inr (Invalid (MissingFields (missing_fields REQUIRED_ENVELOPE_FIELDS env))), cache)
          else case check_network_identity C ctx env of
            Inl e \<Rightarrow> (Inl e, cache)
          | Inr (Invalid r) \<Rightarrow> (Inr (Invalid r), cache)
          | Inr Valid \<Rightarrow>
              (case py_float (env_get env ''timestamp'') of
                 Inl OverflowError \<Rightarrow> (Inl OverflowError, cache)
               | Inl _ \<Rightarrow> (Inr (Invalid InvalidTimestamp), cache)
               | Inr ts \<Rightarrow>
                   if stale now window ts then (Inr (Invalid TimestampExpired), cache)
                   else if str_of (env_get env ''nonce'') = [] then (Inr (Invalid InvalidNonce), cache)
                   else case check_and_record (str_of (env_get env ''node_id''))
                               (str_of (env_get env ''nonce'')) cache of
                     (False, cache') \<Rightarrow> (Inr (Invalid ReplayedNonce), cache')
                   | (True, cache') \<Rightarrow>
                       (check_signature C env (signing_fields env (payload_digest payload)), cache'))
      | _ \<Rightarrow> (Inr (Invalid NotAnObject), cache))"

definition verify_handshake_envelope ::
  "crypto \<Rightarrow> pyval \<Rightarrow> auth_context \<Rightarrow> rat \<Rightarrow> challenge_store \<Rightarrow>
   auth_reason verdict result \<times> challenge_store" where
  "verify_handshake_envelope C envelope ctx now store =
     (case envelope of
        PDict env \<Rightarrow>
          if missing_fields (REQUIRED_ENVELOPE_FIELDS @ [''challenge'']) env \<noteq> []
          then (Inr (Invalid (MissingFields (missing_fields (REQUIRED_ENVELOPE_FIELDS @ [''challenge'']) env))), store)
          else case check_network_identity C ctx env of
            Inl e \<Rightarrow> (Inl e, store)
          | Inr (Invalid r) \<Rightarrow> (Inr (Invalid r), store)
          | Inr Valid \<Rightarrow>
              (case verify_and_consume now (str_of (env_get env ''node_id'')) (env_get env ''challenge'') store of
                 (Invalid r, store') \<Rightarrow> (Inr (Invalid r), store')
               | (Valid, store') \<Rightarrow>
                   (check_signature C env
                      (map_sum id (dict_set ''challenge'' (env_get env ''challenge''))
                         (signing_fields env (payload_digest (Some [(''challenge'', env_get env ''challenge'')])))),
                    store'))
      | _ \<Rightarrow> (Inr (Invalid NotAnObject), store))"

section \<open>What a signature covers\<close>

definition signed_dict :: "envelope \<Rightarrow> envelope option \<Rightarrow> envelope" where
  "signed_dict env payload =
     map (\<lambda>k. (k, env_get env k)) signed_keys @ [(''payload_hash'', PStr (payload_digest payload))]"

abbreviation payload_value :: "envelope option \<Rightarrow> pyval" where
  "payload_value payload \<equiv> PDict (case payload of None \<Rightarrow> [] | Some p \<Rightarrow> p)"

lemma signing_fields_Inr:
  assumes "\<forall>k \<in> set signed_keys. map_of env k \<noteq> None"
  shows "signing_fields env (payload_digest payload) = Inr (signed_dict env payload)"
proof -
  have "map_result (\<lambda>k. map_sum id (Pair k) (get_item k env)) signed_keys =
      Inr (map (\<lambda>k. (k, env_get env k)) signed_keys)"
    by (rule map_result_Inr_all) (use assms in \<open>auto simp: get_item_def env_get_def split: option.splits\<close>)
  then show ?thesis by (simp add: signing_fields_def signed_dict_def)
qed

lemma signed_keys_required: "set signed_keys \<subseteq> set REQUIRED_ENVELOPE_FIELDS"
  by (simp add: signed_keys_def REQUIRED_ENVELOPE_FIELDS_def)

lemma keys_signed_dict: "map fst (signed_dict env payload) = signed_keys @ [''payload_hash'']"
  by (simp add: signed_dict_def comp_def)

lemma distinct_signed_dict: "distinct (map fst (signed_dict env payload))"
  unfolding keys_signed_dict by (simp add: signed_keys_def)

lemma signed_dict_lookup: "k \<in> set signed_keys \<Longrightarrow> map_of (signed_dict env payload) k = Some (env_get env k)"
  by (simp add: signed_dict_def map_of_append map_of_map_restrict map_add_def)

lemma payload_hash_lookup:
  "map_of (signed_dict env payload) ''payload_hash'' = Some (PStr (payload_digest payload))"
proof -
  have "''payload_hash'' \<notin> set signed_keys" by (simp add: signed_keys_def)
  then show ?thesis by (simp add: signed_dict_def map_add_def map_of_map_restrict restrict_map_def)
qed

lemma wf_env_get: "wf_pyval (PDict env) \<Longrightarrow> wf_pyval (env_get env k)"
  using map_of_SomeD [of env k] by (fastforce simp: env_get_def split: option.splits)

lemma wf_signed_dict: "wf_pyval (PDict env) \<Longrightarrow> wf_pyval (PDict (signed_dict env payload))"
  using wf_env_get by (auto simp: signed_dict_def simp del: wf_pyval.simps(3)) (simp add: image_iff)

text \<open>Two envelopes with the same signed text agree on every signed field and on the payload,
  both up to the order of keys in nested dicts.\<close>
lemma signed_text_binds:
  assumes "deterministic_json (PDict (signed_dict env p)) = deterministic_json (PDict (signed_dict env' p'))"
    and "wf_pyval (PDict env)" "wf_pyval (PDict env')"
    and "wf_pyval (payload_value p)" "wf_pyval (payload_value p')"
  shows "\<forall>k \<in> set signed_keys. sort_keys (env_get env k) = sort_keys (env_get env' k)"
    and "sort_keys (payload_value p) = sort_keys (payload_value p') \<or>
      sha_collision (deterministic_json (payload_value p)) (deterministic_json (payload_value p'))"
proof -
  have "sort_keys (PDict (signed_dict env p)) = sort_keys (PDict (signed_dict env' p'))"
    using deterministic_json_inj [OF assms(1)] wf_signed_dict assms(2,3) by blast
  note look = sort_keys_lookup [OF this distinct_signed_dict distinct_signed_dict]
  show "\<forall>k \<in> set signed_keys. sort_keys (env_get env k) = sort_keys (env_get env' k)"
    using look by (metis option.inject option.map(2) signed_dict_lookup)
  have "payload_digest p = payload_digest p'"
    using look [of "''payload_hash''"] by (simp add: payload_hash_lookup)
  then show "sort_keys (payload_value p) = sort_keys (payload_value p') \<or>
      sha_collision (deterministic_json (payload_value p)) (deterministic_json (payload_value p'))"
    using deterministic_json_inj [OF _ assms(4,5)] by (auto simp: payload_digest_def sha_collision_def)
qed

section \<open>What is accepted\<close>

lemma check_network_identityD:
  assumes "check_network_identity C ctx env = Inr Valid"
  shows "env_get env ''protocol_name'' = PStr PROTOCOL_NAME"
    "env_get env ''network_name'' = PStr (ctx_network_name ctx)"
    "env_get env ''genesis_hash'' = PStr (ctx_genesis_hash ctx)"
    "is_valid_public_key C (env_get env ''public_key'')"
    "\<exists>s. env_get env ''node_id'' = PStr s \<and> s \<noteq> []"
  using assms
  by (auto simp: check_network_identity_def split: if_splits sum.splits bool.splits pyval.splits)

lemma missing_fields_none:
  "missing_fields required env = [] \<longleftrightarrow> (\<forall>k \<in> set required. map_of env k \<noteq> None)"
  by (auto simp: missing_fields_def filter_empty_conv)

text \<open>The steps up to the replay cache, as one condition on the envelope.\<close>

definition admissible :: "crypto \<Rightarrow> auth_context \<Rightarrow> rat \<Rightarrow> rat \<Rightarrow> envelope \<Rightarrow> bool" where
  "admissible C ctx now window env \<longleftrightarrow>
     missing_fields REQUIRED_ENVELOPE_FIELDS env = [] \<and>
     check_network_identity C ctx env = Inr Valid \<and>
     (\<exists>ts. py_float (env_get env ''timestamp'') = Inr ts \<and> \<not> stale now window ts) \<and>
     str_of (env_get env ''nonce'') \<noteq> []"

definition env_key :: "envelope \<Rightarrow> string" where
  "env_key env = replay_key (str_of (env_get env ''node_id'')) (str_of (env_get env ''nonce''))"

abbreviation signature_ok :: "crypto \<Rightarrow> envelope \<Rightarrow> envelope option \<Rightarrow> bool" where
  "signature_ok C env payload \<equiv>
     verify_identity_signature C (env_get env ''public_key'')
       (deterministic_json (PDict (signed_dict env payload))) (env_get env ''signature'')"

lemma verify_admissible:
  assumes "admissible C ctx now window env"
  shows "verify_auth_envelope C (PDict env) payload ctx now window cache =
     (if bs_contains (env_key env) cache then (Inr (Invalid ReplayedNonce), cache)
      else (Inr (if signature_ok C env payload then Valid else Invalid InvalidSignature),
            bs_add (env_key env) cache))"
proof -
  have "\<forall>k \<in> set signed_keys. map_of env k \<noteq> None"
    using assms signed_keys_required unfolding admissible_def missing_fields_none by blast
  note fs = signing_fields_Inr [OF this, of payload]
  from assms show ?thesis
    by (auto simp: admissible_def verify_auth_envelope_def check_and_record_def env_key_def Let_def
        check_signature_def fs)
qed

lemma verify_inadmissible:
  "\<not> admissible C ctx now window env \<Longrightarrow>
   fst (verify_auth_envelope C (PDict env) payload ctx now window cache) \<noteq> Inr Valid \<and>
   snd (verify_auth_envelope C (PDict env) payload ctx now window cache) = cache"
  unfolding admissible_def verify_auth_envelope_def
  by (simp split: sum.splits verdict.splits py_error.splits) blast

lemma verify_auth_envelope_iff:
  "fst (verify_auth_envelope C (PDict env) payload ctx now window cache) = Inr Valid \<longleftrightarrow>
   admissible C ctx now window env \<and> \<not> bs_contains (env_key env) cache \<and> signature_ok C env payload"
  using verify_admissible [of C ctx now window env payload cache]
    verify_inadmissible [of C ctx now window env payload cache]
  by (cases "admissible C ctx now window env") auto

text \<open>Whatever arrives, the cache changes by at most one addition.\<close>
lemma verify_cache:
  "snd (verify_auth_envelope C e payload ctx now window cache) \<in> {cache} \<union> range (\<lambda>k. bs_add k cache)"
proof (cases e)
  case (PDict env)
  then show ?thesis
    using verify_admissible [of C ctx now window env payload cache]
      verify_inadmissible [of C ctx now window env payload cache]
    by (cases "admissible C ctx now window env") auto
qed (simp_all add: verify_auth_envelope_def)

section \<open>A stream of requests\<close>

definition process ::
  "crypto \<Rightarrow> auth_context \<Rightarrow> rat \<Rightarrow> (pyval \<times> envelope option \<times> rat) list \<Rightarrow> replay_cache \<Rightarrow> replay_cache" where
  "process C ctx window = fold (\<lambda>(e, payload, now) c. snd (verify_auth_envelope C e payload ctx now window c))"

lemma process_adds: "\<exists>ys. length ys \<le> length reqs \<and> process C ctx window reqs cache = fold bs_add ys cache"
proof (induction reqs arbitrary: cache)
  case Nil
  then show ?case by (simp add: process_def)
next
  case (Cons r reqs)
  obtain e payload now where r: "r = (e, payload, now)" by (cases r)
  let ?c = "snd (verify_auth_envelope C e payload ctx now window cache)"
  obtain ys where ys: "length ys \<le> length reqs" "process C ctx window reqs ?c = fold bs_add ys ?c"
    using Cons by blast
  have step: "process C ctx window (r # reqs) cache = fold bs_add ys ?c"
    using ys(2) by (simp add: process_def r)
  from verify_cache [of C e payload ctx now window cache] consider "?c = cache" | k where "?c = bs_add k cache"
    by blast
  then show ?case
  proof cases
    case 1
    then show ?thesis using ys(1) step by (intro exI [of _ ys]) simp
  next
    case (2 k)
    then show ?thesis using ys(1) step by (intro exI [of _ "k # ys"]) simp
  qed
qed

lemma distinct_bs_add:
  assumes "distinct (order c @ k # ks)"
  shows "distinct (order (bs_add k c) @ ks)"
proof -
  have "distinct (tl (order c @ [k]) @ ks)" using assms by (cases "order c") auto
  then show ?thesis using assms order_bs_add_new [of k c] by auto
qed

text \<open>Admissible envelopes with new nonces are all recorded, whatever their signatures.\<close>
lemma process_admissible:
  assumes "\<forall>(env, payload, now) \<in> set qs. admissible C ctx now window env"
    and "distinct (order cache @ map (env_key \<circ> fst) qs)"
  shows "process C ctx window (map (\<lambda>(env, payload, now). (PDict env, payload, now)) qs) cache =
     fold bs_add (map (env_key \<circ> fst) qs) cache"
  using assms
proof (induction qs arbitrary: cache)
  case Nil
  then show ?case by (simp add: process_def)
next
  case (Cons q qs)
  obtain env payload now where q: "q = (env, payload, now)" by (cases q)
  have adm: "admissible C ctx now window env" using Cons.prems(1) q by simp
  have "\<not> bs_contains (env_key env) cache" using Cons.prems(2) by (simp add: bs_contains_def q)
  then have step: "snd (verify_auth_envelope C (PDict env) payload ctx now window cache) = bs_add (env_key env) cache"
    by (simp add: verify_admissible [OF adm])
  have "distinct (order (bs_add (env_key env) cache) @ map (env_key \<circ> fst) qs)"
    by (rule distinct_bs_add) (use Cons.prems(2) q in \<open>simp add: comp_def\<close>)
  from Cons.IH [OF _ this] Cons.prems(1) show ?case by (simp add: process_def q step)
qed

section \<open>Building what is accepted\<close>

lemma env_get_unsigned:
  "env_get (unsigned_envelope ctx now nce) k =
     (case map_of (unsigned_envelope ctx now nce) k of None \<Rightarrow> PNone | Some v \<Rightarrow> v)"
  by (simp add: env_get_def)

lemma env_get_set: "env_get (dict_set k v env) k' = (if k' = k then v else env_get env k')"
  by (simp add: env_get_def)

lemma signed_dict_set:
  "k \<notin> set signed_keys \<Longrightarrow> signed_dict (dict_set k v env) payload = signed_dict env payload"
  by (auto simp: signed_dict_def env_get_set)

lemma unsigned_keys: "\<forall>k \<in> set signed_keys. map_of (unsigned_envelope ctx now nce) k \<noteq> None"
  by (simp add: signed_keys_def unsigned_envelope_def)

lemma build_auth_envelope_genuine:
  assumes "crypto_correct C" "genuine C (ctx_identity ctx)"
  shows "\<exists>sig. build_auth_envelope C ctx payload now nce =
      Inr (dict_set ''signature'' (PStr sig) (unsigned_envelope ctx now nce)) \<and>
    signature_ok C (dict_set ''signature'' (PStr sig) (unsigned_envelope ctx now nce)) payload"
proof -
  let ?env = "unsigned_envelope ctx now nce"
  obtain sig where sig: "identity_sign C (ctx_identity ctx) (deterministic_json (PDict (signed_dict ?env payload))) = Inr sig"
    "verify_identity_signature C (PStr (ident_public_key_hex (ctx_identity ctx)))
       (deterministic_json (PDict (signed_dict ?env payload))) (PStr sig)"
    using genuine_signs [OF assms] by blast
  have "''signature'' \<notin> set signed_keys" by (simp add: signed_keys_def)
  note sd = signed_dict_set [OF this]
  have "env_get ?env ''public_key'' = PStr (ident_public_key_hex (ctx_identity ctx))"
    by (simp add: env_get_def unsigned_envelope_def)
  with sig show ?thesis
    by (intro exI [of _ sig])
      (simp add: build_auth_envelope_def signing_fields_Inr [OF unsigned_keys] sd env_get_set)
qed

lemma unsigned_admissible:
  assumes "ctx_network_name ctx' = ctx_network_name ctx" "ctx_genesis_hash ctx' = ctx_genesis_hash ctx"
    and "ident_node_id (ctx_identity ctx) \<noteq> []" "nce \<noteq> []"
    and "py_float ts = Inr f" "\<not> stale now window f"
    and "is_valid_public_key C (PStr (ident_public_key_hex (ctx_identity ctx)))"
  shows "admissible C ctx' now window (dict_set ''signature'' sig (unsigned_envelope ctx ts nce))"
  using assms
  by (simp add: admissible_def missing_fields_none REQUIRED_ENVELOPE_FIELDS_def check_network_identity_def
      version_supported_def SUPPORTED_PROTOCOL_VERSIONS_def unsigned_envelope_def env_get_def)

end
