(* ===== verification/Handshake_Properties.thy ===== *)
theory Handshake_Properties
  imports Handshake
begin

text \<open>
  What the authentication of requests achieves: genuine envelopes are accepted, an accepted one
  is bound to its content and cannot be replayed while the cache remembers it, challenges are used
  once and in time; and where it falls short: forged envelopes fill the replay cache, a timestamp
  that is not a number never expires, and an expired challenge leaves an entry that later evicts a
  live one.
\<close>

section \<open>The challenge store as a state machine\<close>

datatype challenge_event = Issued rat string string | Consumed string

text \<open>The states the store can reach, with the events that led there, the latest first.  A refused
  response is no event.\<close>

inductive store_reach :: "int \<Rightarrow> rat \<Rightarrow> challenge_event list \<Rightarrow> challenge_store \<Rightarrow> bool" for n ttl where
  start: "store_reach n ttl [] (ChallengeStore n ttl)"
| issue: "store_reach n ttl h st \<Longrightarrow> issue now fresh nid st = Inr (c, st') \<Longrightarrow>
    store_reach n ttl (Issued now nid c # h) st'"
| consume: "store_reach n ttl h st \<Longrightarrow> verify_and_consume now nid p st = (Valid, st') \<Longrightarrow>
    store_reach n ttl (Consumed nid # h) st'"
| refuse: "store_reach n ttl h st \<Longrightarrow> verify_and_consume now nid p st = (Invalid r, st') \<Longrightarrow>
    store_reach n ttl h st'"

text \<open>The challenge that is open for a node: the last one issued, unless it was used.\<close>

fun open_challenge :: "challenge_event list \<Rightarrow> string \<Rightarrow> (string \<times> rat) option" where
  "open_challenge [] nid = None"
| "open_challenge (Issued t n c # h) nid = (if n = nid then Some (c, t) else open_challenge h nid)"
| "open_challenge (Consumed n # h) nid = (if n = nid then None else open_challenge h nid)"

definition store_invar :: "int \<Rightarrow> rat \<Rightarrow> challenge_event list \<Rightarrow> challenge_store \<Rightarrow> bool" where
  "store_invar n ttl h st \<longleftrightarrow>
     challenge_max_size st = n \<and> challenge_ttl_seconds st = ttl \<and>
     dict_invar (challenges st) \<and> dom (map_of (challenges st)) \<subseteq> set (challenge_order st) \<and>
     int (length (challenge_order st)) \<le> max 0 n \<and>
     map_of (challenges st) \<subseteq>\<^sub>m open_challenge h"

lemma set_remove1_subset: "set xs - {x} \<subseteq> set (remove1 x xs)"
  by (induction xs) auto

lemma dom_pop: "dom (map_of (dict_pop k d)) = dom (map_of d) - {k}"
  by (auto simp: map_of_dict_pop)

lemma map_le_pop: "map_of d \<subseteq>\<^sub>m f \<Longrightarrow> map_of (dict_pop k d) \<subseteq>\<^sub>m f"
  by (auto simp: map_of_dict_pop map_le_def)

lemma issue_invar:
  assumes inv: "store_invar n ttl h st"
  shows "\<exists>st'. issue now fresh nid st = Inr (fresh, st') \<and> store_invar n ttl (Issued now nid fresh # h) st'"
proof -
  define ord where "ord = (if map_of (challenges st) nid \<noteq> None then remove1 nid (challenge_order st)
      else challenge_order st) @ [nid]"
  define chs where "chs = dict_set nid (fresh, now) (challenges st)"
  have keys: "dom (map_of (challenges st)) \<subseteq> set (challenge_order st)" and d: "dict_invar (challenges st)"
    using inv by (simp_all add: store_invar_def)
  have sub: "dom (map_of chs) \<subseteq> set ord"
  proof -
    have "dom (map_of chs) = insert nid (dom (map_of (challenges st)))" by (simp add: chs_def)
    moreover have "set (challenge_order st) \<subseteq> insert nid (set ord)"
      using set_remove1_subset [of "challenge_order st" nid] by (auto simp: ord_def)
    moreover have "nid \<in> set ord" unfolding ord_def by simp
    ultimately show ?thesis using keys by (metis insert_absorb insert_mono subset_trans)
  qed
  have len: "int (length ord) \<le> max 0 n + 1"
    using inv length_remove1 [of nid "challenge_order st"] by (auto simp: ord_def store_invar_def)
  have le: "map_of chs \<subseteq>\<^sub>m open_challenge (Issued now nid fresh # h)"
    using inv by (auto simp: chs_def store_invar_def map_le_def)
  have ne: "ord \<noteq> []" by (simp add: ord_def)
  have hd: "dom (map_of (dict_pop (hd ord) chs)) \<subseteq> set (tl ord)"
    using sub ne unfolding dom_pop by (cases ord) auto
  have no_error: "\<not> (map_of (challenges st) nid \<noteq> None \<and> nid \<notin> set (challenge_order st))"
    using keys by (auto simp: subset_iff)
  show ?thesis
  proof (cases "int (length ord) > n")
    case True
    let ?st = "st\<lparr>challenges := dict_pop (hd ord) chs, challenge_order := tl ord\<rparr>"
    have "issue now fresh nid st = Inr (fresh, ?st)"
      using inv True no_error by (simp add: issue_def ord_def chs_def store_invar_def Let_def)
    moreover have "store_invar n ttl (Issued now nid fresh # h) ?st"
      using inv len hd map_le_pop [OF le] dict_invar_pop [OF dict_invar_set [OF d]] ne
      by (auto simp: store_invar_def chs_def)
    ultimately show ?thesis by blast
  next
    case False
    let ?st = "st\<lparr>challenges := chs, challenge_order := ord\<rparr>"
    have "issue now fresh nid st = Inr (fresh, ?st)"
      using inv False no_error by (simp add: issue_def ord_def chs_def store_invar_def Let_def)
    moreover have "store_invar n ttl (Issued now nid fresh # h) ?st"
      using inv False sub le dict_invar_set [OF d] by (auto simp: store_invar_def chs_def)
    ultimately show ?thesis by blast
  qed
qed

lemma consume_invar:
  assumes inv: "store_invar n ttl h st" and v: "verify_and_consume now nid p st = (Valid, st')"
  shows "store_invar n ttl (Consumed nid # h) st'" "map_of (challenges st') nid = None"
    "\<exists>c t. open_challenge h nid = Some (c, t) \<and> p = PStr c \<and> now - t \<le> ttl"
proof -
  from v obtain c t where ct: "map_of (challenges st) nid = Some (c, t)" "now - t \<le> challenge_ttl_seconds st"
    "p = PStr c"
    and st': "st' = st\<lparr>challenges := dict_pop nid (challenges st),
       challenge_order := remove1 nid (challenge_order st)\<rparr>"
    by (auto simp: verify_and_consume_def split: option.splits if_splits)
  show "map_of (challenges st') nid = None" by (simp add: st' map_of_dict_pop)
  have "dom (map_of (challenges st')) \<subseteq> set (challenge_order st')"
    using inv set_remove1_subset [of "challenge_order st" nid] by (auto simp: store_invar_def st' dom_pop subset_iff)
  moreover have "map_of (challenges st') \<subseteq>\<^sub>m open_challenge (Consumed nid # h)"
    using inv by (auto simp: store_invar_def st' map_of_dict_pop map_le_def)
  ultimately show "store_invar n ttl (Consumed nid # h) st'"
    using inv length_remove1 [of nid "challenge_order st"]
    by (simp add: store_invar_def dict_invar_pop) (auto simp: st' dict_invar_pop)
  have "map_of (challenges st) \<subseteq>\<^sub>m open_challenge h" using inv by (simp add: store_invar_def)
  then have "open_challenge h nid = Some (c, t)" using ct(1) by (metis domI map_le_def)
  then show "\<exists>c t. open_challenge h nid = Some (c, t) \<and> p = PStr c \<and> now - t \<le> ttl"
    using ct inv by (simp add: store_invar_def)
qed

lemma refuse_invar:
  assumes "store_invar n ttl h st" "verify_and_consume now nid p st = (Invalid r, st')"
  shows "store_invar n ttl h st'"
proof -
  from assms(2) consider "st' = st" | "st' = st\<lparr>challenges := dict_pop nid (challenges st)\<rparr>"
    by (auto simp: verify_and_consume_def split: option.splits if_splits)
  then show ?thesis
    using assms(1) by cases (auto simp: store_invar_def dict_invar_pop dom_pop map_le_pop)
qed

lemma store_reach_invar: "store_reach n ttl h st \<Longrightarrow> store_invar n ttl h st"
proof (induction rule: store_reach.induct)
  case start
  then show ?case by (simp add: store_invar_def ChallengeStore_def dict_invar_def)
next
  case (issue h st now fresh nid c st')
  then show ?case using issue_invar [OF issue.IH, of now fresh nid] by auto
qed (auto simp: consume_invar refuse_invar)

text \<open>C20: a challenge is used at most once, by the node it was issued to, and in time: in every
  reachable store a response is accepted only if it carries the last challenge issued to that node,
  not older than the time to live and not used since; afterwards the node has no challenge.  The
  store never holds more than its capacity and \<open>issue\<close> never raises.\<close>
theorem challenge_used_once:
  assumes "store_reach n ttl h st"
  shows "(\<forall>now nid p st'. verify_and_consume now nid p st = (Valid, st') \<longrightarrow>
      (\<exists>c t. open_challenge h nid = Some (c, t) \<and> p = PStr c \<and> now - t \<le> ttl) \<and>
      map_of (challenges st') nid = None)
    \<and> int (length (challenges st)) \<le> max 0 n
    \<and> (\<forall>now fresh nid. \<exists>st'. issue now fresh nid st = Inr (fresh, st'))"
proof -
  note inv = store_reach_invar [OF assms]
  have d: "distinct (map fst (challenges st))" and sub: "set (map fst (challenges st)) \<subseteq> set (challenge_order st)"
    and len: "int (length (challenge_order st)) \<le> max 0 n"
    using inv by (simp_all add: store_invar_def dict_invar_def dom_map_of_conv_image_fst)
  have "length (challenges st) = card (set (map fst (challenges st)))" using distinct_card [OF d] by simp
  also have "\<dots> \<le> length (challenge_order st)"
    by (meson card_length card_mono List.finite_set sub le_trans)
  finally have "int (length (challenges st)) \<le> max 0 n" using len by linarith
  then show ?thesis using consume_invar [OF inv] issue_invar [OF inv] by blast
qed

definition sample_store :: challenge_store where
  "sample_store = ChallengeStore 5 60\<lparr>challenges := [(''node'', (''c1'', 100))], challenge_order := [''node'']\<rparr>"

lemma sample_store_reach: "store_reach 5 60 [Issued 100 ''node'' ''c1''] sample_store"
proof (rule store_reach.issue [OF store_reach.start])
  show "issue 100 ''c1'' ''node'' (ChallengeStore 5 60) = Inr (''c1'', sample_store)"
    by (simp add: issue_def sample_store_def ChallengeStore_def)
qed

theorem challenge_used_once_witness:
  "store_reach 5 60 [Issued 100 ''node'' ''c1''] sample_store \<and>
   fst (verify_and_consume 130 ''node'' (PStr ''c1'') sample_store) = Valid \<and>
   int (length (challenges sample_store)) \<le> 5"
  using challenge_used_once [OF sample_store_reach] sample_store_reach
  by (simp add: verify_and_consume_def sample_store_def ChallengeStore_def)

text \<open>an expired challenge leaves its node in the eviction order, so that a later challenge of
  the same node is dropped early: in a store for two nodes, where never more than two challenges are
  open, the second node's request removes the first node's live challenge.\<close>
theorem expired_challenge_evicts_live_one:
  "(case issue 0 ''c1'' ''a'' (ChallengeStore 2 60) of Inr (_, s1) \<Rightarrow>
    (case verify_and_consume 100 ''a'' (PStr ''c1'') s1 of (Invalid ChallengeExpired, s2) \<Rightarrow>
    (case issue 100 ''c2'' ''a'' s2 of Inr (_, s3) \<Rightarrow>
    (case issue 101 ''c3'' ''b'' s3 of Inr (_, s4) \<Rightarrow>
       challenges s3 = [(''a'', ''c2'', 100)] \<and> challenges s4 = [(''b'', ''c3'', 101)] \<and>
       fst (verify_and_consume 101 ''a'' (PStr ''c2'') s4) = Invalid NoChallengeIssued))))"
  by (simp add: issue_def verify_and_consume_def ChallengeStore_def dict_pop_def)

section \<open>Envelopes\<close>

definition sample_ctx :: auth_context where
  "sample_ctx = AuthContext (P2PIdentity_generate sample_crypto ''node'' 1) ''net'' ''genesis'' ''http://a:1''"

lemma sample_genuine: "genuine sample_crypto (ctx_identity sample_ctx)"
  unfolding genuine_def
  by (rule exI [of _ 1]) (simp add: sample_ctx_def AuthContext_def ORDER_def P2PIdentity_generate_def sample_crypto_def)

lemma sample_ctx_facts [simp]:
  "ctx_network_name sample_ctx = ''net''" "ctx_genesis_hash sample_ctx = ''genesis''"
  "ident_node_id (ctx_identity sample_ctx) = ''node''"
  by (simp_all add: sample_ctx_def AuthContext_def P2PIdentity_generate_def sample_crypto_def)

lemma build_verifies:
  assumes "crypto_correct C" "genuine C (ctx_identity ctx)" "ident_node_id (ctx_identity ctx) \<noteq> []"
    and "ctx_network_name ctx' = ctx_network_name ctx" "ctx_genesis_hash ctx' = ctx_genesis_hash ctx"
    and "py_float ts = Inr (Finite t)" "\<bar>now - t\<bar> \<le> window" "nce \<noteq> []"
    and "\<not> bs_contains (replay_key (ident_node_id (ctx_identity ctx)) nce) cache"
  shows "\<exists>env. build_auth_envelope C ctx payload ts nce = Inr env \<and>
    verify_auth_envelope C (PDict env) payload ctx' now window cache =
      (Inr Valid, bs_add (replay_key (ident_node_id (ctx_identity ctx)) nce) cache) \<and>
    env_get env ''node_id'' = PStr (ident_node_id (ctx_identity ctx)) \<and>
    env_get env ''public_key'' = PStr (ident_public_key_hex (ctx_identity ctx))"
proof -
  obtain sig where b: "build_auth_envelope C ctx payload ts nce =
      Inr (dict_set ''signature'' (PStr sig) (unsigned_envelope ctx ts nce))"
    and s: "signature_ok C (dict_set ''signature'' (PStr sig) (unsigned_envelope ctx ts nce)) payload"
    using build_auth_envelope_genuine [OF assms(1,2)] by blast
  have pk: "is_valid_public_key C (PStr (ident_public_key_hex (ctx_identity ctx)))"
    using genuine_signs [OF assms(1,2)] verified_key_valid by blast
  have "\<not> stale now window (Finite t)" using assms(7) by simp
  note adm = unsigned_admissible [OF assms(4,5,3,8,6) this pk, of "PStr sig"]
  have "env_key (dict_set ''signature'' (PStr sig) (unsigned_envelope ctx ts nce)) =
      replay_key (ident_node_id (ctx_identity ctx)) nce"
    by (simp add: env_key_def env_get_def unsigned_envelope_def)
  with b s assms(9) show ?thesis
    by (simp add: verify_admissible [OF adm]) (simp add: env_get_def unsigned_envelope_def)
qed

text \<open>with a correct ECDSA, what a node signs another node of the same network accepts: the
  envelope \<open>build_auth_envelope\<close> makes for a payload verifies with that payload at a receiver with
  the same network name and genesis hash, when the clocks differ by at most the freshness window and
  the nonce is new; the receiver then has the nonce on record.\<close>
theorem built_envelope_accepted:
  assumes "crypto_correct C" "genuine C (ctx_identity ctx)" "ident_node_id (ctx_identity ctx) \<noteq> []"
    and "ctx_network_name ctx' = ctx_network_name ctx" "ctx_genesis_hash ctx' = ctx_genesis_hash ctx"
    and "py_float ts = Inr (Finite t)" "\<bar>now - t\<bar> \<le> window" "nce \<noteq> []"
    and "\<not> bs_contains (replay_key (ident_node_id (ctx_identity ctx)) nce) cache"
  shows "\<exists>env. build_auth_envelope C ctx payload ts nce = Inr env \<and>
    verify_auth_envelope C (PDict env) payload ctx' now window cache =
      (Inr Valid, bs_add (replay_key (ident_node_id (ctx_identity ctx)) nce) cache)"
  using build_verifies [OF assms, of payload] by blast

theorem built_envelope_accepted_witness:
  "\<exists>env. build_auth_envelope sample_crypto sample_ctx None (PDec 1730000000123 2) ''ab'' = Inr env \<and>
    verify_auth_envelope sample_crypto (PDict env) None sample_ctx 1730000010 300 (ReplayCache 5) =
      (Inr Valid, bs_add (replay_key ''node'' ''ab'') (ReplayCache 5))"
  using built_envelope_accepted [OF sample_crypto_correct sample_genuine, of sample_ctx "PDec 1730000000123 2"
      "1730000000123 / 1000" 1730000010 300 "''ab''" "ReplayCache 5" None]
  by (simp add: ReplayCache_def BoundedSet_def bs_contains_def)

text \<open>An accepted envelope is bound to its content: when the same signature is accepted under
  the same key in two requests, and it verifies for one message only, the two agree in every signed
  field and in the payload, up to the order of keys, unless the two payload texts collide under
  SHA-256.\<close>
theorem accepted_envelope_binds:
  assumes "fst (verify_auth_envelope C (PDict env) p ctx now w cache) = Inr Valid"
    and "fst (verify_auth_envelope C (PDict env') p' ctx' now' w' cache') = Inr Valid"
    and "env_get env' ''public_key'' = env_get env ''public_key''"
    and "env_get env' ''signature'' = env_get env ''signature''"
    and "\<And>m m'. verify_identity_signature C (env_get env ''public_key'') m (env_get env ''signature'') \<Longrightarrow>
      verify_identity_signature C (env_get env ''public_key'') m' (env_get env ''signature'') \<Longrightarrow> m = m'"
    and "wf_pyval (PDict env)" "wf_pyval (PDict env')" "wf_pyval (payload_value p)" "wf_pyval (payload_value p')"
  shows "(\<forall>k \<in> set signed_keys. sort_keys (env_get env k) = sort_keys (env_get env' k)) \<and>
    (sort_keys (payload_value p) = sort_keys (payload_value p') \<or>
     sha_collision (deterministic_json (payload_value p)) (deterministic_json (payload_value p')))"
proof -
  have "signature_ok C env p" "signature_ok C env' p'"
    using assms(1,2) verify_auth_envelope_iff by blast+
  then have "deterministic_json (PDict (signed_dict env p)) = deterministic_json (PDict (signed_dict env' p'))"
    using assms(3-5) by metis
  from signed_text_binds [OF this assms(6-9)] show ?thesis by blast
qed

text \<open>A curve on which signatures verify for one message only.\<close>

definition single_crypto :: "string \<Rightarrow> crypto" where
  "single_crypto m = sample_crypto\<lparr>ec_verify := (\<lambda>_ _ _ _ m'. m' = m)\<rparr>"

definition sample_env :: envelope where
  "sample_env = dict_set ''signature'' (PStr (hex (to_bytes_big 32 1) @ hex (to_bytes_big 32 1)))
     (unsigned_envelope sample_ctx (PDec 1730000000123 2) ''ab'')"

lemma sample_env_admissible:
  "admissible (single_crypto m) sample_ctx 1730000010 300 sample_env"
  unfolding sample_env_def
proof (rule unsigned_admissible)
  show "is_valid_public_key (single_crypto m) (PStr (ident_public_key_hex (ctx_identity sample_ctx)))"
    by (simp add: is_valid_public_key_def single_crypto_def sample_ctx_def AuthContext_def
        P2PIdentity_generate_def sample_crypto_def del: to_bytes_big.simps)
  show "py_float (PDec 1730000000123 2) = Inr (Finite (1730000000123 / 1000))" by simp
  show "\<not> stale 1730000010 300 (Finite (1730000000123 / 1000))" by simp
qed simp_all

lemma sample_env_signature:
  "verify_identity_signature (single_crypto m) (env_get sample_env ''public_key'') m' (env_get sample_env ''signature'')
     \<longleftrightarrow> m' = m"
  by (simp add: verify_identity_signature_def sample_env_def env_get_def unsigned_envelope_def single_crypto_def
      sample_ctx_def AuthContext_def P2PIdentity_generate_def sample_crypto_def ORDER_def Let_def
      del: to_bytes_big.simps)

lemma sample_env_accepted:
  "verify_auth_envelope (single_crypto (deterministic_json (PDict (signed_dict sample_env p)))) (PDict sample_env) p
     sample_ctx 1730000010 300 (ReplayCache 2) = (Inr Valid, bs_add (env_key sample_env) (ReplayCache 2))"
  using sample_env_signature
  by (simp add: verify_admissible [OF sample_env_admissible] ReplayCache_def BoundedSet_def bs_contains_def)

lemma sample_env_wf: "wf_pyval (PDict sample_env)"
  by (simp add: sample_env_def unsigned_envelope_def)

theorem accepted_envelope_binds_witness:
  "sort_keys (payload_value None) = sort_keys (payload_value (Some [])) \<or>
   sha_collision (deterministic_json (payload_value None)) (deterministic_json (payload_value (Some [])))"
proof (rule accepted_envelope_binds [THEN conjunct2])
  let ?C = "single_crypto (deterministic_json (PDict (signed_dict sample_env None)))"
  show "fst (verify_auth_envelope ?C (PDict sample_env) None sample_ctx 1730000010 300 (ReplayCache 2)) = Inr Valid"
    by (simp add: sample_env_accepted)
  have "signed_dict sample_env (Some []) = signed_dict sample_env None"
    by (simp add: signed_dict_def payload_digest_def)
  then show "fst (verify_auth_envelope ?C (PDict sample_env) (Some []) sample_ctx 1730000010 300 (ReplayCache 2)) = Inr Valid"
    using sample_env_accepted [of "Some []"] by simp
qed (simp_all add: sample_env_signature sample_env_wf del: wf_pyval.simps(3), simp_all)

text \<open>C19: an accepted request is not accepted again while the cache remembers it: after an envelope
  was accepted and fewer than \<open>max_size\<close> further requests of any kind were processed, the same
  nonce of the same node is refused, with whatever payload, signature and clock it comes.\<close>
theorem accepted_envelope_not_replayed:
  assumes "verify_auth_envelope C (PDict env) p ctx now w cache = (Inr Valid, cache')"
    and "bs_invar cache" "0 < max_size cache" "int (length reqs) < max_size cache"
    and "env_get env' ''node_id'' = env_get env ''node_id''" "env_get env' ''nonce'' = env_get env ''nonce''"
  shows "fst (verify_auth_envelope C' (PDict env') p' ctx' now' w' (process C ctx w reqs cache')) \<noteq> Inr Valid"
proof -
  have acc: "admissible C ctx now w env" "\<not> bs_contains (env_key env) cache"
    using verify_auth_envelope_iff [of C env p ctx now w cache] assms(1) by simp_all
  then have cache': "cache' = bs_add (env_key env) cache"
    using assms(1) verify_admissible by fastforce
  obtain ys where ys: "length ys \<le> length reqs" "process C ctx w reqs cache' = fold bs_add ys cache'"
    using process_adds by blast
  have "bs_contains (env_key env) (process C ctx w reqs cache')"
    unfolding ys(2) unfolding cache' by (rule bs_remembers) (use assms(2-4) ys(1) in auto)
  moreover have "env_key env' = env_key env" using assms(5,6) by (simp add: env_key_def)
  ultimately show ?thesis by (simp add: verify_auth_envelope_iff)
qed

theorem accepted_envelope_not_replayed_witness:
  "fst (verify_auth_envelope sample_crypto (PDict sample_env) None sample_ctx 1730000020 300
     (process (single_crypto (deterministic_json (PDict (signed_dict sample_env None)))) sample_ctx 300
       [(PNone, None, 1730000011)] (bs_add (env_key sample_env) (ReplayCache 2)))) \<noteq> Inr Valid"
  by (rule accepted_envelope_not_replayed [OF sample_env_accepted])
    (simp_all add: ReplayCache_def BoundedSet_def bs_invar_def)

text \<open>The envelope with another nonce and no signature.\<close>

definition forge_nonce :: "string \<Rightarrow> envelope \<Rightarrow> envelope" where
  "forge_nonce n env = dict_set ''signature'' (PStr []) (dict_set ''nonce'' (PStr n) env)"

lemma forge_nonce_admissible:
  assumes "admissible C ctx now w env" "n \<noteq> []"
  shows "admissible C ctx now w (forge_nonce n env)"
proof -
  have same: "env_get (forge_nonce n env) ''protocol_name'' = env_get env ''protocol_name''"
    "env_get (forge_nonce n env) ''protocol_version'' = env_get env ''protocol_version''"
    "env_get (forge_nonce n env) ''network_name'' = env_get env ''network_name''"
    "env_get (forge_nonce n env) ''genesis_hash'' = env_get env ''genesis_hash''"
    "env_get (forge_nonce n env) ''public_key'' = env_get env ''public_key''"
    "env_get (forge_nonce n env) ''node_id'' = env_get env ''node_id''"
    by (simp_all add: forge_nonce_def env_get_set)
  have "check_network_identity C ctx (forge_nonce n env) = check_network_identity C ctx env"
    unfolding check_network_identity_def same by (rule refl)
  with assms show ?thesis
    by (auto simp: admissible_def forge_nonce_def env_get_set missing_fields_none)
qed

lemma env_key_forge: "env_key (forge_nonce n env) = replay_key (str_of (env_get env ''node_id'')) n"
  by (simp add: env_key_def forge_nonce_def env_get_set)

text \<open>The nonce is recorded before the signature is checked, so anybody can empty the replay
  cache: repeat a captured envelope with \<open>max_size\<close> new nonces and no signature.  Each of these is
  refused, and afterwards the captured envelope is accepted a second time within its window.\<close>
theorem forged_flood_reopens_replay:
  assumes "verify_auth_envelope C (PDict env) p ctx now w cache = (Inr Valid, cache')"
    and "bs_invar cache" "0 < max_size cache"
    and "distinct ns" "max_size cache \<le> int (length ns)"
    and "\<forall>n \<in> set ns. n \<noteq> [] \<and> \<not> bs_contains (replay_key (str_of (env_get env ''node_id'')) n) cache'"
  shows "(\<forall>n c. fst (verify_auth_envelope C (PDict (forge_nonce n env)) p ctx now w c) \<noteq> Inr Valid) \<and>
    fst (verify_auth_envelope C (PDict env) p ctx now w
      (process C ctx w (map (\<lambda>n. (PDict (forge_nonce n env), p, now)) ns) cache')) = Inr Valid"
proof
  show "\<forall>n c. fst (verify_auth_envelope C (PDict (forge_nonce n env)) p ctx now w c) \<noteq> Inr Valid"
    by (simp add: verify_auth_envelope_iff forge_nonce_def env_get_set empty_signature_rejected)
  have acc: "admissible C ctx now w env" "\<not> bs_contains (env_key env) cache" "signature_ok C env p"
    using verify_auth_envelope_iff [of C env p ctx now w cache] assms(1) by simp_all
  then have cache': "cache' = bs_add (env_key env) cache"
    using assms(1) verify_admissible by fastforce
  let ?qs = "map (\<lambda>n. (forge_nonce n env, p, now)) ns"
  let ?ks = "map (replay_key (str_of (env_get env ''node_id''))) ns"
  have ks: "map (env_key \<circ> fst) ?qs = ?ks" by (simp add: env_key_forge)
  have inj: "inj (replay_key x)" for x by (simp add: inj_def replay_key_def)
  have d: "distinct (order cache' @ ?ks)"
    using assms(4,6) bs_add_invar [OF assms(2), of "env_key env"]
    by (auto simp: cache' bs_invar_def bs_contains_def distinct_map inj_on_subset [OF inj])
  have proc: "process C ctx w (map (\<lambda>n. (PDict (forge_nonce n env), p, now)) ns) cache' = fold bs_add ?ks cache'"
  proof -
    have "\<forall>(e, q, t) \<in> set ?qs. admissible C ctx t w e"
      using forge_nonce_admissible [OF acc(1)] assms(6) by auto
    from process_admissible [OF this, unfolded ks, OF d] show ?thesis by (simp add: comp_def)
  qed
  have "bs_contains (env_key env) cache'"
    using bset.contains_add [OF assms(3,2)] by (simp add: cache')
  then have "env_key env \<notin> set ?ks" using assms(6) by auto
  then have "\<not> bs_contains (env_key env) (fold bs_add ?ks cache')"
    using bs_forgets [OF d] assms(3,5) bs_add_invar [OF assms(2)] by (simp add: cache')
  then show "fst (verify_auth_envelope C (PDict env) p ctx now w
      (process C ctx w (map (\<lambda>n. (PDict (forge_nonce n env), p, now)) ns) cache')) = Inr Valid"
    using acc proc by (simp add: verify_auth_envelope_iff)
qed

theorem forged_flood_reopens_replay_witness:
  "fst (verify_auth_envelope (single_crypto (deterministic_json (PDict (signed_dict sample_env None))))
     (PDict sample_env) None sample_ctx 1730000010 300
     (process (single_crypto (deterministic_json (PDict (signed_dict sample_env None)))) sample_ctx 300
       (map (\<lambda>n. (PDict (forge_nonce n sample_env), None, 1730000010)) [''x'', ''y''])
       (bs_add (env_key sample_env) (ReplayCache 2)))) = Inr Valid"
proof (rule forged_flood_reopens_replay [OF sample_env_accepted, THEN conjunct2])
  show "\<forall>n \<in> set [''x'', ''y'']. n \<noteq> [] \<and>
      \<not> bs_contains (replay_key (str_of (env_get sample_env ''node_id'')) n) (bs_add (env_key sample_env) (ReplayCache 2))"
    by (simp add: env_key_def sample_env_def env_get_def unsigned_envelope_def replay_key_def bs_contains_def
        bs_add_def ReplayCache_def BoundedSet_def)
qed (simp_all add: ReplayCache_def BoundedSet_def bs_invar_def)

text \<open>a timestamp that is not a number passes the freshness check at every time: the verdict on
  an envelope whose timestamp is the text \<open>nan\<close> does not depend on the clock or the window.\<close>
theorem nan_timestamp_never_expires:
  assumes "env_get env ''timestamp'' = PStr ''nan''"
  shows "verify_auth_envelope C (PDict env) p ctx now w cache = verify_auth_envelope C (PDict env) p ctx now' w' cache"
  unfolding verify_auth_envelope_def pyval.case assms py_float_nan sum.case stale.simps if_False by (rule refl)

theorem nan_timestamp_never_expires_witness:
  "verify_auth_envelope sample_crypto (PDict (dict_set ''timestamp'' (PStr ''nan'') sample_env)) None sample_ctx 0 300 (ReplayCache 2) =
   verify_auth_envelope sample_crypto (PDict (dict_set ''timestamp'' (PStr ''nan'') sample_env)) None sample_ctx (10 ^ 12) 300 (ReplayCache 2)"
  by (rule nan_timestamp_never_expires) (simp add: env_get_set)

end
