(* ===== verification/Url.thy ===== *)
theory Url
  imports Settings
begin

text \<open>
  What the address checks use of Python's \<open>ipaddress\<close> and \<open>urllib.parse\<close>: literal IPv4 and IPv6
  addresses with their special ranges, and \<open>urlparse\<close> with its \<open>hostname\<close>, \<open>username\<close>, \<open>password\<close>
  and \<open>port\<close> attributes.  \<open>None\<close> stands for the \<open>ValueError\<close> these raise.
\<close>

section \<open>Splitting text\<close>

text \<open>\<open>s.partition(c)\<close> and \<open>s.rpartition(c)\<close>: the text before and after the separator, if any.\<close>

definition partition_at :: "char \<Rightarrow> string \<Rightarrow> string \<times> bool \<times> string" where
  "partition_at c s =
     (takeWhile (\<lambda>x. x \<noteq> c) s, c \<in> set s, drop 1 (dropWhile (\<lambda>x. x \<noteq> c) s))"

definition rpartition_at :: "char \<Rightarrow> string \<Rightarrow> string \<times> bool \<times> string" where
  "rpartition_at c s =
     (if c \<in> set s
      then (rev (drop 1 (dropWhile (\<lambda>x. x \<noteq> c) (rev s))), True, rev (takeWhile (\<lambda>x. x \<noteq> c) (rev s)))
      else ([], False, s))"

section \<open>\<open>ipaddress\<close>\<close>

definition parse_octet :: "string \<Rightarrow> int option" where
  "parse_octet s =
     (if s = [] \<or> \<not> list_all is_digit s \<or> 3 < length s \<or> (s \<noteq> ''0'' \<and> hd s = CHR ''0'') then None
      else if digits_val s > 255 then None
      else Some (digits_val s))"

definition ipv4_of_string :: "string \<Rightarrow> int option" where
  "ipv4_of_string s =
     (if CHR ''/'' \<in> set s then None
      else case map parse_octet (split_on (CHR ''.'') s) of
             [Some a, Some b, Some c, Some d] \<Rightarrow> Some (((a * 256 + b) * 256 + c) * 256 + d)
           | _ \<Rightarrow> None)"

text \<open>A part of an IPv6 text is its characters, or the value of half of an IPv4 suffix.\<close>

fun parse_hextet :: "string + int \<Rightarrow> int option" where
  "parse_hextet (Inr n) = Some n"
| "parse_hextet (Inl s) =
     (if s = [] \<or> 4 < length s \<or> list_ex (\<lambda>c. hex_val c = None) s then None else hex_digits 0 s)"

fun hextets_val :: "int \<Rightarrow> (string + int) list \<Rightarrow> int option" where
  "hextets_val acc [] = Some acc"
| "hextets_val acc (p # ps) =
     (case parse_hextet p of None \<Rightarrow> None | Some n \<Rightarrow> hextets_val (acc * 65536 + n) ps)"

definition ipv6_parts :: "string \<Rightarrow> (string + int) list option" where
  "ipv6_parts s =
     (let parts = split_on (CHR '':'') s
      in if length parts < 3 then None
         else if CHR ''.'' \<in> set (last parts)
         then (case ipv4_of_string (last parts) of
                 None \<Rightarrow> None
               | Some v \<Rightarrow> Some (map Inl (butlast parts) @ [Inr (v div 65536), Inr (v mod 65536)]))
         else Some (map Inl parts))"

definition ipv6_value :: "(string + int) list \<Rightarrow> int option" where
  "ipv6_value parts =
     (let n = length parts;
          blank = (\<lambda>i. parts ! i = Inl []);
          skips = filter blank [1..<n - 1]
      in if 9 < n \<or> 1 < length skips then None
         else case skips of
           [] \<Rightarrow> if n \<noteq> 8 \<or> blank 0 \<or> blank (n - 1) then None else hextets_val 0 parts
         | k # _ \<Rightarrow>
             let hi = (if blank 0 then k - 1 else k);
                 lo = (if blank (n - 1) then n - k - 2 else n - k - 1)
             in if (blank 0 \<and> 0 < hi) \<or> (blank (n - 1) \<and> 0 < lo) \<or> 8 < hi + lo + 1 then None
                else case hextets_val 0 (take hi parts) of
                       None \<Rightarrow> None
                     | Some v \<Rightarrow> hextets_val (v * 65536 ^ (8 - (hi + lo))) (drop (n - lo) parts))"

definition ipv6_of_string :: "string \<Rightarrow> int option" where
  "ipv6_of_string s =
     (case partition_at (CHR ''%'') s of
        (addr, sep, scope) \<Rightarrow>
          if CHR ''/'' \<in> set s \<or> (sep \<and> (scope = [] \<or> CHR ''%'' \<in> set scope)) \<or> addr = [] then None
          else case ipv6_parts addr of None \<Rightarrow> None | Some parts \<Rightarrow> ipv6_value parts)"

datatype ip_address = IPv4 int | IPv6 int

definition ip_address :: "string \<Rightarrow> ip_address option" where
  "ip_address s =
     (case ipv4_of_string s of
        Some v \<Rightarrow> Some (IPv4 v)
      | None \<Rightarrow> map_option IPv6 (ipv6_of_string s))"

subsection \<open>Ranges\<close>

text \<open>A network is its first address and its prefix length.\<close>

definition in_net :: "nat \<Rightarrow> int \<Rightarrow> int \<times> nat \<Rightarrow> bool" where
  "in_net bits ip net \<longleftrightarrow> (case net of (base, p) \<Rightarrow> ip div 2 ^ (bits - p) = base div 2 ^ (bits - p))"

definition quad :: "int \<Rightarrow> int \<Rightarrow> int \<Rightarrow> int \<Rightarrow> int" where
  "quad a b c d = ((a * 256 + b) * 256 + c) * 256 + d"

definition v4_private :: "(int \<times> nat) list" where
  "v4_private =
     [(quad 0 0 0 0, 8), (quad 10 0 0 0, 8), (quad 127 0 0 0, 8), (quad 169 254 0 0, 16),
      (quad 172 16 0 0, 12), (quad 192 0 0 0, 24), (quad 192 0 0 170, 31), (quad 192 0 2 0, 24),
      (quad 192 168 0 0, 16), (quad 198 18 0 0, 15), (quad 198 51 100 0, 24), (quad 203 0 113 0, 24),
      (quad 240 0 0 0, 4), (quad 255 255 255 255, 32)]"

definition v4_private_exceptions :: "(int \<times> nat) list" where
  "v4_private_exceptions = [(quad 192 0 0 9, 32), (quad 192 0 0 10, 32)]"

definition v4_is_private :: "int \<Rightarrow> bool" where
  "v4_is_private ip \<longleftrightarrow> list_ex (in_net 32 ip) v4_private \<and> \<not> list_ex (in_net 32 ip) v4_private_exceptions"

text \<open>A network of which only the upper two hextets are not zero.\<close>

definition v6_net :: "int \<Rightarrow> int \<Rightarrow> nat \<Rightarrow> int \<times> nat" where
  "v6_net a b p = ((a * 65536 + b) * 2 ^ 96, p)"

definition v6_private :: "(int \<times> nat) list" where
  "v6_private =
     [(1, 128), (0, 128), (0xFFFF * 2 ^ 32, 96), (0x64FF9B0001 * 2 ^ 80, 48), v6_net 0x100 0 64,
      v6_net 0x2001 0 23, v6_net 0x2001 0xDB8 32, v6_net 0x2002 0 16, v6_net 0xFC00 0 7, v6_net 0xFE80 0 10]"

definition v6_private_exceptions :: "(int \<times> nat) list" where
  "v6_private_exceptions =
     [(0x20010001 * 2 ^ 96 + 1, 128), (0x20010001 * 2 ^ 96 + 2, 128), v6_net 0x2001 3 32,
      (0x200100040112 * 2 ^ 80, 48), v6_net 0x2001 0x20 28, v6_net 0x2001 0x30 28]"

definition v6_reserved :: "(int \<times> nat) list" where
  "v6_reserved =
     [v6_net 0 0 8, v6_net 0x100 0 8, v6_net 0x200 0 7, v6_net 0x400 0 6, v6_net 0x800 0 5,
      v6_net 0x1000 0 4, v6_net 0x4000 0 3, v6_net 0x6000 0 3, v6_net 0x8000 0 3, v6_net 0xA000 0 3,
      v6_net 0xC000 0 3, v6_net 0xE000 0 4, v6_net 0xF000 0 5, v6_net 0xF800 0 6, v6_net 0xFE00 0 9]"

fun is_loopback :: "ip_address \<Rightarrow> bool" where
  "is_loopback (IPv4 ip) = in_net 32 ip (quad 127 0 0 0, 8)"
| "is_loopback (IPv6 ip) = (ip = 1)"

fun is_private :: "ip_address \<Rightarrow> bool" where
  "is_private (IPv4 ip) = v4_is_private ip"
| "is_private (IPv6 ip) =
     (if ip div 2 ^ 32 = 0xFFFF then v4_is_private (ip mod 2 ^ 32)
      else list_ex (in_net 128 ip) v6_private \<and> \<not> list_ex (in_net 128 ip) v6_private_exceptions)"

fun is_link_local :: "ip_address \<Rightarrow> bool" where
  "is_link_local (IPv4 ip) = in_net 32 ip (quad 169 254 0 0, 16)"
| "is_link_local (IPv6 ip) = in_net 128 ip (v6_net 0xFE80 0 10)"

fun is_reserved :: "ip_address \<Rightarrow> bool" where
  "is_reserved (IPv4 ip) = in_net 32 ip (quad 240 0 0 0, 4)"
| "is_reserved (IPv6 ip) = list_ex (in_net 128 ip) v6_reserved"

fun is_multicast :: "ip_address \<Rightarrow> bool" where
  "is_multicast (IPv4 ip) = in_net 32 ip (quad 224 0 0 0, 4)"
| "is_multicast (IPv6 ip) = in_net 128 ip (v6_net 0xFF00 0 8)"

fun is_unspecified :: "ip_address \<Rightarrow> bool" where
  "is_unspecified (IPv4 ip) = (ip = 0)"
| "is_unspecified (IPv6 ip) = (ip = 0)"

section \<open>\<open>urllib.parse\<close>\<close>

definition is_ascii_alpha :: "char \<Rightarrow> bool" where
  "is_ascii_alpha c \<longleftrightarrow> (let n = code_point c in (65 \<le> n \<and> n \<le> 90) \<or> (97 \<le> n \<and> n \<le> 122))"

definition scheme_char :: "char \<Rightarrow> bool" where
  "scheme_char c \<longleftrightarrow>
     is_ascii_alpha c \<or> is_digit c \<or> c = CHR ''+'' \<or> c = CHR ''-'' \<or> c = CHR ''.''"

record url =
  u_scheme :: string
  u_netloc :: string
  u_path :: string
  u_query :: string
  u_fragment :: string

text \<open>The text before the first colon is the scheme if it looks like one.\<close>

definition split_scheme :: "string \<Rightarrow> string \<times> string" where
  "split_scheme u =
     (case partition_at (CHR '':'') u of
        (s, found, rest) \<Rightarrow>
          if found \<and> s \<noteq> [] \<and> is_ascii_alpha (hd s) \<and> list_all scheme_char s then (lower s, rest)
          else ([], u))"

definition split_netloc :: "string \<Rightarrow> string \<times> string" where
  "split_netloc u =
     (if startswith ''//'' u
      then (takeWhile (\<lambda>c. c \<notin> {CHR ''/'', CHR ''?'', CHR ''#''}) (drop 2 u),
            dropWhile (\<lambda>c. c \<notin> {CHR ''/'', CHR ''?'', CHR ''#''}) (drop 2 u))
      else ([], u))"

text \<open>A host in brackets is an IPv6 address or an IPvFuture literal.\<close>

definition bracketed_host_ok :: "string \<Rightarrow> bool" where
  "bracketed_host_ok h =
     (if startswith ''v'' h
      then (case partition_at (CHR ''.'') (tl h) of
              (v, dot, rest) \<Rightarrow> dot \<and> v \<noteq> [] \<and> list_all (\<lambda>c. hex_val c \<noteq> None) v \<and> rest \<noteq> [])
      else (case ip_address h of Some (IPv6 _) \<Rightarrow> True | _ \<Rightarrow> False))"

definition netloc_ok :: "string \<Rightarrow> bool" where
  "netloc_ok netloc \<longleftrightarrow>
     (CHR ''['' \<in> set netloc \<longleftrightarrow> CHR '']'' \<in> set netloc) \<and>
     (CHR ''['' \<in> set netloc \<longrightarrow>
        bracketed_host_ok (takeWhile (\<lambda>c. c \<noteq> CHR '']'') (snd (snd (partition_at (CHR ''['') netloc)))))"

definition uses_params :: "string list" where
  "uses_params =
     [[], ''ftp'', ''hdl'', ''prospero'', ''http'', ''imap'', ''https'', ''shttp'', ''rtsp'', ''rtsps'',
      ''rtspu'', ''sip'', ''sips'', ''mms'', ''sftp'', ''tel'']"

text \<open>\<open>_splitparams\<close>: a semicolon in the last path segment starts the parameters.\<close>

definition split_params :: "string \<Rightarrow> string" where
  "split_params path =
     (case rpartition_at (CHR ''/'') path of
        (before, found, seg) \<Rightarrow>
          (if found then before @ ''/'' else []) @ takeWhile (\<lambda>c. c \<noteq> CHR '';'') seg)"

definition urlparse :: "string \<Rightarrow> url option" where
  "urlparse addr =
     (let u = filter (\<lambda>c. c \<notin> {CHR 0x09, CHR 0x0A, CHR 0x0D}) (dropWhile (\<lambda>c. code_point c \<le> 32) addr);
          (scheme, u1) = split_scheme u;
          (netloc, u2) = split_netloc u1
      in if \<not> netloc_ok netloc then None
         else
           let (u3, _, fragment) = partition_at (CHR ''#'') u2;
               (path, _, query) = partition_at (CHR ''?'') u3
           in Some \<lparr>u_scheme = scheme, u_netloc = netloc,
                    u_path = (if scheme \<in> set uses_params then split_params path else path),
                    u_query = query, u_fragment = fragment\<rparr>)"

text \<open>\<open>username is not None or password is not None\<close>.\<close>

definition has_userinfo :: "url \<Rightarrow> bool" where
  "has_userinfo u \<longleftrightarrow> CHR ''@'' \<in> set (u_netloc u)"

definition hostinfo :: "url \<Rightarrow> string \<times> string" where
  "hostinfo u =
     (case rpartition_at (CHR ''@'') (u_netloc u) of
        (_, _, hi) \<Rightarrow>
          (case partition_at (CHR ''['') hi of
             (_, True, bracketed) \<Rightarrow>
               (case partition_at (CHR '']'') bracketed of
                  (host, _, rest) \<Rightarrow> (host, snd (snd (partition_at (CHR '':'') rest))))
           | (_, False, _) \<Rightarrow>
               (case partition_at (CHR '':'') hi of (host, _, port) \<Rightarrow> (host, port))))"

text \<open>\<open>hostname\<close>: \<open>None\<close> when empty; a zone after a percent sign keeps its case.\<close>

definition hostname :: "url \<Rightarrow> string" where
  "hostname u =
     (case partition_at (CHR ''%'') (fst (hostinfo u)) of
        (h, pct, zone) \<Rightarrow> lower h @ (if pct then ''%'' else []) @ zone)"

text \<open>\<open>port\<close> raises for a text that is not a number or a number above 65535.\<close>

definition port :: "url \<Rightarrow> int option result" where
  "port u =
     (let p = snd (hostinfo u)
      in if p = [] then Inr None
         else if \<not> list_all is_digit p \<or> digits_val p > 65535 then Inl ValueError
         else Inr (Some (digits_val p)))"

end
