(* ===== verification/Address_Security.thy ===== *)
theory Address_Security
  imports Url
begin

text \<open>
  \<open>blockchain/network/address_security.py\<close>: the check every outbound address goes through.  The
  name service (\<open>socket.getaddrinfo\<close>) is the argument \<open>dns\<close>: the addresses of a host name, or
  \<open>None\<close> for \<open>gaierror\<close>.
\<close>

type_synonym dns = "string \<Rightarrow> string list option"

datatype address_reason =
    AddressEmpty
  | AddressTooLong
  | AddressMalformed
  | UnsupportedScheme string
  | CredentialsEmbedded
  | NoHostname
  | HasPath
  | HasQueryOrFragment
  | InvalidPort int
  | Unresolvable string
  | ResolvedNotIP string
  | NonPublicRange ip_address

definition VALID_SCHEMES :: "string list" where
  "VALID_SCHEMES = [''http'', ''https'']"

definition MAX_ADDRESS_LENGTH :: nat where
  "MAX_ADDRESS_LENGTH = 256"

definition is_disallowed_ip :: "ip_address \<Rightarrow> bool" where
  "is_disallowed_ip ip \<longleftrightarrow>
     is_loopback ip \<or> is_private ip \<or> is_link_local ip \<or> is_reserved ip \<or> is_multicast ip \<or>
     is_unspecified ip"

definition resolve_hostname_ips :: "dns \<Rightarrow> string \<Rightarrow> string list" where
  "resolve_hostname_ips dns host =
     (case dns host of None \<Rightarrow> [] | Some infos \<Rightarrow> sort (remdups infos))"

text \<open>The part of the check for \<open>allow_private_addresses = False\<close>.\<close>

definition candidate_ips :: "dns \<Rightarrow> string \<Rightarrow> address_reason + ip_address list" where
  "candidate_ips dns host =
     (case ip_address host of
        Some ip \<Rightarrow> Inr [ip]
      | None \<Rightarrow>
          let resolved = resolve_hostname_ips dns host
          in if resolved = [] then Inl (Unresolvable host)
             else if list_ex (\<lambda>a. ip_address a = None) resolved then Inl (ResolvedNotIP host)
             else Inr (map (\<lambda>a. the (ip_address a)) resolved))"

definition validate_peer_address :: "dns \<Rightarrow> pyval \<Rightarrow> bool \<Rightarrow> address_reason verdict result" where
  "validate_peer_address dns address_arg allow_private =
     (case address_arg of
        PStr a \<Rightarrow>
          if a = [] then Inr (Invalid AddressEmpty)
          else if length a > MAX_ADDRESS_LENGTH then Inr (Invalid AddressTooLong)
          else (case urlparse a of
            None \<Rightarrow> Inr (Invalid AddressMalformed)
          | Some u \<Rightarrow>
              if lower (u_scheme u) \<notin> set VALID_SCHEMES then Inr (Invalid (UnsupportedScheme (u_scheme u)))
              else if has_userinfo u then Inr (Invalid CredentialsEmbedded)
              else if hostname u = [] then Inr (Invalid NoHostname)
              else if u_path u \<noteq> [] \<and> u_path u \<noteq> ''/'' then Inr (Invalid HasPath)
              else if u_query u \<noteq> [] \<or> u_fragment u \<noteq> [] then Inr (Invalid HasQueryOrFragment)
              else (case port u of
                Inl e \<Rightarrow> Inl e
              | Inr p \<Rightarrow>
                  if p \<noteq> None \<and> \<not> (1 \<le> the p \<and> the p \<le> 65535) then Inr (Invalid (InvalidPort (the p)))
                  else if allow_private then Inr Valid
                  else (case candidate_ips dns (hostname u) of
                    Inl r \<Rightarrow> Inr (Invalid r)
                  | Inr ips \<Rightarrow>
                      (case filter is_disallowed_ip ips of
                         [] \<Rightarrow> Inr Valid
                       | ip # _ \<Rightarrow> Inr (Invalid (NonPublicRange ip))))))
      | _ \<Rightarrow> Inr (Invalid AddressEmpty))"

section \<open>What passes\<close>

text \<open>The addresses a host name stands for: itself if it is one, otherwise what the name service
  returns.\<close>

definition denotes :: "dns \<Rightarrow> string \<Rightarrow> ip_address \<Rightarrow> bool" where
  "denotes dns host ip \<longleftrightarrow>
     (case ip_address host of
        Some i \<Rightarrow> i = ip
      | None \<Rightarrow> (\<exists>as a. dns host = Some as \<and> a \<in> set as \<and> ip_address a = Some ip))"

lemma candidate_ips_denotes:
  assumes "candidate_ips dns host = Inr ips"
  shows "set ips = {ip. denotes dns host ip} \<and> ips \<noteq> []"
proof (cases "ip_address host")
  case None
  let ?r = "resolve_hostname_ips dns host"
  have r: "?r \<noteq> []" "\<forall>a \<in> set ?r. ip_address a \<noteq> None" "ips = map (\<lambda>a. the (ip_address a)) ?r"
    using assms None by (auto simp: candidate_ips_def Let_def list_ex_iff split: if_splits)
  then obtain infos where infos: "dns host = Some infos"
    by (auto simp: resolve_hostname_ips_def split: option.splits)
  then have set_r: "set ?r = set infos" by (simp add: resolve_hostname_ips_def)
  have "set ips = {ip. denotes dns host ip}"
    using r(2) unfolding r(3) set_map set_r denotes_def None option.case by (force simp: infos)
  then show ?thesis using r(1,3) by simp
next
  case (Some ip)
  then show ?thesis using assms by (auto simp: candidate_ips_def denotes_def)
qed

lemma validate_peer_addressD:
  assumes "validate_peer_address dns (PStr a) allow = Inr Valid"
  shows "\<exists>u p. urlparse a = Some u \<and> length a \<le> 256 \<and> lower (u_scheme u) \<in> {''http'', ''https''} \<and>
    \<not> has_userinfo u \<and> hostname u \<noteq> [] \<and> u_path u \<in> {[], ''/''} \<and> u_query u = [] \<and> u_fragment u = [] \<and>
    port u = Inr p \<and> (\<forall>n. p = Some n \<longrightarrow> 1 \<le> n \<and> n \<le> 65535) \<and>
    (\<not> allow \<longrightarrow> (\<exists>ip. denotes dns (hostname u) ip) \<and> (\<forall>ip. denotes dns (hostname u) ip \<longrightarrow> \<not> is_disallowed_ip ip))"
proof -
  from assms obtain u p where u: "urlparse a = Some u" "length a \<le> 256" "lower (u_scheme u) \<in> set VALID_SCHEMES"
      "\<not> has_userinfo u" "hostname u \<noteq> []" "u_path u = [] \<or> u_path u = ''/''" "u_query u = []" "u_fragment u = []"
      "port u = Inr p" "p = None \<or> (1 \<le> the p \<and> the p \<le> 65535)"
    and rest: "allow \<or> (\<exists>ips. candidate_ips dns (hostname u) = Inr ips \<and> filter is_disallowed_ip ips = [])"
    by (auto simp: validate_peer_address_def MAX_ADDRESS_LENGTH_def split: if_splits option.splits sum.splits list.splits)
  have "(\<exists>ip. denotes dns (hostname u) ip) \<and> (\<forall>ip. denotes dns (hostname u) ip \<longrightarrow> \<not> is_disallowed_ip ip)" if "\<not> allow"
  proof -
    obtain ips where ips: "candidate_ips dns (hostname u) = Inr ips" "filter is_disallowed_ip ips = []"
      using rest \<open>\<not> allow\<close> by blast
    from candidate_ips_denotes [OF ips(1)] ips(2) show ?thesis
      by (auto simp: filter_empty_conv) (metis last_in_set mem_Collect_eq)
  qed
  with u show ?thesis by (auto simp: VALID_SCHEMES_def)
qed

text \<open>The familiar ranges, octet by octet.\<close>

definition public_octets :: "int \<Rightarrow> int \<Rightarrow> bool" where
  "public_octets a b \<longleftrightarrow>
     a \<noteq> 0 \<and> a \<noteq> 10 \<and> a \<noteq> 127 \<and> \<not> (a = 169 \<and> b = 254) \<and> \<not> (a = 172 \<and> 16 \<le> b \<and> b \<le> 31) \<and>
     \<not> (a = 192 \<and> b = 168) \<and> a < 224"

lemma quad_div:
  assumes "0 \<le> b" "b < 256" "0 \<le> c" "c < 256" "0 \<le> d" "d < 256"
  shows "quad a b c d div 16777216 = a" "quad a b c d div 65536 = a * 256 + b"
    "quad a b c d div 1048576 = a * 16 + b div 16" "quad a b c d div 268435456 = a div 16"
  using assms by (simp_all add: quad_def)

lemma not_exception:
  assumes "0 \<le> b" "b < 256" "0 \<le> c" "c < 256" "0 \<le> d" "d < 256" "a \<noteq> 192 \<or> b \<noteq> 0"
  shows "\<not> list_ex (in_net 32 (quad a b c d)) v4_private_exceptions"
proof -
  have "quad a b c d \<noteq> n" if "n div 65536 = 49152" for n
  proof
    assume "quad a b c d = n"
    then have "a * 256 + b = 49152" using that quad_div(2) [OF assms(1-6), of a] by simp
    then have "a = 192 \<and> b = 0" using assms(1,2) by presburger
    with assms(7) show False by simp
  qed
  then show ?thesis by (simp add: v4_private_exceptions_def in_net_def quad_def [of 192])
qed

lemma allowed_octets:
  assumes "\<not> is_disallowed_ip (IPv4 (quad a b c d))" "0 \<le> a" "a < 256"
    and bcd: "0 \<le> b" "b < 256" "0 \<le> c" "c < 256" "0 \<le> d" "d < 256"
  shows "public_octets a b"
proof (cases "a = 192 \<and> b = 0")
  case True
  then show ?thesis by (simp add: public_octets_def)
next
  case False
  then have np: "\<not> list_ex (in_net 32 (quad a b c d)) v4_private"
    using assms(1) not_exception [OF bcd] by (auto simp: is_disallowed_ip_def v4_is_private_def)
  have base: "quad 0 0 0 0 = 0" "quad 10 0 0 0 div 16777216 = 10" "quad 127 0 0 0 div 16777216 = 127"
    "quad 169 254 0 0 div 65536 = 169 * 256 + 254" "quad 172 16 0 0 div 1048576 = 172 * 16 + 1"
    "quad 192 168 0 0 div 65536 = 192 * 256 + 168" "quad 240 0 0 0 div 268435456 = 15"
    "quad 224 0 0 0 div 268435456 = 14"
    by (simp_all add: quad_def)
  have "a \<noteq> 0" "a \<noteq> 10" "a \<noteq> 127" "a * 256 + b \<noteq> 169 * 256 + 254" "a * 16 + b div 16 \<noteq> 172 * 16 + 1"
    "a * 256 + b \<noteq> 192 * 256 + 168" "a div 16 \<noteq> 15"
    using np by (auto simp: v4_private_def in_net_def quad_div [OF bcd] base)
  moreover have "a div 16 \<noteq> 14"
    using assms(1) by (simp add: is_disallowed_ip_def in_net_def quad_div [OF bcd] base)
  moreover have "a < 224"
  proof (rule ccontr)
    assume "\<not> a < 224"
    then have "a div 16 = 14 \<or> a div 16 = 15" using assms(3) by presburger
    with calculation show False by blast
  qed
  moreover have "\<not> (a = 172 \<and> 16 \<le> b \<and> b \<le> 31)"
  proof
    assume ab: "a = 172 \<and> 16 \<le> b \<and> b \<le> 31"
    then have "b div 16 = 1" by presburger
    with ab calculation show False by simp
  qed
  ultimately show ?thesis by (auto simp: public_octets_def)
qed

section \<open>Properties\<close>

text \<open>C22: with private addresses disallowed, an address that passes names a host over HTTP or HTTPS,
  without credentials, query or fragment, and every IP address the host stands for or resolves to
  at that moment is outside the loopback, private, link-local, reserved and multicast ranges; an
  IPv4 address lies outside 0/8, 10/8, 127/8, 169.254/16, 172.16/12, 192.168/16 and everything from
  224 up.\<close>
theorem outbound_target_is_public:
  assumes "validate_peer_address dns (PStr addr) False = Inr Valid"
  shows "\<exists>u. urlparse addr = Some u \<and> lower (u_scheme u) \<in> {''http'', ''https''} \<and> \<not> has_userinfo u \<and>
    hostname u \<noteq> [] \<and> u_query u = [] \<and> u_fragment u = [] \<and>
    (\<exists>ip. denotes dns (hostname u) ip) \<and>
    (\<forall>ip. denotes dns (hostname u) ip \<longrightarrow> \<not> is_disallowed_ip ip) \<and>
    (\<forall>a b c d. denotes dns (hostname u) (IPv4 (quad a b c d)) \<and> {a, b, c, d} \<subseteq> {0..255} \<longrightarrow> public_octets a b)"
proof -
  obtain u where u: "urlparse addr = Some u" "lower (u_scheme u) \<in> {''http'', ''https''}" "\<not> has_userinfo u"
    "hostname u \<noteq> []" "u_query u = []" "u_fragment u = []" "\<exists>ip. denotes dns (hostname u) ip"
    "\<forall>ip. denotes dns (hostname u) ip \<longrightarrow> \<not> is_disallowed_ip ip"
    using validate_peer_addressD [OF assms] by blast
  moreover have "public_octets a b"
    if "denotes dns (hostname u) (IPv4 (quad a b c d))" "{a, b, c, d} \<subseteq> {0..255}" for a b c d
    using allowed_octets [of a b c d] u(8) that by simp
  ultimately show ?thesis by blast
qed

lemma sample_public: "validate_peer_address (\<lambda>_. None) (PStr ''http://8.8.8.8:8000'') False = Inr Valid"
  by code_simp

theorem outbound_target_is_public_witness:
  "\<exists>u. urlparse ''http://8.8.8.8:8000'' = Some u \<and> hostname u = ''8.8.8.8'' \<and>
    (\<forall>a b c d. denotes (\<lambda>_. None) (hostname u) (IPv4 (quad a b c d)) \<and> {a, b, c, d} \<subseteq> {0..255} \<longrightarrow> public_octets a b)"
proof -
  have "map_option hostname (urlparse ''http://8.8.8.8:8000'') = Some ''8.8.8.8''" by code_simp
  with outbound_target_is_public [OF sample_public] show ?thesis by auto
qed

text \<open>the port is read outside the \<open>try\<close>: an address whose port is not a number up to 65535 is
  not reported as invalid, the check itself raises \<open>ValueError\<close>.\<close>
theorem bad_port_raises:
  assumes "urlparse a = Some u" "a \<noteq> []" "length a \<le> 256" "lower (u_scheme u) \<in> {''http'', ''https''}"
    and "\<not> has_userinfo u" "hostname u \<noteq> []" "u_path u = []" "u_query u = []" "u_fragment u = []"
    and "port u = Inl ValueError"
  shows "validate_peer_address dns (PStr a) allow = Inl ValueError"
  using assms by (auto simp: validate_peer_address_def MAX_ADDRESS_LENGTH_def VALID_SCHEMES_def)

theorem bad_port_raises_witness:
  "validate_peer_address (\<lambda>_. None) (PStr ''http://h:99999'') True = Inl ValueError"
proof -
  let ?u = "\<lparr>u_scheme = ''http'', u_netloc = ''h:99999'', u_path = [], u_query = [], u_fragment = []\<rparr>"
  have "urlparse ''http://h:99999'' = Some ?u" "hostname ?u \<noteq> []" "port ?u = Inl ValueError" "\<not> has_userinfo ?u"
    "lower ''http'' = ''http''"
    by code_simp+
  then show ?thesis using bad_port_raises [of "''http://h:99999''" ?u] by simp
qed

end
