(* ===== verification/Peer.thy ===== *)
theory Peer
  imports Address_Security Storage
begin

text \<open>
  \<open>blockchain/network/peer.py\<close>: peers and the registry.  The rows are in the node's storage, the
  retry state (failures, back-off, capabilities) in the registry; an operation takes and returns
  both.  The lock is held inside one operation, so an operation is one step.
\<close>

section \<open>Addresses\<close>

definition normalize_address :: "string \<Rightarrow> string" where
  "normalize_address addr = rstrip_char (CHR ''/'') (strip addr)"

definition is_valid_peer_address :: "pyval \<Rightarrow> bool" where
  "is_valid_peer_address v =
     (case v of
        PStr a \<Rightarrow>
          a \<noteq> [] \<and> length a \<le> 256 \<and>
          (case urlparse a of
             None \<Rightarrow> False
           | Some u \<Rightarrow>
               lower (u_scheme u) \<in> set VALID_SCHEMES \<and> hostname u \<noteq> [] \<and>
               (u_path u = [] \<or> u_path u = ''/''))
      | _ \<Rightarrow> False)"

section \<open>State\<close>

record health =
  h_failure_count :: int
  h_backoff_until :: "rat option"
  h_capabilities :: "string list"

definition fresh_health :: health where
  "fresh_health = \<lparr>h_failure_count = 0, h_backoff_until = None, h_capabilities = []\<rparr>"

record peer_registry =
  reg_self_address :: string
  reg_self_node_id :: string
  reg_max_peers :: int
  reg_health :: "(string, health) pydict"

record peer =
  p_address :: string
  p_node_id :: "string option"
  p_status :: string
  p_last_seen :: "rat option"
  p_registered_at :: "rat option"
  p_failure_count :: int
  p_backoff_until :: "rat option"
  p_capabilities :: "string list"

definition peer_from_row :: "string \<Rightarrow> peer_row \<Rightarrow> peer" where
  "peer_from_row addr r =
     \<lparr>p_address = addr, p_node_id = peer_node_id r, p_status = peer_status r, p_last_seen = peer_last_seen r,
      p_registered_at = Some (registered_at r), p_failure_count = 0, p_backoff_until = None,
      p_capabilities = []\<rparr>"

definition PeerRegistry :: "string \<Rightarrow> string \<Rightarrow> int \<Rightarrow> peer_registry" where
  "PeerRegistry self_address self_node_id n =
     \<lparr>reg_self_address = normalize_address self_address, reg_self_node_id = self_node_id,
      reg_max_peers = n, reg_health = []\<rparr>"

datatype register_reason =
    MalformedAddress
  | SelfAddress
  | SelfNodeId
  | PeerLimitReached int

section \<open>Operations\<close>

text \<open>\<open>self._health.setdefault(a, fresh)\<close>.\<close>

definition health_of :: "string \<Rightarrow> peer_registry \<Rightarrow> health" where
  "health_of a reg = dict_get a fresh_health (reg_health reg)"

definition set_health :: "string \<Rightarrow> health \<Rightarrow> peer_registry \<Rightarrow> peer_registry" where
  "set_health a h reg = reg\<lparr>reg_health := dict_set a h (reg_health reg)\<rparr>"

definition register ::
  "rat \<Rightarrow> pyval \<Rightarrow> string option \<Rightarrow> peer_registry \<Rightarrow> storage \<Rightarrow>
   register_reason verdict \<times> peer_registry \<times> storage" where
  "register now addr node_id reg st =
     (if \<not> is_valid_peer_address addr then (Invalid MalformedAddress, reg, st)
      else
        let normalized = (case addr of PStr a \<Rightarrow> normalize_address a | _ \<Rightarrow> [])
        in if normalized = reg_self_address reg then (Invalid SelfAddress, reg, st)
           else if node_id = Some (reg_self_node_id reg) then (Invalid SelfNodeId, reg, st)
           else
             let existing = get_peer normalized st
             in if existing = None \<and> peer_count st \<ge> reg_max_peers reg
                then (Invalid (PeerLimitReached (reg_max_peers reg)), reg, st)
                else
                  (Valid, set_health normalized (health_of normalized reg) reg,
                   upsert_peer now normalized node_id
                     (case existing of None \<Rightarrow> ''unknown'' | Some r \<Rightarrow> peer_status r)
                     (case existing of None \<Rightarrow> None | Some r \<Rightarrow> peer_last_seen r) st))"

definition mark_seen ::
  "rat \<Rightarrow> string \<Rightarrow> string \<Rightarrow> string option \<Rightarrow> peer_registry \<Rightarrow> storage \<Rightarrow> peer_registry \<times> storage" where
  "mark_seen now addr stat node_id reg st =
     (let a = normalize_address addr; h = health_of a reg;
          h' = (if stat = ''online'' then h\<lparr>h_failure_count := 0, h_backoff_until := None\<rparr> else h)
      in (set_health a h' reg, upsert_peer now a node_id stat (Some now) st))"

definition backoff_delay :: "int \<Rightarrow> rat" where
  "backoff_delay failures = min 300 (2 ^ nat (min (failures - 1) 8))"

definition mark_failure :: "rat \<Rightarrow> string \<Rightarrow> peer_registry \<Rightarrow> storage \<Rightarrow> int \<times> peer_registry \<times> storage" where
  "mark_failure now addr reg st =
     (let a = normalize_address addr; h = health_of a reg;
          failures = h_failure_count h + 1
      in (failures,
          set_health a (h\<lparr>h_failure_count := failures,
                          h_backoff_until := Some (now + backoff_delay failures)\<rparr>) reg,
          upsert_peer now a None ''offline'' (Some now) st))"

definition is_eligible :: "rat \<Rightarrow> string \<Rightarrow> peer_registry \<Rightarrow> bool" where
  "is_eligible now addr reg =
     (case map_of (reg_health reg) (normalize_address addr) of
        None \<Rightarrow> True
      | Some h \<Rightarrow> (case h_backoff_until h of None \<Rightarrow> 0 \<le> now | Some t \<Rightarrow> t \<le> now))"

definition failure_count :: "string \<Rightarrow> peer_registry \<Rightarrow> int" where
  "failure_count addr reg =
     (case map_of (reg_health reg) (normalize_address addr) of None \<Rightarrow> 0 | Some h \<Rightarrow> h_failure_count h)"

definition backoff_until :: "string \<Rightarrow> peer_registry \<Rightarrow> rat option" where
  "backoff_until addr reg =
     (case map_of (reg_health reg) (normalize_address addr) of None \<Rightarrow> None | Some h \<Rightarrow> h_backoff_until h)"

definition set_capabilities :: "string \<Rightarrow> string list \<Rightarrow> peer_registry \<Rightarrow> peer_registry" where
  "set_capabilities addr caps reg =
     (let a = normalize_address addr
      in set_health a ((health_of a reg)\<lparr>h_capabilities := sort (remdups caps)\<rparr>) reg)"

definition health_snapshot :: "peer_registry \<Rightarrow> (string, health) pydict" where
  "health_snapshot reg = reg_health reg"

definition enrich :: "peer_registry \<Rightarrow> peer \<Rightarrow> peer" where
  "enrich reg p =
     (let h = health_of (p_address p) reg
      in p\<lparr>p_failure_count := h_failure_count h, p_backoff_until := h_backoff_until h,
           p_capabilities := h_capabilities h\<rparr>)"

definition registry_peers :: "peer_registry \<Rightarrow> storage \<Rightarrow> peer list" where
  "registry_peers reg st = map (\<lambda>(a, r). enrich reg (peer_from_row a r)) (list_peers st)"

definition registry_get :: "string \<Rightarrow> peer_registry \<Rightarrow> storage \<Rightarrow> peer option" where
  "registry_get addr reg st =
     (let a = normalize_address addr
      in map_option (\<lambda>r. enrich reg (peer_from_row a r)) (get_peer a st))"

definition healthy_count :: "rat \<Rightarrow> peer_registry \<Rightarrow> storage \<Rightarrow> int" where
  "healthy_count now reg st =
     int (length (filter (\<lambda>p. p_status p = ''online'' \<and> is_eligible now (p_address p) reg) (registry_peers reg st)))"

definition registry_remove :: "string \<Rightarrow> storage \<Rightarrow> storage" where
  "registry_remove addr st = remove_peer (normalize_address addr) st"

definition registry_count :: "storage \<Rightarrow> int" where
  "registry_count st = peer_count st"

definition addresses :: "peer_registry \<Rightarrow> storage \<Rightarrow> string list" where
  "addresses reg st = map p_address (registry_peers reg st)"

section \<open>Retry state\<close>

lemma health_of_set [simp]: "health_of b (set_health a h reg) = (if b = a then h else health_of b reg)"
  by (simp add: health_of_def set_health_def)

lemma set_health_frame [simp]:
  "reg_self_address (set_health a h reg) = reg_self_address reg"
  "reg_self_node_id (set_health a h reg) = reg_self_node_id reg"
  "reg_max_peers (set_health a h reg) = reg_max_peers reg"
  by (simp_all add: set_health_def)

lemma failure_count_health: "failure_count a reg = h_failure_count (health_of (normalize_address a) reg)"
  by (auto simp: failure_count_def health_of_def dict_get_def fresh_health_def split: option.splits)

lemma backoff_until_health: "backoff_until a reg = h_backoff_until (health_of (normalize_address a) reg)"
  by (auto simp: backoff_until_def health_of_def dict_get_def fresh_health_def split: option.splits)

lemma is_eligible_backoff:
  "backoff_until a reg = Some t \<Longrightarrow> is_eligible now a reg \<longleftrightarrow> t \<le> now"
  by (auto simp: backoff_until_def is_eligible_def split: option.splits)

definition fail_all :: "string \<Rightarrow> rat list \<Rightarrow> peer_registry \<times> storage \<Rightarrow> peer_registry \<times> storage" where
  "fail_all a = fold (\<lambda>t (reg, st). snd (mark_failure t a reg st))"

lemma fail_all_health:
  assumes "ts \<noteq> []"
  shows "failure_count a (fst (fail_all a ts (reg, st))) = failure_count a reg + int (length ts) \<and>
    backoff_until a (fst (fail_all a ts (reg, st))) =
      Some (last ts + backoff_delay (failure_count a reg + int (length ts)))"
  using assms
proof (induction ts rule: rev_nonempty_induct)
  case (single t)
  then show ?case
    by (simp add: fail_all_def mark_failure_def Let_def failure_count_health backoff_until_health)
next
  case (snoc t ts)
  then show ?case
    by (simp add: fail_all_def mark_failure_def Let_def failure_count_health backoff_until_health
        case_prod_unfold algebra_simps)
qed

lemma backoff_delay_nat: "0 < n \<Longrightarrow> backoff_delay (int n) = 2 ^ min (n - 1) 8"
proof -
  assume "0 < n"
  then have "nat (min (int n - 1) 8) = min (n - 1) 8" by (auto simp: min_def)
  moreover have "(2::rat) ^ min (n - 1) 8 \<le> 2 ^ 8" by (rule power_increasing) auto
  ultimately show ?thesis by (simp add: backoff_delay_def)
qed

section \<open>Registration\<close>

lemma upsert_peer_frame [simp]:
  "peer_credentials_table (upsert_peer now a n s l st) = peer_credentials_table st"
  "blocks_table (upsert_peer now a n s l st) = blocks_table st"
  "transactions_table (upsert_peer now a n s l st) = transactions_table st"
  "wallets_table (upsert_peer now a n s l st) = wallets_table st"
  by (auto simp: upsert_peer_def split: option.splits)

lemma get_peer_upsert: "get_peer b (upsert_peer now a n s l st) \<noteq> None \<longleftrightarrow> b = a \<or> get_peer b st \<noteq> None"
  "b \<noteq> a \<Longrightarrow> get_peer b (upsert_peer now a n s l st) = get_peer b st"
  by (auto simp: get_peer_def upsert_peer_def split: option.splits)

lemma length_dict_set: "length (dict_set k v d) = length d + (if k \<in> fst ` set d then 0 else 1)"
  using arg_cong [OF keys_dict_set [of k v d], of length] by auto

lemma peer_count_upsert:
  "peer_count (upsert_peer now a n s l st) = peer_count st + (if get_peer a st = None then 1 else 0)"
  by (auto simp: peer_count_def get_peer_def upsert_peer_def length_dict_set map_of_eq_None_iff split: option.splits)

section \<open>Properties\<close>

text \<open>Registration admits only well-formed addresses other than the node's own, never grants
  trust, leaves every other peer as it was and does not grow the registry beyond the larger of its
  size and the configured maximum; a refused registration changes nothing.\<close>
theorem register_guarded:
  assumes "register now addr nid reg st = (v, reg', st')"
  shows "peer_credentials_table st' = peer_credentials_table st \<and>
    peer_count st' \<le> max (peer_count st) (reg_max_peers reg) \<and>
    (v \<noteq> Valid \<longrightarrow> reg' = reg \<and> st' = st) \<and>
    (v = Valid \<longrightarrow> nid \<noteq> Some (reg_self_node_id reg) \<and>
      (\<exists>a. addr = PStr a \<and> is_valid_peer_address (PStr a) \<and> normalize_address a \<noteq> reg_self_address reg \<and>
        get_peer (normalize_address a) st' \<noteq> None \<and>
        (\<forall>b. b \<noteq> normalize_address a \<longrightarrow> get_peer b st' = get_peer b st)))"
proof (cases "v = Valid")
  case True
  obtain a where a: "addr = PStr a" "is_valid_peer_address (PStr a)"
    using assms True by (cases addr) (auto simp: register_def is_valid_peer_address_def split: if_splits)
  let ?n = "normalize_address a"
  obtain s l where st': "st' = upsert_peer now ?n nid s l st"
    and ok: "?n \<noteq> reg_self_address reg" "nid \<noteq> Some (reg_self_node_id reg)"
      "get_peer ?n st = None \<longrightarrow> peer_count st < reg_max_peers reg"
    using assms True a by (auto simp: register_def Let_def not_le split: if_splits)
  have "peer_count st' \<le> max (peer_count st) (reg_max_peers reg)"
    using ok(3) by (auto simp: st' peer_count_upsert)
  moreover have "get_peer ?n st' \<noteq> None" "\<forall>b. b \<noteq> ?n \<longrightarrow> get_peer b st' = get_peer b st"
    using get_peer_upsert by (auto simp: st')
  ultimately show ?thesis using True ok a by (auto simp: st')
next
  case False
  then have "reg' = reg \<and> st' = st" using assms by (auto simp: register_def Let_def split: if_splits)
  with False show ?thesis by simp
qed

lemma sample_register:
  "register 0 (PStr ''http://b:2'') (Some ''nb'') (PeerRegistry ''http://a:1'' ''na'' 5) empty_storage =
     (Valid, set_health ''http://b:2'' fresh_health (PeerRegistry ''http://a:1'' ''na'' 5),
      upsert_peer 0 ''http://b:2'' (Some ''nb'') ''unknown'' None empty_storage)"
proof -
  have "is_valid_peer_address (PStr ''http://b:2'')" by code_simp
  moreover have "normalize_address ''http://b:2'' = ''http://b:2''" "normalize_address ''http://a:1'' = ''http://a:1''"
    by code_simp+
  ultimately show ?thesis
    by (simp add: register_def Let_def PeerRegistry_def get_peer_def peer_count_def empty_storage_def health_of_def)
qed

theorem register_guarded_witness:
  "peer_count (upsert_peer 0 ''http://b:2'' (Some ''nb'') ''unknown'' None empty_storage) \<le>
     max (peer_count empty_storage) (reg_max_peers (PeerRegistry ''http://a:1'' ''na'' 5))"
  using register_guarded [OF sample_register] by blast

text \<open>The retry schedule: after \<open>n\<close> failures in a row a peer is left alone for
  \<open>2 ^ (n - 1)\<close> seconds from the last one, at most 256, and is eligible again exactly then; a success
  clears the state.\<close>
theorem backoff_schedule:
  assumes "failure_count a reg = 0" "ts \<noteq> []" "fail_all a ts (reg, st) = (reg', st')"
  shows "failure_count a reg' = int (length ts) \<and>
    (\<forall>now. is_eligible now a reg' \<longleftrightarrow> last ts + 2 ^ min (length ts - 1) 8 \<le> now) \<and>
    failure_count a (fst (mark_seen now' a ''online'' nid reg' st')) = 0 \<and>
    (\<forall>now \<ge> 0. is_eligible now a (fst (mark_seen now' a ''online'' nid reg' st')))"
proof -
  have h: "failure_count a reg' = int (length ts)"
    "backoff_until a reg' = Some (last ts + 2 ^ min (length ts - 1) 8)"
    using fail_all_health [OF assms(2), of a reg st] assms by (simp_all add: backoff_delay_nat)
  moreover have "failure_count a (fst (mark_seen now' a ''online'' nid reg' st')) = 0"
    "\<forall>now \<ge> 0. is_eligible now a (fst (mark_seen now' a ''online'' nid reg' st'))"
    by (simp_all add: mark_seen_def Let_def failure_count_health)
      (simp add: is_eligible_def set_health_def)
  ultimately show ?thesis using is_eligible_backoff by simp
qed

theorem backoff_schedule_witness:
  "failure_count ''http://b:2'' (fst (fail_all ''http://b:2'' [10, 20, 30] (PeerRegistry ''http://a:1'' ''na'' 5, empty_storage))) = 3 \<and>
   (\<forall>now. is_eligible now ''http://b:2'' (fst (fail_all ''http://b:2'' [10, 20, 30] (PeerRegistry ''http://a:1'' ''na'' 5, empty_storage)))
      \<longleftrightarrow> 34 \<le> now)"
proof -
  have "failure_count ''http://b:2'' (PeerRegistry ''http://a:1'' ''na'' 5) = 0"
    by (simp add: failure_count_def PeerRegistry_def)
  from backoff_schedule [OF this, of "[10, 20, 30]" empty_storage] show ?thesis
    by (simp add: prod_eq_iff)
qed

end
