(* ===== verification/Protocol.thy ===== *)
theory Protocol
  imports Address_Security
begin

text \<open>
  \<open>blockchain/network/protocol.py\<close>: the HTTP client.  The other nodes and the transport are the
  argument \<open>http\<close>: for a request, the transport failed (\<open>httpx.HTTPError\<close>) or the answer is a status
  with a body that is JSON or not.  Time-outs are transport failures.
\<close>

datatype http_request = Get string string | Post string string pyval

datatype http_response = Unreachable | Response int "pyval option"

type_synonym http = "http_request \<Rightarrow> http_response"

datatype message_type =
    HELLO | PEER_LIST | PING | PONG | GET_CHAIN | GET_BLOCK | GET_BLOCKS | NEW_TRANSACTION | NEW_BLOCK
  | SYNC_REQUEST | SYNC_RESPONSE

fun message_value :: "message_type \<Rightarrow> string" where
  "message_value HELLO = ''HELLO''"
| "message_value PEER_LIST = ''PEER_LIST''"
| "message_value PING = ''PING''"
| "message_value PONG = ''PONG''"
| "message_value GET_CHAIN = ''GET_CHAIN''"
| "message_value GET_BLOCK = ''GET_BLOCK''"
| "message_value GET_BLOCKS = ''GET_BLOCKS''"
| "message_value NEW_TRANSACTION = ''NEW_TRANSACTION''"
| "message_value NEW_BLOCK = ''NEW_BLOCK''"
| "message_value SYNC_REQUEST = ''SYNC_REQUEST''"
| "message_value SYNC_RESPONSE = ''SYNC_RESPONSE''"

record peer_client =
  client_dns :: dns
  client_http :: http
  client_allow_private :: bool

definition validate_target :: "peer_client \<Rightarrow> string \<Rightarrow> address_reason option result" where
  "validate_target c base_url =
     (case validate_peer_address (client_dns c) (PStr base_url) (client_allow_private c) of
        Inl e \<Rightarrow> Inl e
      | Inr Valid \<Rightarrow> Inr None
      | Inr (Invalid r) \<Rightarrow> Inr (Some r))"

text \<open>\<open>response.json()\<close> on a body that is not JSON raises a \<open>ValueError\<close> that the client does not
  catch.\<close>

definition client_call :: "peer_client \<Rightarrow> string \<Rightarrow> http_request \<Rightarrow> int list \<Rightarrow> pyval option result" where
  "client_call c base_url req ok_codes =
     (case validate_target c base_url of
        Inl e \<Rightarrow> Inl e
      | Inr (Some r) \<Rightarrow> Inr None
      | Inr None \<Rightarrow>
          (case client_http c req of
             Unreachable \<Rightarrow> Inr None
           | Response code body \<Rightarrow>
               if code \<notin> set ok_codes then Inr None
               else (case body of None \<Rightarrow> Inl ValueError | Some v \<Rightarrow> Inr (Some v))))"

definition client_get :: "peer_client \<Rightarrow> string \<Rightarrow> string \<Rightarrow> pyval option result" where
  "client_get c base_url path = client_call c base_url (Get base_url path) [200]"

definition client_post :: "peer_client \<Rightarrow> string \<Rightarrow> string \<Rightarrow> pyval \<Rightarrow> pyval option result" where
  "client_post c base_url path payload = client_call c base_url (Post base_url path payload) [200, 201]"

definition get_status :: "peer_client \<Rightarrow> string \<Rightarrow> pyval option result" where
  "get_status c addr = client_get c addr ''/network/status''"

definition get_chain :: "peer_client \<Rightarrow> string \<Rightarrow> pyval option result" where
  "get_chain c addr = client_get c addr ''/network/chain''"

definition get_peers :: "peer_client \<Rightarrow> string \<Rightarrow> pyval option result" where
  "get_peers c addr = client_get c addr ''/network/peers''"

definition register_with :: "peer_client \<Rightarrow> string \<Rightarrow> string \<Rightarrow> string \<Rightarrow> pyval option result" where
  "register_with c addr node_id self_address =
     client_post c addr ''/network/peers/register''
       (PDict [(''node_id'', PStr node_id), (''address'', PStr self_address)])"

definition request_challenge :: "peer_client \<Rightarrow> string \<Rightarrow> string \<Rightarrow> pyval option result" where
  "request_challenge c addr node_id =
     client_post c addr ''/network/peers/challenge'' (PDict [(''node_id'', PStr node_id)])"

definition authenticate_with :: "peer_client \<Rightarrow> string \<Rightarrow> pyval \<Rightarrow> pyval option result" where
  "authenticate_with c addr auth_envelope =
     client_post c addr ''/network/peers/authenticate'' (PDict [(''auth'', auth_envelope)])"

definition send_block :: "peer_client \<Rightarrow> string \<Rightarrow> pyval \<Rightarrow> string \<Rightarrow> pyval \<Rightarrow> pyval option result" where
  "send_block c addr blk from_peer auth_envelope =
     client_post c addr ''/network/blocks/receive''
       (PDict [(''message_type'', PStr (message_value NEW_BLOCK)), (''block'', blk),
               (''from_peer'', PStr from_peer), (''auth'', auth_envelope)])"

definition send_transaction :: "peer_client \<Rightarrow> string \<Rightarrow> pyval \<Rightarrow> string \<Rightarrow> pyval \<Rightarrow> pyval option result" where
  "send_transaction c addr tx from_peer auth_envelope =
     client_post c addr ''/network/transactions/receive''
       (PDict [(''message_type'', PStr (message_value NEW_TRANSACTION)), (''transaction'', tx),
               (''from_peer'', PStr from_peer), (''auth'', auth_envelope)])"

definition request_sync :: "peer_client \<Rightarrow> string \<Rightarrow> pyval \<Rightarrow> string option \<Rightarrow> pyval option result" where
  "request_sync c addr auth_envelope target =
     client_post c addr ''/network/sync''
       (PDict [(''message_type'', PStr (message_value SYNC_REQUEST)), (''auth'', auth_envelope),
               (''peer_address'', opt_str target)])"

section \<open>No request leaves for an address that does not pass\<close>

lemma client_call_valid:
  "client_call c base req codes = Inr (Some v) \<Longrightarrow>
   validate_peer_address (client_dns c) (PStr base) (client_allow_private c) = Inr Valid \<and>
   (\<exists>code. client_http c req = Response code (Some v) \<and> code \<in> set codes)"
  by (auto simp: client_call_def validate_target_def split: sum.splits verdict.splits option.splits
      http_response.splits if_splits)

text \<open>What the transport answers cannot matter for an address that does not pass.\<close>
lemma client_call_blocked:
  assumes "validate_peer_address (client_dns c) (PStr base) (client_allow_private c) \<noteq> Inr Valid"
  shows "client_call c base req codes = client_call (c\<lparr>client_http := h\<rparr>) base req codes"
  using assms by (auto simp: client_call_def validate_target_def split: sum.splits verdict.splits)

end
