(* ===== verification/Network_Node.thy ===== *)
theory Network_Node
  imports Handshake Peer Protocol Blockchain
begin

text \<open>
  \<open>blockchain/network/node.py\<close> and \<open>lifecycle.py\<close>: the state a node's networking owns around its
  \<open>Blockchain\<close>, its construction, peer discovery and lifecycle, and \<open>perform_handshake\<close> of
  \<open>handshake.py\<close>.  What an operation reads from outside (clock, name service, the other nodes, fresh
  nonces) is the record \<open>outside\<close>; within one operation the clock is read once.
\<close>

section \<open>Values read from JSON\<close>

text \<open>Python's truth value, \<open>.get(k)\<close> on a value that should be a dict, iteration and \<open>str\<close>.\<close>

fun truthy :: "pyval \<Rightarrow> bool" where
  "truthy PNone \<longleftrightarrow> False"
| "truthy (PBool b) \<longleftrightarrow> b"
| "truthy (PNum n) \<longleftrightarrow> num_val n \<noteq> 0"
| "truthy (PDec m k) \<longleftrightarrow> m \<noteq> 0"
| "truthy (PStr s) \<longleftrightarrow> s \<noteq> []"
| "truthy (PList vs) \<longleftrightarrow> vs \<noteq> []"
| "truthy (PDict kvs) \<longleftrightarrow> kvs \<noteq> []"

fun py_get :: "string \<Rightarrow> pyval \<Rightarrow> pyval \<Rightarrow> pyval result" where
  "py_get k dflt (PDict d) = Inr (case map_of d k of None \<Rightarrow> dflt | Some v \<Rightarrow> v)"
| "py_get k dflt _ = Inl AttributeError"

fun py_iter :: "pyval \<Rightarrow> pyval list result" where
  "py_iter (PList vs) = Inr vs"
| "py_iter (PDict kvs) = Inr (map (\<lambda>kv. PStr (fst kv)) kvs)"
| "py_iter (PStr s) = Inr (map (\<lambda>c. PStr [c]) s)"
| "py_iter _ = Inl TypeError"

text \<open>\<open>str(v)\<close>; the text of a nested list or dict is not modelled.\<close>

fun py_str :: "pyval \<Rightarrow> string result" where
  "py_str PNone = Inr ''None''"
| "py_str (PBool b) = Inr (if b then ''True'' else ''False'')"
| "py_str (PNum n) = Inr (json_num n)"
| "py_str (PDec m k) = Inr (dec_text m k)"
| "py_str (PStr s) = Inr s"
| "py_str _ = Inl (UntypedField ''capabilities'')"

text \<open>A node id from the wire that is not a string has no place in the tables.\<close>

fun wire_node_id :: "pyval \<Rightarrow> string option result" where
  "wire_node_id PNone = Inr None"
| "wire_node_id (PStr s) = Inr (Some s)"
| "wire_node_id _ = Inl (UntypedField ''node_id'')"

section \<open>State\<close>

datatype node_lifecycle = STARTING | RUNNING | SYNCING | DEGRADED | STOPPING | STOPPED

fun lifecycle_value :: "node_lifecycle \<Rightarrow> string" where
  "lifecycle_value STARTING = ''STARTING''"
| "lifecycle_value RUNNING = ''RUNNING''"
| "lifecycle_value SYNCING = ''SYNCING''"
| "lifecycle_value DEGRADED = ''DEGRADED''"
| "lifecycle_value STOPPING = ''STOPPING''"
| "lifecycle_value STOPPED = ''STOPPED''"

record outside =
  o_dns :: dns
  o_http :: http
  o_nonce :: "string \<Rightarrow> string"
  o_time :: rat
  o_stamp :: pyval

record network_node =
  nn_blockchain :: blockchain
  nn_settings :: settings
  nn_node_id :: string
  nn_self_address :: string
  nn_identity :: p2p_identity
  nn_auth_context :: auth_context
  nn_replay_cache :: replay_cache
  nn_peers :: peer_registry
  nn_seen_blocks :: bounded_set_state
  nn_seen_transactions :: bounded_set_state
  nn_lifecycle :: node_lifecycle
  nn_background_tasks :: nat
  nn_stop_event :: "bool option"
  nn_propagation_stats :: "(string, int) pydict"

definition SEEN_CACHE_SIZE :: int where
  "SEEN_CACHE_SIZE = 5000"

definition nn_storage :: "network_node \<Rightarrow> storage" where
  "nn_storage n = bc_storage (nn_blockchain n)"

definition with_peers :: "peer_registry \<times> storage \<Rightarrow> network_node \<Rightarrow> network_node" where
  "with_peers rs n =
     n\<lparr>nn_peers := fst rs, nn_blockchain := (nn_blockchain n)\<lparr>bc_storage := snd rs\<rparr>\<rparr>"

definition client_of :: "outside \<Rightarrow> network_node \<Rightarrow> peer_client" where
  "client_of out n =
     \<lparr>client_dns = o_dns out, client_http = o_http out,
      client_allow_private = allow_private_peer_addresses (p2p_cfg (nn_settings n))\<rparr>"

section \<open>Registry operations on the node\<close>

definition node_register ::
  "outside \<Rightarrow> pyval \<Rightarrow> string option \<Rightarrow> network_node \<Rightarrow> register_reason verdict \<times> network_node" where
  "node_register out addr node_id n =
     (case register (o_time out) addr node_id (nn_peers n) (nn_storage n) of
        (v, rs) \<Rightarrow> (v, with_peers rs n))"

definition node_mark_seen :: "outside \<Rightarrow> string \<Rightarrow> string \<Rightarrow> string option \<Rightarrow> network_node \<Rightarrow> network_node" where
  "node_mark_seen out addr stat node_id n =
     with_peers (mark_seen (o_time out) addr stat node_id (nn_peers n) (nn_storage n)) n"

definition node_mark_failure :: "outside \<Rightarrow> string \<Rightarrow> network_node \<Rightarrow> network_node" where
  "node_mark_failure out addr n =
     with_peers (snd (mark_failure (o_time out) addr (nn_peers n) (nn_storage n))) n"

definition is_trusted_peer :: "string \<Rightarrow> network_node \<Rightarrow> bool" where
  "is_trusted_peer addr n = is_peer_trusted addr (nn_storage n)"

definition node_addresses :: "network_node \<Rightarrow> string list" where
  "node_addresses n = addresses (nn_peers n) (nn_storage n)"

definition node_is_eligible :: "outside \<Rightarrow> string \<Rightarrow> network_node \<Rightarrow> bool" where
  "node_is_eligible out addr n = is_eligible (o_time out) addr (nn_peers n)"

definition bump :: "string \<Rightarrow> int \<Rightarrow> network_node \<Rightarrow> network_node" where
  "bump k v n = n\<lparr>nn_propagation_stats := dict_set k (dict_get k 0 (nn_propagation_stats n) + v) (nn_propagation_stats n)\<rparr>"

definition record_propagation :: "string \<Rightarrow> int \<Rightarrow> int \<Rightarrow> network_node \<Rightarrow> network_node" where
  "record_propagation kind sent received n = bump (kind @ ''_received'') received (bump (kind @ ''_sent'') sent n)"

section \<open>Construction\<close>

text \<open>\<open>new_id\<close> and \<open>fresh\<close> are what the generators would produce if the tables hold none yet.\<close>

definition NetworkNode ::
  "outside \<Rightarrow> string \<Rightarrow> string \<times> string \<Rightarrow> settings \<Rightarrow> blockchain \<Rightarrow> network_node" where
  "NetworkNode out new_id fresh cfg bc =
     (let p2p = p2p_cfg cfg;
          (node_id, st1) =
            (if node_id_override p2p \<noteq> [] then (node_id_override p2p, bc_storage bc)
             else get_or_create_node_id new_id (o_time out) (bc_storage bc));
          self_address = resolved_advertised_address cfg;
          (keys, st2) = get_or_create_p2p_identity fresh node_id st1;
          identity = \<lparr>ident_node_id = node_id, ident_private_key_hex = fst keys, ident_public_key_hex = snd keys\<rparr>;
          n = \<lparr>nn_blockchain = bc\<lparr>bc_storage := st2\<rparr>,
               nn_settings = cfg,
               nn_node_id = node_id,
               nn_self_address = self_address,
               nn_identity = identity,
               nn_auth_context = AuthContext identity (net_name (network_cfg cfg))
                  (block_hash (genesis_block bc)) self_address,
               nn_replay_cache = ReplayCache (replay_cache_size p2p),
               nn_peers = PeerRegistry self_address node_id (max_peers p2p),
               nn_seen_blocks = BoundedSet SEEN_CACHE_SIZE,
               nn_seen_transactions = BoundedSet SEEN_CACHE_SIZE,
               nn_lifecycle = STARTING,
               nn_background_tasks = 0,
               nn_stop_event = None,
               nn_propagation_stats =
                 [(''blocks_sent'', 0), (''transactions_sent'', 0), (''blocks_received'', 0),
                  (''transactions_received'', 0), (''sync_attempts'', 0)]\<rparr>
      in fold (\<lambda>a n. snd (node_register out (PStr a) None n)) (bootstrap_peers p2p) n)"

section \<open>The client side of the handshake\<close>

datatype handshake_reason =
    NoChallengeObtained
  | NoValidChallenge
  | PeerUnreachable
  | HandshakeRejected pyval

definition perform_handshake ::
  "crypto \<Rightarrow> outside \<Rightarrow> string \<Rightarrow> network_node \<Rightarrow> handshake_reason verdict result" where
  "perform_handshake C out peer_address n =
     (case request_challenge (client_of out n) peer_address (nn_node_id n) of
        Inl e \<Rightarrow> Inl e
      | Inr None \<Rightarrow> Inr (Invalid NoChallengeObtained)
      | Inr (Some resp) \<Rightarrow>
     (case py_get ''challenge'' PNone resp of
        Inl e \<Rightarrow> Inl e
      | Inr challenge \<Rightarrow>
          if \<not> truthy challenge then Inr (Invalid NoValidChallenge)
          else
     (case build_handshake_envelope C (nn_auth_context n) challenge (o_stamp out) (o_nonce out peer_address) of
        Inl e \<Rightarrow> Inl e
      | Inr env \<Rightarrow>
     (case authenticate_with (client_of out n) peer_address (PDict env) of
        Inl e \<Rightarrow> Inl e
      | Inr None \<Rightarrow> Inr (Invalid PeerUnreachable)
      | Inr (Some auth) \<Rightarrow>
     (case py_get ''authenticated'' PNone auth of
        Inl e \<Rightarrow> Inl e
      | Inr ok \<Rightarrow>
          if truthy ok then Inr Valid
          else (case py_get ''reason'' PNone auth of
                  Inl e \<Rightarrow> Inl e
                | Inr reason \<Rightarrow> Inr (Invalid (HandshakeRejected reason))))))))"

section \<open>Discovery\<close>

text \<open>One bootstrap peer: the result says whether the peer counts as seen, with the node id it
  returned; an exception is caught by the caller.\<close>

definition bootstrap_peer ::
  "crypto \<Rightarrow> outside \<Rightarrow> string \<Rightarrow> network_node \<Rightarrow> string option option result \<times> network_node" where
  "bootstrap_peer C out a n =
     (case register_with (client_of out n) a (nn_node_id n) (nn_self_address n) of
        Inl e \<Rightarrow> (Inl e, n)
      | Inr None \<Rightarrow> (Inr None, n)
      | Inr (Some registration) \<Rightarrow>
     (case py_get ''self_node_id'' PNone registration of
        Inl e \<Rightarrow> (Inl e, n)
      | Inr v \<Rightarrow>
     (case wire_node_id v of
        Inl e \<Rightarrow> (Inl e, n)
      | Inr sid \<Rightarrow>
          let n1 = snd (node_register out (PStr a) sid n) in
     (case request_challenge (client_of out n1) a (nn_node_id n1) of
        Inl e \<Rightarrow> (Inl e, n1)
      | Inr None \<Rightarrow> (Inr None, n1)
      | Inr (Some resp) \<Rightarrow>
          if \<not> truthy resp then (Inr None, n1)
          else
     (case py_get ''challenge'' PNone resp of
        Inl e \<Rightarrow> (Inl e, n1)
      | Inr challenge \<Rightarrow>
          if \<not> truthy challenge then (Inr None, n1)
          else
     (case build_handshake_envelope C (nn_auth_context n1) challenge (o_stamp out) (o_nonce out a) of
        Inl e \<Rightarrow> (Inl e, n1)
      | Inr env \<Rightarrow>
     (case authenticate_with (client_of out n1) a (PDict env) of
        Inl e \<Rightarrow> (Inl e, n1)
      | Inr None \<Rightarrow> (Inr None, n1)
      | Inr (Some auth) \<Rightarrow>
          if \<not> truthy auth then (Inr None, n1)
          else
     (case py_get ''authenticated'' PNone auth of
        Inl e \<Rightarrow> (Inl e, n1)
      | Inr ok \<Rightarrow>
          if \<not> truthy ok then (Inr None, n1)
          else (case py_get ''self_node_id'' PNone auth of
                  Inl e \<Rightarrow> (Inl e, n1)
                | Inr w \<Rightarrow> (map_sum id Some (wire_node_id w), n1))))))))))"

definition discover_bootstrap_peers :: "crypto \<Rightarrow> outside \<Rightarrow> network_node \<Rightarrow> network_node" where
  "discover_bootstrap_peers C out n =
     fold (\<lambda>a n. case bootstrap_peer C out a n of
               (Inr (Some sid), n') \<Rightarrow> node_mark_seen out a ''online'' sid n'
             | (_, n') \<Rightarrow> node_mark_failure out a n')
       (bootstrap_peers (p2p_cfg (nn_settings n))) n"

text \<open>The loop over the peers a peer returned; the count is of accepted registrations.\<close>

definition adopt_peer :: "outside \<Rightarrow> pyval \<Rightarrow> network_node \<Rightarrow> int result \<times> network_node" where
  "adopt_peer out info n =
     (let addr = (case info of PDict d \<Rightarrow> env_get d ''address'' | v \<Rightarrow> v)
      in if \<not> truthy addr then (Inr 0, n)
         else case wire_node_id (case info of PDict d \<Rightarrow> env_get d ''node_id'' | _ \<Rightarrow> PNone) of
           Inl e \<Rightarrow> (Inl e, n)
         | Inr nid \<Rightarrow>
             (case node_register out addr nid n of
                (Invalid r, n1) \<Rightarrow> (Inr 0, n1)
              | (Valid, n1) \<Rightarrow>
                  (case info of
                     PDict d \<Rightarrow>
                       (case py_iter (case map_of d ''capabilities'' of None \<Rightarrow> PList [] | Some v \<Rightarrow> v) of
                          Inl e \<Rightarrow> (Inl e, n1)
                        | Inr vs \<Rightarrow>
                            (case map_result py_str vs of
                               Inl e \<Rightarrow> (Inl e, n1)
                             | Inr caps \<Rightarrow>
                                 (Inr 1, n1\<lparr>nn_peers := set_capabilities (str_of addr) caps (nn_peers n1)\<rparr>)))
                   | _ \<Rightarrow> (Inr 1, n1))))"

fun adopt_peers :: "outside \<Rightarrow> pyval list \<Rightarrow> int \<Rightarrow> network_node \<Rightarrow> int result \<times> network_node" where
  "adopt_peers out [] added n = (Inr added, n)"
| "adopt_peers out (v # vs) added n =
     (case adopt_peer out v n of
        (Inl e, n') \<Rightarrow> (Inl e, n')
      | (Inr k, n') \<Rightarrow> adopt_peers out vs (added + k) n')"

definition ask_peer :: "outside \<Rightarrow> string \<Rightarrow> int \<Rightarrow> network_node \<Rightarrow> int result \<times> network_node" where
  "ask_peer out a added n =
     (if \<not> node_is_eligible out a n then (Inr added, n)
      else case get_peers (client_of out n) a of
        Inl e \<Rightarrow> (Inl e, n)
      | Inr None \<Rightarrow> (Inr added, node_mark_failure out a n)
      | Inr (Some payload) \<Rightarrow>
          let n1 = node_mark_seen out a ''online'' None n in
          (case py_get ''peers'' (PList []) payload of
             Inl e \<Rightarrow> (Inl e, n1)
           | Inr v \<Rightarrow>
               (case py_iter v of
                  Inl e \<Rightarrow> (Inl e, n1)
                | Inr vs \<Rightarrow> adopt_peers out vs added n1)))"

fun ask_peers :: "outside \<Rightarrow> string list \<Rightarrow> int \<Rightarrow> network_node \<Rightarrow> int result \<times> network_node" where
  "ask_peers out [] added n = (Inr added, n)"
| "ask_peers out (a # as) added n =
     (case ask_peer out a added n of
        (Inl e, n') \<Rightarrow> (Inl e, n')
      | (Inr k, n') \<Rightarrow> ask_peers out as k n')"

definition discover_peers :: "outside \<Rightarrow> network_node \<Rightarrow> int result \<times> network_node" where
  "discover_peers out n = ask_peers out (node_addresses n) 0 n"

section \<open>Lifecycle and status\<close>

text \<open>\<open>start\<close> and \<open>stop\<close>; a background task is counted, its loop body is \<open>maintenance_step\<close>.\<close>

definition start :: "crypto \<Rightarrow> outside \<Rightarrow> network_node \<Rightarrow> network_node" where
  "start C out n =
     (if nn_lifecycle n = RUNNING then n
      else
        let n1 = discover_bootstrap_peers C out (n\<lparr>nn_lifecycle := STARTING, nn_stop_event := Some False\<rparr>)
        in n1\<lparr>nn_lifecycle := RUNNING, nn_background_tasks := nn_background_tasks n1 + 1\<rparr>)"

definition stop :: "network_node \<Rightarrow> network_node" where
  "stop n =
     (if nn_lifecycle n = STOPPED then n
      else n\<lparr>nn_lifecycle := STOPPED, nn_background_tasks := 0,
             nn_stop_event := map_option (\<lambda>_. True) (nn_stop_event n)\<rparr>)"

definition node_status :: "outside \<Rightarrow> network_node \<Rightarrow> pyval result" where
  "node_status out n =
     (let bc = nn_blockchain n in
      case current_difficulty bc of
        Inl e \<Rightarrow> Inl e
      | Inr d \<Rightarrow>
          Inr (PDict
            [(''node_id'', PStr (nn_node_id n)),
             (''self_address'', PStr (nn_self_address n)),
             (''public_key'', PStr (ident_public_key_hex (nn_identity n))),
             (''peer_count'', PInt (registry_count (nn_storage n))),
             (''chain_length'', PInt (bc_length bc)),
             (''chain_work'', PInt (total_work bc)),
             (''network_name'', PStr (net_name (network_cfg (nn_settings n)))),
             (''chain_id'', PInt (chain_id (network_cfg (nn_settings n)))),
             (''lifecycle'', PStr (lifecycle_value (nn_lifecycle n))),
             (''healthy_peer_count'', PInt (healthy_count (o_time out) (nn_peers n) (nn_storage n))),
             (''sync_state'', PStr (lifecycle_value (nn_lifecycle n))),
             (''mempool_size'', PInt (mempool_size (bc_mempool bc))),
             (''current_difficulty'', PInt d),
             (''total_supply_base_units'', PInt (total_supply_base_units bc)),
             (''propagation'', PDict (map (\<lambda>(k, v). (k, PInt v)) (nn_propagation_stats n)))]))"

end
