(* ===== verification/Propagation.thy ===== *)
theory Propagation
  imports Network_Node
begin

text \<open>
  \<open>blockchain/network/propagation.py\<close>: the authentication gate, broadcasting to trusted peers, and
  receiving blocks and transactions.  An operation that may raise after it has changed the node
  returns the result together with the new node.
\<close>

datatype receive_reason =
    AuthFailed auth_reason
  | MalformedPayload
  | DuplicateSeen
  | DuplicateOnChain
  | DuplicatePending
  | NotExtendingTip
  | BlockRejected block_reason
  | TransactionRejected submit_reason

section \<open>Authentication\<close>

text \<open>\<open>if claimed_address:\<close> is false for \<open>None\<close> and for the empty string.\<close>

fun present :: "string option \<Rightarrow> bool" where
  "present None \<longleftrightarrow> False"
| "present (Some a) \<longleftrightarrow> a \<noteq> []"

definition check_credential :: "string option \<Rightarrow> pyval \<Rightarrow> network_node \<Rightarrow> auth_reason verdict" where
  "check_credential claimed e n =
     (if \<not> present claimed then Valid
      else (case get_peer_credential (the claimed) (nn_storage n) of
              None \<Rightarrow> Invalid NotTrustedYet
            | Some c \<Rightarrow>
                (case e of
                   PDict env \<Rightarrow>
                     if PStr (cred_node_id c) \<noteq> env_get env ''node_id'' \<or>
                        PStr (cred_public_key_hex c) \<noteq> env_get env ''public_key''
                     then Invalid IdentityMismatch else Valid
                 | _ \<Rightarrow> Invalid NotAnObject)))"

definition authenticate_request ::
  "crypto \<Rightarrow> outside \<Rightarrow> pyval option \<Rightarrow> envelope option \<Rightarrow> string option \<Rightarrow> network_node \<Rightarrow>
   auth_reason verdict result \<times> network_node" where
  "authenticate_request C out auth_envelope payload claimed n =
     (case auth_envelope of
        None \<Rightarrow> (Inr (Invalid NoEnvelope), n)
      | Some e \<Rightarrow>
          (case verify_auth_envelope C e payload (nn_auth_context n) (o_time out)
                  (auth_freshness_window_seconds (p2p_cfg (nn_settings n))) (nn_replay_cache n) of
             (Inl err, cache) \<Rightarrow> (Inl err, n\<lparr>nn_replay_cache := cache\<rparr>)
           | (Inr (Invalid r), cache) \<Rightarrow> (Inr (Invalid r), n\<lparr>nn_replay_cache := cache\<rparr>)
           | (Inr Valid, cache) \<Rightarrow>
               (Inr (check_credential claimed e n), n\<lparr>nn_replay_cache := cache\<rparr>)))"

section \<open>Broadcasting\<close>

text \<open>The loop body of both broadcasts for one address: \<open>Inr True\<close> when the peer acknowledged.\<close>

definition relay_to ::
  "crypto \<Rightarrow> outside \<Rightarrow> envelope \<Rightarrow> (peer_client \<Rightarrow> string \<Rightarrow> pyval \<Rightarrow> string \<Rightarrow> pyval \<Rightarrow> pyval option result) \<Rightarrow>
   string option \<Rightarrow> string \<Rightarrow> network_node \<Rightarrow> bool result \<times> network_node" where
  "relay_to C out d send exclude a n =
     (if Some a = exclude then (Inr False, n)
      else if \<not> is_trusted_peer a n \<or> \<not> node_is_eligible out a n then (Inr False, n)
      else
        (case build_auth_envelope C (nn_auth_context n) (Some d) (o_stamp out) (o_nonce out a) of
           Inl err \<Rightarrow> (Inl err, n)
         | Inr env \<Rightarrow>
             (case send (client_of out n) a (PDict d) (nn_self_address n) (PDict env) of
                Inl err \<Rightarrow> (Inl err, n)
              | Inr None \<Rightarrow> (Inr False, node_mark_failure out a n)
              | Inr (Some _) \<Rightarrow> (Inr True, node_mark_seen out a ''online'' None n))))"

fun relay ::
  "crypto \<Rightarrow> outside \<Rightarrow> envelope \<Rightarrow> (peer_client \<Rightarrow> string \<Rightarrow> pyval \<Rightarrow> string \<Rightarrow> pyval \<Rightarrow> pyval option result) \<Rightarrow>
   string option \<Rightarrow> string list \<Rightarrow> string list \<Rightarrow> network_node \<Rightarrow> string list result \<times> network_node" where
  "relay C out d send exclude [] acknowledged n = (Inr acknowledged, n)"
| "relay C out d send exclude (a # as) acknowledged n =
     (case relay_to C out d send exclude a n of
        (Inl err, n') \<Rightarrow> (Inl err, n')
      | (Inr ack, n') \<Rightarrow>
          relay C out d send exclude as (if ack then acknowledged @ [a] else acknowledged) n')"

definition broadcast_block ::
  "crypto \<Rightarrow> outside \<Rightarrow> block \<Rightarrow> string option \<Rightarrow> network_node \<Rightarrow> string list result \<times> network_node" where
  "broadcast_block C out b exclude n =
     (let n1 = n\<lparr>nn_seen_blocks := bs_add (block_hash b) (nn_seen_blocks n)\<rparr> in
      case blk_to_dict b of
        Inl err \<Rightarrow> (Inl err, n1)
      | Inr d \<Rightarrow>
          (case relay C out d send_block exclude (node_addresses n1) [] n1 of
             (Inl err, n2) \<Rightarrow> (Inl err, n2)
           | (Inr acks, n2) \<Rightarrow> (Inr acks, record_propagation ''blocks'' (int (length acks)) 0 n2)))"

definition broadcast_transaction ::
  "crypto \<Rightarrow> outside \<Rightarrow> transaction \<Rightarrow> string option \<Rightarrow> network_node \<Rightarrow> string list result \<times> network_node" where
  "broadcast_transaction C out tx exclude n =
     (let n1 = n\<lparr>nn_seen_transactions := bs_add (tx_hash tx) (nn_seen_transactions n)\<rparr> in
      case tx_to_dict tx of
        Inl err \<Rightarrow> (Inl err, n1)
      | Inr d \<Rightarrow>
          (case relay C out d send_transaction exclude (node_addresses n1) [] n1 of
             (Inl err, n2) \<Rightarrow> (Inl err, n2)
           | (Inr acks, n2) \<Rightarrow> (Inr acks, record_propagation ''transactions'' (int (length acks)) 0 n2)))"

section \<open>Receiving\<close>

text \<open>\<open>except (KeyError, TypeError, ValueError)\<close>.\<close>

fun caught :: "py_error \<Rightarrow> bool" where
  "caught (KeyError _) \<longleftrightarrow> True"
| "caught TypeError \<longleftrightarrow> True"
| "caught ValueError \<longleftrightarrow> True"
| "caught _ \<longleftrightarrow> False"

text \<open>The section under the lock.  The validator is called without the configured supply, so its
  default applies; as in mining, the block is appended before it is saved.\<close>

definition append_received ::
  "crypto \<Rightarrow> block \<Rightarrow> blockchain \<Rightarrow> receive_reason verdict result \<times> blockchain" where
  "append_received C b bc =
     (if index b \<noteq> index (latest_block bc) + 1 then (Inr (Invalid NotExtendingTip), bc)
      else case validate_block_against_chain C (bc_consensus bc) (consensus_cfg (bc_settings bc)) (reward_of bc)
                  MAX_SUPPLY_BASE_UNITS b (bc_chain bc) of
        Inl err \<Rightarrow> (Inl err, bc)
      | Inr (Invalid r) \<Rightarrow> (Inr (Invalid (BlockRejected r)), bc)
      | Inr Valid \<Rightarrow>
          let bc1 = bc\<lparr>bc_chain := bc_chain bc @ [b]\<rparr> in
          (case save_block b (bc_storage bc1) of
             Inl err \<Rightarrow> (Inl err, bc1)
           | Inr st \<Rightarrow>
               (Inr Valid,
                bc1\<lparr>bc_storage := update_balances_for_block b st,
                    bc_mempool := remove_transactions (map tx_hash (transactions b)) (bc_mempool bc1)\<rparr>)))"

definition sender_seen :: "outside \<Rightarrow> string option \<Rightarrow> network_node \<Rightarrow> network_node" where
  "sender_seen out from_peer n =
     (if present from_peer then node_mark_seen out (the from_peer) ''online'' None n else n)"

definition receive_block ::
  "crypto \<Rightarrow> outside \<Rightarrow> envelope \<Rightarrow> string option \<Rightarrow> pyval option \<Rightarrow> network_node \<Rightarrow>
   (receive_reason verdict \<times> bool) result \<times> network_node" where
  "receive_block C out d from_peer auth_envelope n =
     (case authenticate_request C out auth_envelope (Some d) from_peer n of
        (Inl err, n1) \<Rightarrow> (Inl err, n1)
      | (Inr (Invalid r), n1) \<Rightarrow> (Inr (Invalid (AuthFailed r), False), n1)
      | (Inr Valid, n1) \<Rightarrow>
     (case blk_from_dict \<lfloor>o_time out\<rfloor> d of
        Inl err \<Rightarrow> (if caught err then Inr (Invalid MalformedPayload, False) else Inl err, n1)
      | Inr b \<Rightarrow>
          if bs_contains (block_hash b) (nn_seen_blocks n1) then (Inr (Invalid DuplicateSeen, False), n1)
          else
            let n2 = n1\<lparr>nn_seen_blocks := bs_add (block_hash b) (nn_seen_blocks n1)\<rparr> in
            if (case get_block (index b) (nn_blockchain n1) of
                  None \<Rightarrow> False | Some old \<Rightarrow> block_hash old = block_hash b)
            then (Inr (Invalid DuplicateOnChain, False), n2)
            else
              (case append_received C b (nn_blockchain n2) of
                 (Inl err, bc) \<Rightarrow> (Inl err, n2\<lparr>nn_blockchain := bc\<rparr>)
               | (Inr (Invalid r), bc) \<Rightarrow> (Inr (Invalid r, False), n2\<lparr>nn_blockchain := bc\<rparr>)
               | (Inr Valid, bc) \<Rightarrow>
                   (Inr (Valid, True),
                    sender_seen out from_peer (record_propagation ''blocks'' 0 1 (n2\<lparr>nn_blockchain := bc\<rparr>))))))"

definition receive_transaction ::
  "crypto \<Rightarrow> outside \<Rightarrow> envelope \<Rightarrow> string option \<Rightarrow> pyval option \<Rightarrow> network_node \<Rightarrow>
   (receive_reason verdict \<times> bool) result \<times> network_node" where
  "receive_transaction C out d from_peer auth_envelope n =
     (case authenticate_request C out auth_envelope (Some d) from_peer n of
        (Inl err, n1) \<Rightarrow> (Inl err, n1)
      | (Inr (Invalid r), n1) \<Rightarrow> (Inr (Invalid (AuthFailed r), False), n1)
      | (Inr Valid, n1) \<Rightarrow>
     (case tx_from_dict \<lfloor>o_time out\<rfloor> d of
        Inl err \<Rightarrow> (if caught err then Inr (Invalid MalformedPayload, False) else Inl err, n1)
      | Inr tx \<Rightarrow>
          if bs_contains (tx_hash tx) (nn_seen_transactions n1) then (Inr (Invalid DuplicateSeen, False), n1)
          else
            let n2 = n1\<lparr>nn_seen_transactions := bs_add (tx_hash tx) (nn_seen_transactions n1)\<rparr> in
            if mempool_contains (tx_hash tx) (bc_mempool (nn_blockchain n2))
            then (Inr (Invalid DuplicatePending, False), n2)
            else
              (case submit_transaction C tx (nn_blockchain n2) of
                 (Invalid r, bc) \<Rightarrow> (Inr (Invalid (TransactionRejected r), False), n2\<lparr>nn_blockchain := bc\<rparr>)
               | (Valid, bc) \<Rightarrow>
                   (Inr (Valid, True),
                    sender_seen out from_peer (record_propagation ''transactions'' 0 1 (n2\<lparr>nn_blockchain := bc\<rparr>))))))"

end
