(* ===== verification/Sync.thy ===== *)
theory Sync
  imports Propagation
begin

text \<open>
  \<open>blockchain/network/sync.py\<close>: adopting a chain a peer serves, and one round of the maintenance
  loop of \<open>node.py\<close>.
\<close>

datatype sync_reason =
    InvalidPeerAddress address_reason
  | InBackoff
  | SyncUnreachable
  | NoChain
  | TooManyBlocks int int
  | MalformedBlocks
  | ReplaceRefused replace_reason

record sync_result =
  sync_peer_address :: string
  sync_verdict :: "sync_reason verdict"
  local_length_before :: int
  local_length_after :: int

section \<open>Parsing\<close>

text \<open>\<open>Block.from_dict\<close> starts with \<open>data.get\<close>: a value that is not a dict raises \<open>AttributeError\<close>.\<close>

fun blk_from_pyval :: "int \<Rightarrow> pyval \<Rightarrow> block result" where
  "blk_from_pyval now (PDict d) = blk_from_dict now d"
| "blk_from_pyval now _ = Inl AttributeError"

definition parse_candidate_chain :: "int \<Rightarrow> pyval list \<Rightarrow> int \<Rightarrow> (sync_reason + block list) result" where
  "parse_candidate_chain now raw_blocks max_blocks =
     (if int (length raw_blocks) > max_blocks
      then Inr (Inl (TooManyBlocks (int (length raw_blocks)) max_blocks))
      else case map_result (blk_from_pyval now) raw_blocks of
        Inr blocks \<Rightarrow> Inr (Inr blocks)
      | Inl err \<Rightarrow> if caught err then Inr (Inl MalformedBlocks) else Inl err)"

section \<open>Blame\<close>

text \<open>\<open>reason.lower().startswith("peer") or "unreachable" in reason.lower()\<close> on the reason of
  \<open>replace_chain\<close>: every such text starts with "Candidate", and "unreachable" can only stand in the
  parts taken from the candidate, the hash of a transaction or a sender.\<close>

fun state_text :: "state_reason \<Rightarrow> string" where
  "state_text (InvalidTransactionIn h _) = h"
| "state_text (InsufficientBalance s _ _) = s"
| "state_text _ = []"

fun structure_text :: "structure_reason \<Rightarrow> string" where
  "structure_text (InvalidTransaction h _) = h"
| "structure_text _ = []"

fun block_text :: "block_reason \<Rightarrow> string" where
  "block_text (ExistingStateInvalid r) = state_text r"
| "block_text (InvalidTransition r) = state_text r"
| "block_text (BadStructure r) = structure_text r"
| "block_text _ = []"

fun replace_text :: "replace_reason \<Rightarrow> string" where
  "replace_text (CandidateInvalid (GenesisInvalid r)) = structure_text r"
| "replace_text (CandidateInvalid (BlockInvalid _ r)) = block_text r"
| "replace_text (CandidateInvalid (MonetaryStateInvalid r)) = state_text r"
| "replace_text _ = []"

fun occurs_in :: "string \<Rightarrow> string \<Rightarrow> bool" where
  "occurs_in p [] \<longleftrightarrow> p = []"
| "occurs_in p (c # s) \<longleftrightarrow> take (length p) (c # s) = p \<or> occurs_in p s"

definition blames_peer :: "replace_reason \<Rightarrow> bool" where
  "blames_peer r \<longleftrightarrow> occurs_in ''unreachable'' (lower (replace_text r))"

section \<open>Synchronisation\<close>

definition sync_failed :: "string \<Rightarrow> sync_reason \<Rightarrow> network_node \<Rightarrow> sync_result" where
  "sync_failed a r n =
     \<lparr>sync_peer_address = a, sync_verdict = Invalid r,
      local_length_before = bc_length (nn_blockchain n), local_length_after = bc_length (nn_blockchain n)\<rparr>"

definition count_sync :: "network_node \<Rightarrow> network_node" where
  "count_sync n = bump ''sync_attempts'' 1 n"

text \<open>From the peer's answer on: what is adopted, refused or raised.\<close>

definition adopt_candidate ::
  "crypto \<Rightarrow> outside \<Rightarrow> string \<Rightarrow> block list \<Rightarrow> network_node \<Rightarrow> sync_result result \<times> network_node" where
  "adopt_candidate C out a candidate n =
     (case replace_chain C \<lfloor>o_time out\<rfloor> candidate (nn_blockchain n) of
        (Inl err, bc) \<Rightarrow> (Inl err, n\<lparr>nn_blockchain := bc\<rparr>)
      | (Inr (Invalid r), bc) \<Rightarrow>
          (Inr \<lparr>sync_peer_address = a, sync_verdict = Invalid (ReplaceRefused r),
                local_length_before = bc_length (nn_blockchain n), local_length_after = bc_length bc\<rparr>,
           if blames_peer r then node_mark_failure out a (n\<lparr>nn_blockchain := bc\<rparr>)
           else n\<lparr>nn_blockchain := bc\<rparr>)
      | (Inr Valid, bc) \<Rightarrow>
          (Inr \<lparr>sync_peer_address = a, sync_verdict = Valid,
                local_length_before = bc_length (nn_blockchain n), local_length_after = bc_length bc\<rparr>,
           node_mark_seen out a ''online'' None (n\<lparr>nn_blockchain := bc\<rparr>)))"

definition sync_with_peer ::
  "crypto \<Rightarrow> outside \<Rightarrow> string \<Rightarrow> network_node \<Rightarrow> sync_result result \<times> network_node" where
  "sync_with_peer C out a n =
     (case validate_peer_address (o_dns out) (PStr a) (allow_private_peer_addresses (p2p_cfg (nn_settings n))) of
        Inl err \<Rightarrow> (Inl err, n)
      | Inr (Invalid r) \<Rightarrow> (Inr (sync_failed a (InvalidPeerAddress r) n), n)
      | Inr Valid \<Rightarrow>
          if \<not> node_is_eligible out a n then (Inr (sync_failed a InBackoff n), n)
          else
     (case get_chain (client_of out n) a of
        Inl err \<Rightarrow> (Inl err, n)
      | Inr None \<Rightarrow> (Inr (sync_failed a SyncUnreachable n), node_mark_failure out a (count_sync n))
      | Inr (Some payload) \<Rightarrow>
     (case py_get ''chain'' PNone payload of
        Inl err \<Rightarrow> (Inl err, count_sync n)
      | Inr (PList raw_blocks) \<Rightarrow>
          if raw_blocks = [] then (Inr (sync_failed a NoChain n), count_sync n)
          else
     (case parse_candidate_chain \<lfloor>o_time out\<rfloor> raw_blocks (max_sync_blocks (p2p_cfg (nn_settings n))) of
        Inl err \<Rightarrow> (Inl err, count_sync n)
      | Inr (Inl r) \<Rightarrow> (Inr (sync_failed a r n), count_sync n)
      | Inr (Inr candidate) \<Rightarrow> adopt_candidate C out a candidate (count_sync n))
      | Inr _ \<Rightarrow> (Inr (sync_failed a NoChain n), count_sync n))))"

fun sync_peers ::
  "crypto \<Rightarrow> outside \<Rightarrow> string list \<Rightarrow> sync_result list \<Rightarrow> network_node \<Rightarrow> sync_result list result \<times> network_node" where
  "sync_peers C out [] results n = (Inr results, n)"
| "sync_peers C out (a # as) results n =
     (case sync_with_peer C out a n of
        (Inl err, n') \<Rightarrow> (Inl err, n')
      | (Inr r, n') \<Rightarrow> sync_peers C out as (results @ [r]) n')"

definition sync_with_all_peers ::
  "crypto \<Rightarrow> outside \<Rightarrow> network_node \<Rightarrow> sync_result list result \<times> network_node" where
  "sync_with_all_peers C out n = sync_peers C out (node_addresses n) [] n"

section \<open>One round of the maintenance loop\<close>

text \<open>The \<open>try\<close> block of the loop body; both branches after the synchronisation set \<open>RUNNING\<close>.\<close>

definition maintenance_step :: "crypto \<Rightarrow> outside \<Rightarrow> network_node \<Rightarrow> network_node" where
  "maintenance_step C out n =
     (if nn_stop_event n \<noteq> Some False then n
      else
        (case discover_peers out n of
           (Inl err, n1) \<Rightarrow> n1\<lparr>nn_lifecycle := DEGRADED\<rparr>
         | (Inr k, n1) \<Rightarrow>
             (case sync_with_all_peers C out (n1\<lparr>nn_lifecycle := SYNCING\<rparr>) of
                (Inl err, n2) \<Rightarrow> n2\<lparr>nn_lifecycle := DEGRADED\<rparr>
              | (Inr results, n2) \<Rightarrow> n2\<lparr>nn_lifecycle := RUNNING\<rparr>)))"

end
