(* ===== verification/Network_Run.thy ===== *)
theory Network_Run
  imports Sync Core_Run
begin

text \<open>
  The networked node as a state machine.  Most network operations touch peer tables, caches and
  counters only; \<open>peer_only\<close> says so, and the core invariant does not see the difference.
  Receiving a block is the core's \<open>commit_block\<close>, synchronising its \<open>replace_chain\<close>.
\<close>

named_theorems frame "network operations that change peer data only"

section \<open>What the core sees of a node\<close>

definition core_storage :: "storage \<Rightarrow> storage" where
  "core_storage st = st\<lparr>peers_table := [], node_identity_table := [], p2p_identity_table := [],
     peer_credentials_table := []\<rparr>"

definition core_view :: "blockchain \<Rightarrow> blockchain" where
  "core_view bc = bc\<lparr>bc_storage := core_storage (bc_storage bc)\<rparr>"

lemma core_view_simps [simp]:
  "bc_chain (core_view bc) = bc_chain bc" "bc_settings (core_view bc) = bc_settings bc"
  "bc_consensus (core_view bc) = bc_consensus bc" "bc_mempool (core_view bc) = bc_mempool bc"
  "bc_miner (core_view bc) = bc_miner bc" "reward_of (core_view bc) = reward_of bc"
  "max_supply_of (core_view bc) = max_supply_of bc" "total_work (core_view bc) = total_work bc"
  "get_balance a (core_storage st) = get_balance a st"
  "blocks_table (core_storage st) = blocks_table st" "wallets_table (core_storage st) = wallets_table st"
  "transactions_table (core_storage st) = transactions_table st"
  by (simp_all add: core_view_def core_storage_def reward_of_def max_supply_of_def total_work_def get_balance_def
      compute_balance_from_history_def split: option.splits)

lemma storage_holds_core: "storage_holds (core_storage st) chain \<longleftrightarrow> storage_holds st chain"
  by (simp add: storage_holds_def)

lemma node_ok_core: "node_ok C (core_view bc) \<longleftrightarrow> node_ok C bc"
proof -
  have "bc_storage (core_view bc) = core_storage (bc_storage bc)" by (simp add: core_view_def)
  then show ?thesis
    by (simp add: node_ok_def stored_with_def is_chain_valid_def bc_validate_chain_def storage_holds_core)
qed

definition peer_only :: "network_node \<Rightarrow> network_node \<Rightarrow> bool" where
  "peer_only n n' \<longleftrightarrow>
     core_view (nn_blockchain n') = core_view (nn_blockchain n) \<and>
     peer_credentials_table (nn_storage n') = peer_credentials_table (nn_storage n) \<and>
     nn_settings n' = nn_settings n \<and> nn_auth_context n' = nn_auth_context n \<and>
     nn_self_address n' = nn_self_address n \<and> nn_node_id n' = nn_node_id n \<and> nn_identity n' = nn_identity n"

lemma peer_only_refl [simp, intro]: "peer_only n n"
  by (simp add: peer_only_def)

lemma peer_only_trans [trans]: "peer_only n n' \<Longrightarrow> peer_only n' n'' \<Longrightarrow> peer_only n n''"
  by (simp add: peer_only_def)

lemma peer_only_chain: "peer_only n n' \<Longrightarrow> bc_chain (nn_blockchain n') = bc_chain (nn_blockchain n)"
  using core_view_simps(1) unfolding peer_only_def by metis

lemma peer_only_settings: "peer_only n n' \<Longrightarrow> bc_settings (nn_blockchain n') = bc_settings (nn_blockchain n)"
  using core_view_simps(2) unfolding peer_only_def by metis

lemma peer_only_consensus: "peer_only n n' \<Longrightarrow> bc_consensus (nn_blockchain n') = bc_consensus (nn_blockchain n)"
  using core_view_simps(3) unfolding peer_only_def by metis

lemma peer_only_mempool: "peer_only n n' \<Longrightarrow> bc_mempool (nn_blockchain n') = bc_mempool (nn_blockchain n)"
  using core_view_simps(4) unfolding peer_only_def by metis

lemma peer_only_ok: "peer_only n n' \<Longrightarrow> node_ok C (nn_blockchain n) \<Longrightarrow> node_ok C (nn_blockchain n')"
  using node_ok_core unfolding peer_only_def by metis

lemma peer_only_trusted: "peer_only n n' \<Longrightarrow> is_trusted_peer a n' = is_trusted_peer a n"
  by (simp add: peer_only_def is_trusted_peer_def is_peer_trusted_def get_peer_credential_def)

section \<open>Operations on peer data\<close>

lemma upsert_peer_core: "core_storage (upsert_peer now a i s l st) = core_storage st"
  by (auto simp: upsert_peer_def core_storage_def split: option.splits)

lemma peer_only_with_peers:
  "core_storage (snd rs) = core_storage (nn_storage n) \<Longrightarrow>
   peer_credentials_table (snd rs) = peer_credentials_table (nn_storage n) \<Longrightarrow> peer_only n (with_peers rs n)"
  by (simp add: peer_only_def with_peers_def core_view_def nn_storage_def)

lemma node_register_frame [frame]: "peer_only n (snd (node_register out addr i n))"
proof -
  obtain v reg st where r: "register (o_time out) addr i (nn_peers n) (nn_storage n) = (v, reg, st)"
    by (metis prod_cases3)
  then have "st = nn_storage n \<or> (\<exists>a s l. st = upsert_peer (o_time out) a i s l (nn_storage n))"
    by (auto simp: register_def Let_def split: if_splits)
  then show ?thesis using r by (auto simp: node_register_def upsert_peer_core intro!: peer_only_with_peers)
qed

lemma node_mark_frame [frame]:
  "peer_only n (node_mark_seen out a s i n)" "peer_only n (node_mark_failure out a n)"
  by (simp_all add: node_mark_seen_def mark_seen_def node_mark_failure_def mark_failure_def Let_def upsert_peer_core
      peer_only_with_peers)

lemma node_update_frame [frame]:
  "peer_only n (n\<lparr>nn_replay_cache := c\<rparr>)" "peer_only n (n\<lparr>nn_seen_blocks := s\<rparr>)"
  "peer_only n (n\<lparr>nn_seen_transactions := s\<rparr>)" "peer_only n (n\<lparr>nn_peers := p\<rparr>)"
  "peer_only n (n\<lparr>nn_lifecycle := l\<rparr>)" "peer_only n (n\<lparr>nn_background_tasks := k\<rparr>)"
  "peer_only n (n\<lparr>nn_stop_event := e\<rparr>)" "peer_only n (bump key v n)" "peer_only n (record_propagation kind x y n)"
  "peer_only n (count_sync n)"
  by (simp_all add: peer_only_def nn_storage_def bump_def record_propagation_def count_sync_def)

lemma sender_seen_frame [frame]: "peer_only n (sender_seen out p n)"
  by (simp add: sender_seen_def frame)

text \<open>Chaining: a step that keeps the core after steps that kept it.\<close>
lemma frame_after: "peer_only n m \<Longrightarrow> (\<And>k. peer_only k (f k)) \<Longrightarrow> peer_only n (f m)"
  using peer_only_trans by blast

lemma authenticate_frame [frame]: "peer_only n (snd (authenticate_request C out e p a n))"
  by (auto simp: authenticate_request_def frame split: option.splits prod.splits sum.splits verdict.splits)

lemma adopt_peer_frame: "adopt_peer out v n = (r, n') \<Longrightarrow> peer_only n n'"
proof -
  assume a: "adopt_peer out v n = (r, n')"
  have f: "peer_only n m" if "node_register out x i n = (u, m)" for x i u m
    using node_register_frame [of n out x i] that by simp
  show ?thesis
    using a
    by (auto simp: adopt_peer_def Let_def f split: if_splits sum.splits prod.splits verdict.splits pyval.splits
        intro: peer_only_trans [OF f node_update_frame(4)])
qed

lemma adopt_peers_frame: "adopt_peers out vs k n = (r, n') \<Longrightarrow> peer_only n n'"
  by (induction out vs k n rule: adopt_peers.induct)
    (auto split: prod.splits sum.splits dest!: adopt_peer_frame intro: peer_only_trans)

lemma ask_peer_frame: "ask_peer out a k n = (r, n') \<Longrightarrow> peer_only n n'"
  by (auto simp: ask_peer_def Let_def frame split: if_splits sum.splits option.splits
      dest!: adopt_peers_frame intro: peer_only_trans [OF node_mark_frame(1)])

lemma ask_peers_frame: "ask_peers out as k n = (r, n') \<Longrightarrow> peer_only n n'"
  by (induction out as k n rule: ask_peers.induct)
    (auto split: prod.splits sum.splits dest!: ask_peer_frame intro: peer_only_trans)

lemma discover_peers_frame: "discover_peers out n = (r, n') \<Longrightarrow> peer_only n n'"
  unfolding discover_peers_def by (rule ask_peers_frame)

lemma bootstrap_peer_frame: "bootstrap_peer C out a n = (r, n') \<Longrightarrow> peer_only n n'"
  by (auto simp: bootstrap_peer_def Let_def frame split: sum.splits option.splits if_splits)

lemma discover_bootstrap_frame [frame]: "peer_only n (discover_bootstrap_peers C out n)"
proof -
  have "peer_only n (fold (\<lambda>a n. case bootstrap_peer C out a n of
               (Inr (Some sid), n') \<Rightarrow> node_mark_seen out a ''online'' sid n'
             | (_, n') \<Rightarrow> node_mark_failure out a n') as n)" for as
  proof (induction as arbitrary: n)
    case (Cons a as)
    have "peer_only n (case bootstrap_peer C out a n of
               (Inr (Some sid), n') \<Rightarrow> node_mark_seen out a ''online'' sid n'
             | (_, n') \<Rightarrow> node_mark_failure out a n')"
      by (auto split: prod.splits sum.splits option.splits dest!: bootstrap_peer_frame
          intro: peer_only_trans [OF _ node_mark_frame(1)] peer_only_trans [OF _ node_mark_frame(2)])
    with Cons.IH show ?case by (auto intro: peer_only_trans)
  qed simp
  then show ?thesis by (simp add: discover_bootstrap_peers_def)
qed

lemma start_frame [frame]: "peer_only n (start C out n)"
proof -
  have m: "peer_only n (n\<lparr>nn_lifecycle := STARTING, nn_stop_event := Some False\<rparr>)"
    "peer_only k (k\<lparr>nn_lifecycle := RUNNING, nn_background_tasks := t\<rparr>)" for k t
    by (simp_all add: peer_only_def nn_storage_def)
  show ?thesis unfolding start_def Let_def
    by (auto intro: m(1) [THEN peer_only_trans, OF discover_bootstrap_frame [THEN peer_only_trans, OF m(2)]])
qed

lemma stop_frame [frame]: "peer_only n (stop n)"
  by (simp add: stop_def peer_only_def nn_storage_def)

lemma relay_to_frame: "relay_to C out d send ex a n = (r, n') \<Longrightarrow> peer_only n n'"
  by (auto simp: relay_to_def frame split: if_splits sum.splits option.splits)

lemma relay_frame: "relay C out d send ex as acks n = (r, n') \<Longrightarrow> peer_only n n'"
  by (induction C out d send ex as acks n rule: relay.induct)
    (auto split: prod.splits sum.splits dest!: relay_to_frame intro: peer_only_trans)

lemma broadcast_block_frame: "broadcast_block C out b ex n = (r, n') \<Longrightarrow> peer_only n n'"
  by (auto simp: broadcast_block_def Let_def frame split: sum.splits prod.splits dest!: relay_frame
      intro: peer_only_trans [OF node_update_frame(2)] peer_only_trans [OF _ node_update_frame(9)])

lemma broadcast_transaction_frame: "broadcast_transaction C out tx ex n = (r, n') \<Longrightarrow> peer_only n n'"
  by (auto simp: broadcast_transaction_def Let_def frame split: sum.splits prod.splits dest!: relay_frame
      intro: peer_only_trans [OF node_update_frame(3)] peer_only_trans [OF _ node_update_frame(9)])

section \<open>Chain operations leave the credentials alone\<close>

lemma apply_tx_credentials [simp]:
  "peer_credentials_table (apply_tx tx st) = peer_credentials_table st"
  "peer_credentials_table (unapply_tx tx st) = peer_credentials_table st"
  by (simp_all add: apply_tx_def unapply_tx_def apply_balance_delta_def split: option.splits)

lemma update_balances_credentials [simp]:
  "peer_credentials_table (update_balances_for_block b st) = peer_credentials_table st"
proof -
  have "peer_credentials_table (fold apply_tx txs st) = peer_credentials_table st" for txs
    by (induction txs arbitrary: st) simp_all
  then show ?thesis by (simp add: update_balances_for_block_def)
qed

lemma insert_row_credentials:
  "insert_block_row b st = Inr st' \<Longrightarrow> peer_credentials_table st' = peer_credentials_table st"
  "insert_tx_row i tx st = Inr st' \<Longrightarrow> peer_credentials_table st' = peer_credentials_table st"
  by (auto simp: insert_block_row_def insert_tx_row_def split: sum.splits if_splits)

lemma insert_tx_rows_credentials:
  "insert_tx_rows i txs st = Inr st' \<Longrightarrow> peer_credentials_table st' = peer_credentials_table st"
  by (induction i txs st rule: insert_tx_rows.induct) (auto split: sum.splits dest: insert_row_credentials(2))

lemma save_block_credentials:
  "save_block b st = Inr st' \<Longrightarrow> peer_credentials_table st' = peer_credentials_table st"
  by (auto simp: save_block_def split: sum.splits dest!: insert_tx_rows_credentials dest: insert_row_credentials(1))

lemma reverse_txs_credentials:
  "reverse_txs now ds st = Inr st' \<Longrightarrow> peer_credentials_table st' = peer_credentials_table st"
  by (induction now ds st rule: reverse_txs.induct) (auto split: sum.splits)

lemma reverse_blocks_credentials:
  "reverse_blocks now rs st = Inr st' \<Longrightarrow> peer_credentials_table st' = peer_credentials_table st"
  by (induction now rs st rule: reverse_blocks.induct) (auto split: sum.splits dest: reverse_txs_credentials)

lemma write_txs_credentials:
  "write_txs i txs st = Inr st' \<Longrightarrow> peer_credentials_table st' = peer_credentials_table st"
  by (induction i txs st rule: write_txs.induct) (auto split: sum.splits dest: insert_row_credentials(2))

lemma write_blocks_credentials:
  "write_blocks bs st = Inr st' \<Longrightarrow> peer_credentials_table st' = peer_credentials_table st"
proof (induction bs arbitrary: st)
  case (Cons b bs)
  obtain st1 st2 where w: "insert_block_row b st = Inr st1" "write_txs (index b) (transactions b) st1 = Inr st2"
    "write_blocks bs st2 = Inr st'"
    using Cons.prems by (auto split: sum.splits)
  from Cons.IH [OF w(3)] write_txs_credentials [OF w(2)] insert_row_credentials(1) [OF w(1)] show ?case by simp
qed simp

lemma reorganize_credentials:
  assumes "reorganize_from now i bs st = Inr st'"
  shows "peer_credentials_table st' = peer_credentials_table st"
proof -
  obtain st1 bt tt where "reverse_blocks now (map snd (rev (sort_key fst (filter (\<lambda>r. fst r \<ge> i) (blocks_table st))))) st = Inr st1"
    and w: "write_blocks bs (st1\<lparr>transactions_table := tt, blocks_table := bt\<rparr>) = Inr st'"
    using assms by (simp add: reorganize_from_def Let_def split: sum.splits)
  then show ?thesis using reverse_blocks_credentials write_blocks_credentials [OF w] by simp
qed

section \<open>Receiving\<close>

lemma append_received_cases:
  assumes "append_received C b bc = (r, bc')"
  obtains (refused) "bc' = bc" "r \<noteq> Inr Valid"
    | (unsaved) e where "r = Inl e" "save_block b (bc_storage bc) = Inl e"
        "bc' = bc\<lparr>bc_chain := bc_chain bc @ [b]\<rparr>"
    | (appended) st where "r = Inr Valid" "index b = index (latest_block bc) + 1"
        "validate_block_against_chain C (bc_consensus bc) (consensus_cfg (bc_settings bc)) (reward_of bc)
           MAX_SUPPLY_BASE_UNITS b (bc_chain bc) = Inr Valid"
        "save_block b (bc_storage bc) = Inr st"
        "bc' = bc\<lparr>bc_chain := bc_chain bc @ [b], bc_storage := update_balances_for_block b st,
                 bc_mempool := remove_transactions (map tx_hash (transactions b)) (bc_mempool bc)\<rparr>"
proof (cases "index b = index (latest_block bc) + 1 \<and>
    validate_block_against_chain C (bc_consensus bc) (consensus_cfg (bc_settings bc)) (reward_of bc)
      MAX_SUPPLY_BASE_UNITS b (bc_chain bc) = Inr Valid")
  case False
  then show thesis using assms refused
    by (auto simp: append_received_def split: if_splits sum.splits verdict.splits)
next
  case True
  then show thesis using assms unsaved appended
    by (cases "save_block b (bc_storage bc)") (auto simp: append_received_def)
qed

text \<open>With the default supply the section under the lock is the core's \<open>commit_block\<close>.\<close>
lemma append_received_commit:
  assumes "max_supply_of bc = MAX_SUPPLY_BASE_UNITS" "append_received C b bc = (Inr Valid, bc')"
  shows "commit_block C (b, map tx_hash (transactions b)) bc = (Inr b, bc')"
  using assms(2)
  by (cases rule: append_received_cases) (simp_all add: commit_block_def validate_next_def assms(1))

lemma receive_block_cases:
  assumes "receive_block C out d from_peer e n = (r, n')"
  obtains (refused) "peer_only n n'" "\<And>rb. r \<noteq> Inr (Valid, rb)"
    | (unsaved) err where "r = Inl err"
    | (accepted) n1 b bc where "authenticate_request C out e (Some d) from_peer n = (Inr Valid, n1)"
        "blk_from_dict \<lfloor>o_time out\<rfloor> d = Inr b" "\<not> bs_contains (block_hash b) (nn_seen_blocks n1)"
        "append_received C b (nn_blockchain n1) = (Inr Valid, bc)" "r = Inr (Valid, True)"
        "n' = sender_seen out from_peer (record_propagation ''blocks'' 0 1
           (n1\<lparr>nn_seen_blocks := bs_add (block_hash b) (nn_seen_blocks n1), nn_blockchain := bc\<rparr>))"
proof -
  obtain v n1 where au: "authenticate_request C out e (Some d) from_peer n = (v, n1)" by fastforce
  have f: "peer_only n n1" using authenticate_frame [of n C out e "Some d" from_peer] au by simp
  have g: "peer_only n (n1\<lparr>nn_seen_blocks := s\<rparr>)" for s by (rule peer_only_trans [OF f node_update_frame(2)])
  show thesis
  proof (cases "v = Inr Valid")
    case False
    then show thesis using assms au f refused
      by (auto simp: receive_block_def split: sum.splits verdict.splits)
  next
    case True
    note a = assms [unfolded receive_block_def au True, simplified]
    show thesis
    proof (cases "blk_from_dict \<lfloor>o_time out\<rfloor> d")
      case (Inl err)
      then show thesis using a f refused by (auto split: if_splits)
    next
      case (Inr b)
      let ?n2 = "n1\<lparr>nn_seen_blocks := bs_add (block_hash b) (nn_seen_blocks n1)\<rparr>"
      consider "bs_contains (block_hash b) (nn_seen_blocks n1)"
        | "\<not> bs_contains (block_hash b) (nn_seen_blocks n1)"
          "(case get_block (index b) (nn_blockchain n1) of
              None \<Rightarrow> False | Some old \<Rightarrow> block_hash old = block_hash b)"
        | "\<not> bs_contains (block_hash b) (nn_seen_blocks n1)"
          "\<not> (case get_block (index b) (nn_blockchain n1) of
              None \<Rightarrow> False | Some old \<Rightarrow> block_hash old = block_hash b)" by blast
      then show thesis
      proof cases
        case 1 then show thesis using a Inr f refused by auto
      next
        case 2 then show thesis using a Inr g refused by (auto simp: Let_def)
      next
        case 3
        obtain w bc where ap: "append_received C b (nn_blockchain n1) = (w, bc)" by fastforce
        have same: "n1\<lparr>nn_seen_blocks := s, nn_blockchain := nn_blockchain n1\<rparr> = n1\<lparr>nn_seen_blocks := s\<rparr>" for s
          by simp
        have a': "(case (w, bc) of
            (Inl err, bc) \<Rightarrow> (Inl err, ?n2\<lparr>nn_blockchain := bc\<rparr>)
          | (Inr (Invalid r), bc) \<Rightarrow> (Inr (Invalid r, False), ?n2\<lparr>nn_blockchain := bc\<rparr>)
          | (Inr Valid, bc) \<Rightarrow>
              (Inr (Valid, True),
               sender_seen out from_peer (record_propagation ''blocks'' 0 1 (?n2\<lparr>nn_blockchain := bc\<rparr>)))) = (r, n')"
          using a 3 unfolding Inr Let_def by (simp add: ap)
        show thesis
          using ap
        proof (cases rule: append_received_cases)
          case refused
          with a' 3 g same show thesis
            by (intro that(1)) (auto split: sum.splits verdict.splits)
        next
          case (unsaved err)
          with a' 3 show thesis by (intro that(2)) auto
        next
          case (appended st)
          with a' 3 au True Inr ap show thesis by (intro that(3)) auto
        qed
      qed
    qed
  qed
qed

lemma receive_transaction_cases:
  assumes "receive_transaction C out d from_peer e n = (r, n')"
  obtains (refused) "peer_only n n'" "\<And>rb. r \<noteq> Inr (Valid, rb)"
    | (accepted) n1 tx bc where "authenticate_request C out e (Some d) from_peer n = (Inr Valid, n1)"
        "tx_from_dict \<lfloor>o_time out\<rfloor> d = Inr tx" "\<not> bs_contains (tx_hash tx) (nn_seen_transactions n1)"
        "submit_transaction C tx (nn_blockchain n1) = (Valid, bc)" "r = Inr (Valid, True)"
        "n' = sender_seen out from_peer (record_propagation ''transactions'' 0 1
           (n1\<lparr>nn_seen_transactions := bs_add (tx_hash tx) (nn_seen_transactions n1), nn_blockchain := bc\<rparr>))"
proof -
  obtain v n1 where au: "authenticate_request C out e (Some d) from_peer n = (v, n1)" by fastforce
  have f: "peer_only n n1" using authenticate_frame [of n C out e "Some d" from_peer] au by simp
  have g: "peer_only n (n1\<lparr>nn_seen_transactions := s\<rparr>)" for s by (rule peer_only_trans [OF f node_update_frame(3)])
  consider "v \<noteq> Inr Valid" | err where "v = Inr Valid" "tx_from_dict \<lfloor>o_time out\<rfloor> d = Inl err"
    | tx where "v = Inr Valid" "tx_from_dict \<lfloor>o_time out\<rfloor> d = Inr tx"
        "bs_contains (tx_hash tx) (nn_seen_transactions n1) \<or>
         mempool_contains (tx_hash tx) (bc_mempool (nn_blockchain n1))"
    | tx where "v = Inr Valid" "tx_from_dict \<lfloor>o_time out\<rfloor> d = Inr tx"
        "\<not> bs_contains (tx_hash tx) (nn_seen_transactions n1)"
        "\<not> mempool_contains (tx_hash tx) (bc_mempool (nn_blockchain n1))"
    by (cases "tx_from_dict \<lfloor>o_time out\<rfloor> d") auto
  then show thesis
  proof cases
    case 1
    with assms au f refused show thesis by (auto simp: receive_transaction_def split: sum.splits verdict.splits)
  next
    case 2
    with assms au f refused show thesis by (auto simp: receive_transaction_def split: if_splits)
  next
    case 3
    with assms au f g refused show thesis by (auto simp: receive_transaction_def Let_def split: if_splits)
  next
    case (4 tx)
    obtain w bc where s: "submit_transaction C tx (nn_blockchain n1) = (w, bc)" by fastforce
    show thesis
      using s
    proof (cases rule: submit_transaction_cases)
      case (rejected q)
      with assms au 4 s g have "peer_only n n'" "\<And>rb. r \<noteq> Inr (Valid, rb)"
        by (auto simp: receive_transaction_def Let_def)
      then show thesis by (rule refused)
    next
      case a: accepted
      with assms au 4 s show thesis by (intro accepted [of n1 tx bc]) (auto simp: receive_transaction_def)
    qed
  qed
qed

section \<open>Synchronising\<close>

lemma adopt_candidate_cases:
  assumes "adopt_candidate C out a cand n = (r, n')"
  obtains (refused) "peer_only n n'" "\<And>s. r = Inr s \<Longrightarrow> sync_verdict s \<noteq> Valid"
    | (adopted) bc s where "replace_chain C \<lfloor>o_time out\<rfloor> cand (nn_blockchain n) = (Inr Valid, bc)"
        "r = Inr s" "sync_verdict s = Valid" "local_length_after s = bc_length bc"
        "n' = node_mark_seen out a ''online'' None (n\<lparr>nn_blockchain := bc\<rparr>)"
proof -
  obtain v bc where rc: "replace_chain C \<lfloor>o_time out\<rfloor> cand (nn_blockchain n) = (v, bc)" by fastforce
  show thesis
    using rc
  proof (cases rule: replace_chain_cases)
    case r: refused
    with rc assms have "peer_only n n' \<and> (\<forall>s. r = Inr s \<longrightarrow> sync_verdict s \<noteq> Valid)"
      by (cases v) (auto simp: adopt_candidate_def frame split: verdict.splits if_splits)
    then show thesis by (intro refused) auto
  next
    case (adopted st)
    with rc assms show thesis by (intro that(2) [of bc]) (auto simp: adopt_candidate_def)
  qed
qed

text \<open>The blocks an answer holds.\<close>

definition served :: "outside \<Rightarrow> block set" where
  "served out = {b. \<exists>req code d raw v. o_http out req = Response code (Some (PDict d)) \<and>
     map_of d ''chain'' = Some (PList raw) \<and> v \<in> set raw \<and> blk_from_pyval \<lfloor>o_time out\<rfloor> v = Inr b}"

lemma blk_from_pyval_wire: "blk_from_pyval now v = Inr b \<Longrightarrow> wire_block b"
  by (cases v) (auto intro: blk_from_dict_wire)

lemma get_chain_http:
  "get_chain (client_of out n) a = Inr (Some v) \<Longrightarrow> \<exists>req code. o_http out req = Response code (Some v)"
  unfolding get_chain_def client_get_def by (drule client_call_valid) (auto simp: client_of_def)

lemma parse_candidate_Inr:
  "parse_candidate_chain now raw mx = Inr (Inr cand) \<Longrightarrow>
   map_result (blk_from_pyval now) raw = Inr cand \<and> int (length raw) \<le> mx"
  by (auto simp: parse_candidate_chain_def split: if_splits sum.splits)

lemma sync_with_peer_cases:
  assumes "sync_with_peer C out a n = (r, n')"
  obtains (refused) "peer_only n n'" "\<And>s. r = Inr s \<Longrightarrow> sync_verdict s \<noteq> Valid"
    | (answered) d raw cand where
        "validate_peer_address (o_dns out) (PStr a) (allow_private_peer_addresses (p2p_cfg (nn_settings n))) = Inr Valid"
        "node_is_eligible out a n" "get_chain (client_of out n) a = Inr (Some (PDict d))"
        "map_of d ''chain'' = Some (PList raw)" "map_result (blk_from_pyval \<lfloor>o_time out\<rfloor>) raw = Inr cand"
        "int (length raw) \<le> max_sync_blocks (p2p_cfg (nn_settings n))" "set cand \<subseteq> served out"
        "adopt_candidate C out a cand (count_sync n) = (r, n')"
proof -
  have f: "peer_only n (count_sync n)" "peer_only n (node_mark_failure out a (count_sync n))"
    using peer_only_trans [OF node_update_frame(10) node_mark_frame(2)] by (auto simp: frame)
  show thesis
  proof (cases "\<exists>payload v. validate_peer_address (o_dns out) (PStr a)
        (allow_private_peer_addresses (p2p_cfg (nn_settings n))) = Inr Valid \<and> node_is_eligible out a n \<and>
      get_chain (client_of out n) a = Inr (Some payload) \<and> py_get ''chain'' PNone payload = Inr v")
    case False
    with assms f show thesis
      by (intro refused) (auto simp: sync_with_peer_def sync_failed_def split: sum.splits verdict.splits option.splits if_splits)
  next
    case True
    then obtain payload v where p: "validate_peer_address (o_dns out) (PStr a)
        (allow_private_peer_addresses (p2p_cfg (nn_settings n))) = Inr Valid" "node_is_eligible out a n"
      "get_chain (client_of out n) a = Inr (Some payload)" "py_get ''chain'' PNone payload = Inr v" by blast
    note s = assms [unfolded sync_with_peer_def p, simplified p, simplified]
    show thesis
    proof (cases "\<exists>raw cand. v = PList raw \<and> raw \<noteq> [] \<and>
        parse_candidate_chain \<lfloor>o_time out\<rfloor> raw (max_sync_blocks (p2p_cfg (nn_settings n))) = Inr (Inr cand)")
      case False
      with s f p(4) show thesis
        by (intro refused) (auto simp: sync_failed_def split: pyval.splits sum.splits if_splits)
    next
      case True
      then obtain raw cand where c: "v = PList raw" "raw \<noteq> []"
        "parse_candidate_chain \<lfloor>o_time out\<rfloor> raw (max_sync_blocks (p2p_cfg (nn_settings n))) = Inr (Inr cand)" by blast
      note q = parse_candidate_Inr [OF c(3)]
      obtain d where d: "payload = PDict d" "map_of d ''chain'' = Some (PList raw)"
        using p(4) c(1) by (cases payload) (auto split: option.splits)
      obtain req code where h: "o_http out req = Response code (Some (PDict d))"
        using get_chain_http [OF p(3)] d(1) by blast
      have "set cand \<subseteq> served out"
      proof
        fix b assume "b \<in> set cand"
        from map_result_set [OF q [THEN conjunct1] this]
        obtain x where "x \<in> set raw" "blk_from_pyval \<lfloor>o_time out\<rfloor> x = Inr b" by (elim bexE)
        with h d(2) show "b \<in> served out" unfolding served_def mem_Collect_eq by (intro exI conjI)
      qed
      moreover have "adopt_candidate C out a cand (count_sync n) = (r, n')" using s p(4) c by simp
      ultimately show thesis
        by (rule answered [OF p(1,2) p(3) [unfolded d(1)] d(2) q [THEN conjunct1] q [THEN conjunct2]])
    qed
  qed
qed

section \<open>The step relation\<close>

text \<open>\<open>U\<close> is the set of blocks in play: the node's own and those that reach it.  A step is one
  operation that returns; the outcome in which the database refuses a validated block is not a
  step.\<close>

inductive net_step :: "crypto \<Rightarrow> block set \<Rightarrow> network_node \<Rightarrow> network_node \<Rightarrow> bool" for C U where
  mine: "mine_pending_transactions C now a (nn_blockchain n) = (Inr b, bc) \<Longrightarrow> b \<in> U \<Longrightarrow>
    net_step C U n (n\<lparr>nn_blockchain := bc\<rparr>)"
| submit: "wire_tx tx \<Longrightarrow> submit_transaction C tx (nn_blockchain n) = (v, bc) \<Longrightarrow>
    net_step C U n (n\<lparr>nn_blockchain := bc\<rparr>)"
| recv_block: "receive_block C out d p e n = (Inr r, n') \<Longrightarrow>
    (\<And>b. blk_from_dict \<lfloor>o_time out\<rfloor> d = Inr b \<Longrightarrow> b \<in> U) \<Longrightarrow> net_step C U n n'"
| recv_tx: "receive_transaction C out d p e n = (r, n') \<Longrightarrow> net_step C U n n'"
| send_block: "broadcast_block C out b ex n = (q, n') \<Longrightarrow> net_step C U n n'"
| send_tx: "broadcast_transaction C out tx ex n = (q, n') \<Longrightarrow> net_step C U n n'"
| sync_peer: "sync_with_peer C out a n = (s, n') \<Longrightarrow> served out \<subseteq> U \<Longrightarrow> net_step C U n n'"
| maintain: "served out \<subseteq> U \<Longrightarrow> net_step C U n (maintenance_step C out n)"
| discover: "discover_peers out n = (k, n') \<Longrightarrow> net_step C U n n'"
| start_node: "net_step C U n (start C out n)"
| stop_node: "net_step C U n (stop n)"

inductive_cases net_stepE: "net_step C U n n'"

text \<open>What every step keeps: the core invariant, and that the node's blocks are in play.\<close>

definition net_ok :: "crypto \<Rightarrow> block set \<Rightarrow> network_node \<Rightarrow> bool" where
  "net_ok C U n \<longleftrightarrow>
     node_ok C (nn_blockchain n) \<and> bc_consensus (nn_blockchain n) = ProofOfWorkConsensus \<and>
     max_supply_of (nn_blockchain n) = MAX_SUPPLY_BASE_UNITS \<and> set (bc_chain (nn_blockchain n)) \<subseteq> U"

text \<open>How a step may change a node: \<open>net_ok\<close> stays, the chain stays or gains work, the genesis hash,
  the genesis block of the tables and the credentials stay.\<close>

definition progress :: "crypto \<Rightarrow> block set \<Rightarrow> network_node \<Rightarrow> network_node \<Rightarrow> bool" where
  "progress C U n n' \<longleftrightarrow>
     net_ok C U n' \<and>
     (bc_chain (nn_blockchain n') = bc_chain (nn_blockchain n) \<or>
      total_work (nn_blockchain n) < total_work (nn_blockchain n')) \<and>
     block_hash (genesis_block (nn_blockchain n')) = block_hash (genesis_block (nn_blockchain n)) \<and>
     peer_credentials_table (nn_storage n') = peer_credentials_table (nn_storage n) \<and>
     bc_settings (nn_blockchain n') = bc_settings (nn_blockchain n) \<and>
     (\<forall>g. stored_with (nn_blockchain n) g \<longrightarrow> stored_with (nn_blockchain n') g)"

lemma stored_with_core: "stored_with (core_view bc) g \<longleftrightarrow> stored_with bc g"
  using storage_holds_core by (simp add: stored_with_def) (simp add: core_view_def)

lemma progress_trans: "progress C U n m \<Longrightarrow> progress C U m k \<Longrightarrow> progress C U n k"
  unfolding progress_def total_work_def by fastforce

lemma peer_only_progress:
  assumes "peer_only n n'" "net_ok C U n" shows "progress C U n n'"
proof -
  have "max_supply_of (nn_blockchain n') = max_supply_of (nn_blockchain n)"
    using peer_only_settings [OF assms(1)] by (simp add: max_supply_of_def)
  moreover have "stored_with (nn_blockchain n) g \<Longrightarrow> stored_with (nn_blockchain n') g" for g
    using assms(1) stored_with_core unfolding peer_only_def by metis
  ultimately show ?thesis
    using assms peer_only_ok [OF assms(1)] peer_only_chain [OF assms(1)] peer_only_consensus [OF assms(1)]
      peer_only_settings [OF assms(1)]
    by (simp add: progress_def net_ok_def genesis_block_def peer_only_def)
qed

lemma progress_peer_only: "progress C U n m \<Longrightarrow> peer_only m k \<Longrightarrow> progress C U n k"
  using progress_trans peer_only_progress unfolding progress_def by blast

lemma commit_progress:
  assumes ok: "net_ok C U n" and c: "commit_block C (b, hs) (nn_blockchain n) = (Inr b', bc)"
    and b: "wire_block b" "b \<in> U"
  shows "progress C U n (n\<lparr>nn_blockchain := bc\<rparr>)"
  using c
proof (cases rule: commit_block_cases)
  case (saved st)
  have "node_ok C bc" using node_ok_commit [OF _ c b(1)] ok by (simp add: net_ok_def)
  moreover have "stored_with (nn_blockchain n) g \<Longrightarrow> stored_with bc g" for g
    using stored_with_commit [OF _ c b(1)] ok by (simp add: net_ok_def)
  moreover have "total_work (nn_blockchain n) < total_work bc"
    by (simp add: saved(4) total_work_def chain_work_append)
  moreover have "bc_chain (nn_blockchain n) \<noteq> []" using node_ok_chain(3) ok by (auto simp: net_ok_def)
  ultimately show ?thesis using ok b(2) save_block_credentials [OF saved(3)]
    by (simp add: progress_def net_ok_def saved(4) genesis_block_def nn_storage_def max_supply_of_def)
qed simp_all

lemma submit_progress:
  assumes ok: "net_ok C U n" and s: "submit_transaction C tx (nn_blockchain n) = (v, bc)" and "wire_tx tx"
  shows "progress C U n (n\<lparr>nn_blockchain := bc\<rparr>)"
proof -
  obtain m where bc: "bc = (nn_blockchain n)\<lparr>bc_mempool := m\<rparr>"
    using s
  proof (cases rule: submit_transaction_cases)
    case (rejected r)
    then have "bc = (nn_blockchain n)\<lparr>bc_mempool := bc_mempool (nn_blockchain n)\<rparr>" by simp
    then show thesis by (rule that)
  next
    case accepted
    from accepted(4) show thesis by (rule that)
  qed
  have "node_ok C bc" using node_ok_submit [OF _ s assms(3)] ok by (simp add: net_ok_def)
  with ok bc show ?thesis
    by (simp add: progress_def net_ok_def genesis_block_def nn_storage_def max_supply_of_def stored_with_def)
qed

lemma in_play_faithful:
  assumes "inj_on block_hash U" "set chain \<subseteq> U" "set cand \<subseteq> U" "cand \<noteq> []" "chain \<noteq> []"
    "block_hash (hd cand) = block_hash (hd chain)"
  shows "hash_faithful chain cand"
proof -
  have "hd cand = hd chain" using assms by (metis inj_onD list.set_sel(1) subsetD)
  moreover have "cand ! i = chain ! i" if "i < find_fork_index chain cand" for i
  proof (rule inj_onD [OF assms(1)])
    show "block_hash (cand ! i) = block_hash (chain ! i)" using find_fork_index_agree [OF that] by simp
    show "cand ! i \<in> U" "chain ! i \<in> U"
      using that find_fork_index_bounds [of chain cand] assms(2,3) nth_mem [of i] by (meson less_le_trans subsetD)+
  qed
  ultimately show ?thesis by (auto simp: hash_faithful_def header_collision_def sha_collision_def)
qed

lemma replace_progress:
  assumes ok: "net_ok C U n" and r: "replace_chain C now cand (nn_blockchain n) = (Inr Valid, bc)"
    and U: "inj_on block_hash U" "set cand \<subseteq> U" and w: "list_all wire_block cand"
  shows "progress C U n (n\<lparr>nn_blockchain := bc\<rparr>)"
  using r
proof (cases rule: replace_chain_cases)
  case (adopted st)
  have nok: "node_ok C (nn_blockchain n)" "set (bc_chain (nn_blockchain n)) \<subseteq> U"
    using ok by (simp_all add: net_ok_def)
  have faithful: "hash_faithful (bc_chain (nn_blockchain n)) cand"
    using in_play_faithful [OF U(1) nok(2) U(2)] adopted(2,3) node_ok_chain(3) [OF nok(1)]
    by (simp add: genesis_block_def)
  from node_ok_replace [OF nok(1) r w faithful] stored_with_replaced [OF nok(1) r w faithful] show ?thesis
    using ok U(2) adopted(3,4) reorganize_credentials [OF adopted(6)]
    by (simp add: progress_def net_ok_def adopted(7) genesis_block_def nn_storage_def max_supply_of_def total_work_def)
qed simp

section \<open>Every step makes progress\<close>

lemma authenticated_frame:
  "authenticate_request C out e p a n = (v, n1) \<Longrightarrow> peer_only n n1"
  using authenticate_frame [of n C out e p a] by simp

lemma receive_block_progress:
  assumes ok: "net_ok C U n" and r: "receive_block C out d p e n = (Inr r, n')"
    and U: "\<And>b. blk_from_dict \<lfloor>o_time out\<rfloor> d = Inr b \<Longrightarrow> b \<in> U"
  shows "progress C U n n'"
  using r
proof (cases rule: receive_block_cases)
  case refused
  then show ?thesis using peer_only_progress ok by blast
next
  case (accepted n1 b bc)
  let ?n2 = "n1\<lparr>nn_seen_blocks := bs_add (block_hash b) (nn_seen_blocks n1)\<rparr>"
  have p1: "progress C U n ?n2"
    by (rule peer_only_progress [OF peer_only_trans [OF authenticated_frame [OF accepted(1)] node_update_frame(2)] ok])
  then have ok2: "net_ok C U ?n2" by (simp add: progress_def)
  have "commit_block C (b, map tx_hash (transactions b)) (nn_blockchain ?n2) = (Inr b, bc)"
    using append_received_commit accepted(4) ok2 by (simp add: net_ok_def)
  from commit_progress [OF ok2 this blk_from_dict_wire [OF accepted(2)] U [OF accepted(2)]]
  have "progress C U n (?n2\<lparr>nn_blockchain := bc\<rparr>)" by (rule progress_trans [OF p1])
  then show ?thesis unfolding accepted(6)
    by (rule progress_peer_only) (rule peer_only_trans [OF node_update_frame(9) sender_seen_frame])
qed simp

lemma receive_transaction_progress:
  assumes ok: "net_ok C U n" and r: "receive_transaction C out d p e n = (r, n')"
  shows "progress C U n n'"
  using r
proof (cases rule: receive_transaction_cases)
  case refused
  then show ?thesis using peer_only_progress ok by blast
next
  case (accepted n1 tx bc)
  let ?n2 = "n1\<lparr>nn_seen_transactions := bs_add (tx_hash tx) (nn_seen_transactions n1)\<rparr>"
  have p1: "progress C U n ?n2"
    by (rule peer_only_progress [OF peer_only_trans [OF authenticated_frame [OF accepted(1)] node_update_frame(3)] ok])
  then have "net_ok C U ?n2" by (simp add: progress_def)
  from submit_progress [OF this _ tx_from_dict_wire [OF accepted(2)]] accepted(4)
  have "progress C U n (?n2\<lparr>nn_blockchain := bc\<rparr>)" using progress_trans [OF p1] by simp
  then show ?thesis unfolding accepted(6)
    by (rule progress_peer_only) (rule peer_only_trans [OF node_update_frame(9) sender_seen_frame])
qed

lemma sync_with_peer_progress:
  assumes ok: "net_ok C U n" and s: "sync_with_peer C out a n = (r, n')"
    and U: "inj_on block_hash U" "served out \<subseteq> U"
  shows "progress C U n n'"
  using s
proof (cases rule: sync_with_peer_cases)
  case refused
  then show ?thesis using peer_only_progress ok by blast
next
  case (answered d raw cand)
  have p1: "progress C U n (count_sync n)" by (rule peer_only_progress [OF node_update_frame(10) ok])
  then have ok1: "net_ok C U (count_sync n)" by (simp add: progress_def)
  have w: "list_all wire_block cand"
    using map_result_set [OF answered(5)] blk_from_pyval_wire by (fastforce simp: list_all_iff)
  show ?thesis
    using answered(8)
  proof (cases rule: adopt_candidate_cases)
    case refused
    then show ?thesis by (intro progress_peer_only [OF p1])
  next
    case (adopted bc s)
    from replace_progress [OF ok1 adopted(1) U(1) _ w] answered(7) U(2)
    have "progress C U n ((count_sync n)\<lparr>nn_blockchain := bc\<rparr>)" using progress_trans [OF p1] by blast
    then show ?thesis unfolding adopted(5) by (rule progress_peer_only [OF _ node_mark_frame(1)])
  qed
qed

lemma sync_peers_progress:
  assumes "inj_on block_hash U" "served out \<subseteq> U"
  shows "net_ok C U n \<Longrightarrow> sync_peers C out as rs n = (r, n') \<Longrightarrow> progress C U n n'"
proof (induction as arbitrary: rs n)
  case Nil
  then show ?case using peer_only_progress by auto
next
  case (Cons a as)
  obtain x m where m: "sync_with_peer C out a n = (x, m)" by fastforce
  note p = sync_with_peer_progress [OF Cons.prems(1) m assms]
  then have "net_ok C U m" by (simp add: progress_def)
  with Cons m p show ?case by (cases x) (auto intro: progress_trans)
qed

lemma maintenance_progress:
  assumes ok: "net_ok C U n" and U: "inj_on block_hash U" "served out \<subseteq> U"
  shows "progress C U n (maintenance_step C out n)"
proof -
  obtain k n1 where d: "discover_peers out n = (k, n1)" by fastforce
  obtain rs n2 where s: "sync_with_all_peers C out (n1\<lparr>nn_lifecycle := SYNCING\<rparr>) = (rs, n2)" by fastforce
  have p0: "progress C U n n" by (rule peer_only_progress [OF peer_only_refl ok])
  have p1: "progress C U n (n1\<lparr>nn_lifecycle := l\<rparr>)" for l
    by (rule peer_only_progress [OF peer_only_trans [OF discover_peers_frame [OF d] node_update_frame(5)] ok])
  then have "net_ok C U (n1\<lparr>nn_lifecycle := SYNCING\<rparr>)" by (simp add: progress_def)
  from sync_peers_progress [OF U this s [unfolded sync_with_all_peers_def]]
  have p2: "progress C U n (n2\<lparr>nn_lifecycle := l\<rparr>)" for l
    by (rule progress_peer_only [OF progress_trans [OF p1] node_update_frame(5)])
  show ?thesis using p0 p1 p2 by (auto simp: maintenance_step_def d s split: sum.splits)
qed

lemma net_step_progress:
  assumes "net_step C U n n'" and ok: "net_ok C U n" and U: "inj_on block_hash U"
  shows "progress C U n n'"
  using assms(1)
proof (cases rule: net_step.cases)
  case (mine now a b bc)
  then obtain hs b0 where p: "prepare_block now a (nn_blockchain n) = Inr (b0, hs)"
    "commit_block C (b0, hs) (nn_blockchain n) = (Inr b, bc)"
    by (auto simp: mine_pending_transactions_def split: sum.splits)
  have "b = b0" using p(2) by (elim commit_block_cases) auto
  moreover have "wire_block b0" using prepared_wire [of C, OF _ _ p(1)] ok by (simp add: net_ok_def)
  ultimately show ?thesis using commit_progress [OF ok p(2)] mine by simp
next
  case submit
  then show ?thesis using submit_progress [OF ok] by blast
next
  case recv_block
  then show ?thesis using receive_block_progress [OF ok] by blast
next
  case recv_tx
  then show ?thesis using receive_transaction_progress [OF ok] by blast
next
  case sync_peer
  then show ?thesis using sync_with_peer_progress [OF ok _ U] by blast
next
  case maintain
  then show ?thesis using maintenance_progress [OF ok U] by blast
qed (auto intro!: peer_only_progress [OF _ ok] start_frame stop_frame
    intro: broadcast_block_frame broadcast_transaction_frame discover_peers_frame)

lemma net_steps_progress:
  assumes "(net_step C U)\<^sup>*\<^sup>* n n'" "net_ok C U n" "inj_on block_hash U"
  shows "progress C U n n'"
  using assms(1)
proof (induction rule: rtranclp_induct)
  case base
  then show ?case by (rule peer_only_progress [OF peer_only_refl assms(2)])
next
  case (step m k)
  then have "net_ok C U m" by (simp add: progress_def)
  from net_step_progress [OF step(2) this assms(3)] show ?case by (rule progress_trans [OF step.IH])
qed

end
