(* ===== verification/Network_Properties.thy ===== *)
theory Network_Properties
  imports Network_Run Handshake_Properties Core_Properties
begin

text \<open>
  Properties of the networked node: its run, what an accepted request proves about the sender, to
  whom data is sent, what synchronisation may adopt, and the behaviours that differ from the comments.
\<close>

section \<open>Construction\<close>

lemma identity_tables_core:
  "core_storage (snd (get_or_create_node_id new_id now st)) = core_storage st"
  "peer_credentials_table (snd (get_or_create_node_id new_id now st)) = peer_credentials_table st"
  "core_storage (snd (get_or_create_p2p_identity fresh i st)) = core_storage st"
  "peer_credentials_table (snd (get_or_create_p2p_identity fresh i st)) = peer_credentials_table st"
  by (auto simp: get_or_create_node_id_def get_or_create_p2p_identity_def core_storage_def
      split: list.splits option.splits)

lemma NetworkNode_base:
  "\<exists>n0. NetworkNode out new_id fresh cfg bc =
      fold (\<lambda>a n. snd (node_register out (PStr a) None n)) (bootstrap_peers (p2p_cfg cfg)) n0 \<and>
    core_view (nn_blockchain n0) = core_view bc \<and>
    peer_credentials_table (nn_storage n0) = peer_credentials_table (bc_storage bc) \<and>
    nn_settings n0 = cfg \<and> ctx_network_name (nn_auth_context n0) = net_name (network_cfg cfg) \<and>
    ctx_genesis_hash (nn_auth_context n0) = block_hash (genesis_block bc) \<and>
    nn_replay_cache n0 = ReplayCache (replay_cache_size (p2p_cfg cfg)) \<and>
    nn_seen_transactions n0 = BoundedSet SEEN_CACHE_SIZE"
proof -
  obtain i st1 where i: "(if node_id_override (p2p_cfg cfg) \<noteq> [] then (node_id_override (p2p_cfg cfg), bc_storage bc)
      else get_or_create_node_id new_id (o_time out) (bc_storage bc)) = (i, st1)" by fastforce
  obtain keys st2 where k: "get_or_create_p2p_identity fresh i st1 = (keys, st2)" by fastforce
  have "core_storage st1 = core_storage (bc_storage bc) \<and>
      peer_credentials_table st1 = peer_credentials_table (bc_storage bc)"
    using i identity_tables_core(1,2) [of new_id "o_time out" "bc_storage bc"] by (auto split: if_splits)
  then have st2: "core_storage st2 = core_storage (bc_storage bc)"
    "peer_credentials_table st2 = peer_credentials_table (bc_storage bc)"
    using k identity_tables_core(3,4) [of fresh i st1] by simp_all
  show ?thesis
    unfolding NetworkNode_def Let_def i prod.case k
    by (rule exI, rule conjI, rule refl) (simp add: core_view_def st2 nn_storage_def AuthContext_def)
qed

lemma register_all_frame:
  defines "reg \<equiv> \<lambda>out. fold (\<lambda>a n. snd (node_register out (PStr a) None n))"
  shows "peer_only n (reg out as n) \<and> nn_replay_cache (reg out as n) = nn_replay_cache n \<and>
    nn_seen_transactions (reg out as n) = nn_seen_transactions n"
  unfolding reg_def
proof (induction as arbitrary: n)
  case (Cons a as)
  have "nn_replay_cache (snd (node_register out (PStr a) None n)) = nn_replay_cache n \<and>
      nn_seen_transactions (snd (node_register out (PStr a) None n)) = nn_seen_transactions n"
    by (simp add: node_register_def with_peers_def split: prod.splits)
  with Cons.IH [of "snd (node_register out (PStr a) None n)"] show ?case
    by (auto intro: peer_only_trans [OF node_register_frame])
qed simp

lemma NetworkNode_facts:
  "core_view (nn_blockchain (NetworkNode out new_id fresh cfg bc)) = core_view bc"
  "peer_credentials_table (nn_storage (NetworkNode out new_id fresh cfg bc)) = peer_credentials_table (bc_storage bc)"
  "nn_settings (NetworkNode out new_id fresh cfg bc) = cfg"
  "ctx_network_name (nn_auth_context (NetworkNode out new_id fresh cfg bc)) = net_name (network_cfg cfg)"
  "ctx_genesis_hash (nn_auth_context (NetworkNode out new_id fresh cfg bc)) = block_hash (genesis_block bc)"
  "nn_replay_cache (NetworkNode out new_id fresh cfg bc) = ReplayCache (replay_cache_size (p2p_cfg cfg))"
  "nn_seen_transactions (NetworkNode out new_id fresh cfg bc) = BoundedSet SEEN_CACHE_SIZE"
  using NetworkNode_base [of out new_id fresh cfg bc] register_all_frame [of _ out "bootstrap_peers (p2p_cfg cfg)"]
  unfolding peer_only_def by metis+

section \<open>Runs\<close>


definition sample_out :: outside where
  "sample_out = \<lparr>o_dns = (\<lambda>_. None), o_http = (\<lambda>_. Unreachable), o_nonce = (\<lambda>a. ''n'' @ a),
     o_time = 1730000010, o_stamp = PDec 1730000000123 2\<rparr>"

definition sample_net :: network_node where
  "sample_net = NetworkNode sample_out ''self'' (''k'', ''pk'') sample_settings sample_node"


section \<open>Receiving\<close>

lemma sender_seen_seen [simp]: "nn_seen_blocks (sender_seen out p n) = nn_seen_blocks n"
  by (simp add: sender_seen_def node_mark_seen_def with_peers_def)

lemma record_propagation_seen [simp]: "nn_seen_blocks (record_propagation kind x y n) = nn_seen_blocks n"
  by (simp add: record_propagation_def bump_def)

lemma bs_contains_add: "0 < max_size s \<Longrightarrow> bs_contains x (bs_add x s)"
  by (cases "order s") (auto simp: bs_add_def bs_contains_def Let_def)

lemma relay_flag:
  "receive_block C out d p e n = (Inr (v, rb), n') \<Longrightarrow> rb = (v = Valid)"
  by (auto simp: receive_block_def Let_def split: prod.splits sum.splits verdict.splits if_splits)

lemma receive_block_seen:
  assumes "blk_from_dict \<lfloor>o_time out\<rfloor> d = Inr b" "bs_contains (block_hash b) (nn_seen_blocks n)"
  shows "fst (receive_block C out d p e n) \<noteq> Inr (Valid, rb)"
proof -
  obtain v n1 where a: "authenticate_request C out e (Some d) p n = (v, n1)" by fastforce
  have "nn_seen_blocks n1 = nn_seen_blocks n"
    using a by (auto simp: authenticate_request_def split: option.splits prod.splits sum.splits verdict.splits)
  with assms a show ?thesis by (auto simp: receive_block_def split: sum.splits verdict.splits)
qed

lemma chain_after_accept:
  assumes "authenticate_request C out e p a n = (v, n1)"
  shows "bc_chain (nn_blockchain n1) = bc_chain (nn_blockchain n)"
    "bc_settings (nn_blockchain n1) = bc_settings (nn_blockchain n)"
    "bc_consensus (nn_blockchain n1) = bc_consensus (nn_blockchain n)"
  using peer_only_chain peer_only_settings peer_only_consensus authenticated_frame [OF assms] by metis+



abbreviation freshness_window :: "network_node \<Rightarrow> rat" where
  "freshness_window n \<equiv> auth_freshness_window_seconds (p2p_cfg (nn_settings n))"

lemma authenticate_request_Valid:
  assumes "authenticate_request C out e p claimed n = (Inr Valid, n1)"
  shows "\<exists>env. e = Some (PDict env) \<and> check_credential claimed (PDict env) n = Valid \<and>
    admissible C (nn_auth_context n) (o_time out) (freshness_window n) env \<and>
    \<not> bs_contains (env_key env) (nn_replay_cache n) \<and> signature_ok C env p"
proof -
  obtain v where e: "e = Some v" "check_credential claimed v n = Valid"
    and ok: "fst (verify_auth_envelope C v p (nn_auth_context n) (o_time out) (freshness_window n)
      (nn_replay_cache n)) = Inr Valid"
    using assms by (auto simp: authenticate_request_def split: option.splits prod.splits sum.splits verdict.splits)
  then obtain env where v: "v = PDict env" by (cases v) (auto simp: verify_auth_envelope_def)
  with e ok show ?thesis unfolding v by (simp add: verify_auth_envelope_iff)
qed


text \<open>A peer with a stored credential, and the pool transaction it sends.\<close>

definition sample_peer_ctx :: auth_context where
  "sample_peer_ctx = AuthContext (P2PIdentity_generate sample_crypto ''node'' 1) (net_name (network_cfg sample_settings))
     (block_hash (genesis_block sample_node)) ''http://a:1''"

definition trusting_net :: network_node where
  "trusting_net = sample_net\<lparr>nn_blockchain := (nn_blockchain sample_net)\<lparr>bc_storage :=
     upsert_peer_credential 0 ''http://a:1'' ''node''
       (ident_public_key_hex (ctx_identity sample_peer_ctx)) True (bc_storage (nn_blockchain sample_net))\<rparr>\<rparr>"

lemma sample_peer_facts:
  "genuine sample_crypto (ctx_identity sample_peer_ctx)" "ident_node_id (ctx_identity sample_peer_ctx) = ''node''"
  "ctx_network_name (nn_auth_context sample_net) = ctx_network_name sample_peer_ctx"
  "ctx_genesis_hash (nn_auth_context sample_net) = ctx_genesis_hash sample_peer_ctx"
  "nn_replay_cache sample_net = ReplayCache 10000" "nn_settings sample_net = sample_settings"
  using sample_genuine
  by (simp_all add: sample_peer_ctx_def sample_ctx_def AuthContext_def P2PIdentity_generate_def case_prod_unfold
      sample_net_def NetworkNode_facts sample_settings_def default_p2p_def)

lemma built_envelope_authenticates:
  assumes "crypto_correct C" "genuine C (ctx_identity ctx)" "ident_node_id (ctx_identity ctx) \<noteq> []"
    and "ctx_network_name (nn_auth_context n) = ctx_network_name ctx"
    and "ctx_genesis_hash (nn_auth_context n) = ctx_genesis_hash ctx"
    and "py_float ts = Inr (Finite t)" "\<bar>o_time out - t\<bar> \<le> freshness_window n" "nce \<noteq> []"
    and "\<not> bs_contains (replay_key (ident_node_id (ctx_identity ctx)) nce) (nn_replay_cache n)"
  shows "\<exists>env. build_auth_envelope C ctx payload ts nce = Inr env \<and>
    env_get env ''node_id'' = PStr (ident_node_id (ctx_identity ctx)) \<and>
    env_get env ''public_key'' = PStr (ident_public_key_hex (ctx_identity ctx)) \<and>
    authenticate_request C out (Some (PDict env)) payload claimed n =
      (Inr (check_credential claimed (PDict env) n),
       n\<lparr>nn_replay_cache := bs_add (replay_key (ident_node_id (ctx_identity ctx)) nce) (nn_replay_cache n)\<rparr>)"
  using build_verifies [OF assms, of payload] by (auto simp: authenticate_request_def)

text \<open>A peer that the receiver stored under an address.\<close>

definition stored_as :: "p2p_identity \<Rightarrow> string \<Rightarrow> network_node \<Rightarrow> bool" where
  "stored_as i a n \<longleftrightarrow>
     (case get_peer_credential a (nn_storage n) of
        None \<Rightarrow> False
      | Some c \<Rightarrow> cred_node_id c = ident_node_id i \<and> cred_public_key_hex c = ident_public_key_hex i)"

lemma check_credential_stored:
  "stored_as i a n \<Longrightarrow> env_get env ''node_id'' = PStr (ident_node_id i) \<Longrightarrow>
   env_get env ''public_key'' = PStr (ident_public_key_hex i) \<Longrightarrow> check_credential (Some a) (PDict env) n = Valid"
  by (auto simp: stored_as_def check_credential_def split: option.splits)

lemma trusted_transaction_received:
  assumes "crypto_correct C" "genuine C (ctx_identity ctx)" "ident_node_id (ctx_identity ctx) \<noteq> []"
    and "ctx_network_name (nn_auth_context n) = ctx_network_name ctx"
    and "ctx_genesis_hash (nn_auth_context n) = ctx_genesis_hash ctx"
    and "py_float ts = Inr (Finite t)" "\<bar>o_time out - t\<bar> \<le> freshness_window n" "nce \<noteq> []"
    and "\<not> bs_contains (replay_key (ident_node_id (ctx_identity ctx)) nce) (nn_replay_cache n)"
    and "stored_as (ctx_identity ctx) a n" "a \<noteq> []"
    and "verify C tx" "wire_tx tx" "\<not> bs_contains (tx_hash tx) (nn_seen_transactions n)"
    and "submit_transaction C tx (nn_blockchain n) = (Valid, bc)"
  shows "\<exists>d env n'. tx_to_dict tx = Inr d \<and> build_auth_envelope C ctx (Some d) ts nce = Inr env \<and>
    receive_transaction C out d (Some a) (Some (PDict env)) n = (Inr (Valid, True), n') \<and>
    bc_mempool (nn_blockchain n') = bc_mempool (nn_blockchain n) @ [(tx_hash tx, tx)]"
proof -
  have st: "storable_tx tx" by (rule verified_storable [OF assms(12,13)])
  let ?d = "tx_dict tx"
  obtain env where env: "build_auth_envelope C ctx (Some ?d) ts nce = Inr env"
    "env_get env ''node_id'' = PStr (ident_node_id (ctx_identity ctx))"
    "env_get env ''public_key'' = PStr (ident_public_key_hex (ctx_identity ctx))"
    "authenticate_request C out (Some (PDict env)) (Some ?d) (Some a) n =
      (Inr (check_credential (Some a) (PDict env) n),
       n\<lparr>nn_replay_cache := bs_add (replay_key (ident_node_id (ctx_identity ctx)) nce) (nn_replay_cache n)\<rparr>)"
    using built_envelope_authenticates [OF assms(1-9)] by blast
  note ok = check_credential_stored [OF assms(10) env(2,3)]
  have pool: "bc_mempool bc = bc_mempool (nn_blockchain n) @ [(tx_hash tx, tx)]"
    "\<not> mempool_contains (tx_hash tx) (bc_mempool (nn_blockchain n))"
    using assms(15) by (auto elim!: submit_transaction_cases simp: add_transaction_iff)
  let ?m = "n\<lparr>nn_replay_cache := bs_add (replay_key (ident_node_id (ctx_identity ctx)) nce) (nn_replay_cache n),
      nn_seen_transactions := bs_add (tx_hash tx) (nn_seen_transactions n), nn_blockchain := bc\<rparr>"
  let ?n' = "sender_seen out (Some a) (record_propagation ''transactions'' 0 1 ?m)"
  have "receive_transaction C out ?d (Some a) (Some (PDict env)) n = (Inr (Valid, True), ?n')"
    using assms(14,15) pool(2) by (simp add: receive_transaction_def env(4) ok storable_tx_from_dict [OF st])
  moreover have "peer_only ?m ?n'" by (rule peer_only_trans [OF node_update_frame(9) sender_seen_frame])
  then have "bc_mempool (nn_blockchain ?n') = bc_mempool bc" using peer_only_mempool by fastforce
  ultimately show ?thesis using storable_tx_to_dict [OF st] env(1) pool(1) by auto
qed

text \<open>C11: what a trusted peer relays arrives: with a correct ECDSA, the receiver accepts the
  transaction the sender broadcasts, when the sender's identity is the one stored for its address,
  both are on the same network and genesis, the clocks differ by at most the freshness window, the
  nonce is new, the transaction is neither seen nor pending, and the receiver's core accepts it; the
  receiver's pool then ends with it and the receiver relays it.\<close>
theorem relayed_transaction_arrives:
  assumes "crypto_correct C" "genuine C (ctx_identity ctx)" "ident_node_id (ctx_identity ctx) \<noteq> []"
    and "ctx_network_name (nn_auth_context n) = ctx_network_name ctx"
    and "ctx_genesis_hash (nn_auth_context n) = ctx_genesis_hash ctx"
    and "py_float ts = Inr (Finite t)" "\<bar>o_time out - t\<bar> \<le> freshness_window n" "nce \<noteq> []"
    and "\<not> bs_contains (replay_key (ident_node_id (ctx_identity ctx)) nce) (nn_replay_cache n)"
    and "stored_as (ctx_identity ctx) a n" "a \<noteq> []"
    and "verify C tx" "wire_tx tx" "\<not> bs_contains (tx_hash tx) (nn_seen_transactions n)"
    and "submit_transaction C tx (nn_blockchain n) = (Valid, bc)"
  shows "\<exists>d env n'. tx_to_dict tx = Inr d \<and> build_auth_envelope C ctx (Some d) ts nce = Inr env \<and>
    receive_transaction C out d (Some a) (Some (PDict env)) n = (Inr (Valid, True), n') \<and>
    bc_mempool (nn_blockchain n') = bc_mempool (nn_blockchain n) @ [(tx_hash tx, tx)]"
  using trusted_transaction_received [OF assms] by blast

lemma trusting_net_facts:
  "stored_as (ctx_identity sample_peer_ctx) ''http://a:1'' trusting_net"
  "nn_auth_context trusting_net = nn_auth_context sample_net" "nn_settings trusting_net = sample_settings"
  "nn_replay_cache trusting_net = ReplayCache 10000"
  "nn_seen_transactions trusting_net = nn_seen_transactions sample_net"
  using sample_peer_facts
  by (simp_all add: trusting_net_def stored_as_def nn_storage_def get_peer_credential_def upsert_peer_credential_def)

lemma trusting_net_core:
  "core_view (nn_blockchain trusting_net) = core_view sample_node" "nn_seen_transactions trusting_net = BoundedSet 5000"
proof -
  have "core_view (nn_blockchain trusting_net) = core_view (nn_blockchain sample_net)"
    by (simp add: trusting_net_def core_view_def core_storage_def upsert_peer_credential_def)
  then show "core_view (nn_blockchain trusting_net) = core_view sample_node"
    by (simp add: sample_net_def NetworkNode_facts(1))
  show "nn_seen_transactions trusting_net = BoundedSet 5000"
    unfolding trusting_net_facts(5) by (simp add: sample_net_def NetworkNode_facts(7) SEEN_CACHE_SIZE_def)
qed

lemma trusting_net_submit:
  "\<exists>bc. submit_transaction sample_crypto sample_coinbase (nn_blockchain trusting_net) = (Valid, bc)"
proof -
  have "bc_mempool (nn_blockchain trusting_net) = []"
    using core_view_simps(4) trusting_net_core(1) sample_empty_pool by metis
  then show ?thesis using sample_coinbase_valid sample_coinbase_verifies
    by (simp add: submit_transaction_def Let_def add_transaction_def)
qed

lemma sample_arrival_conditions:
  "ident_node_id (ctx_identity sample_peer_ctx) \<noteq> []"
  "ctx_network_name (nn_auth_context trusting_net) = ctx_network_name sample_peer_ctx"
  "ctx_genesis_hash (nn_auth_context trusting_net) = ctx_genesis_hash sample_peer_ctx"
  "py_float (o_stamp sample_out) = Inr (Finite (1730000000123 / 1000))"
  "\<bar>o_time sample_out - 1730000000123 / 1000\<bar> \<le> freshness_window trusting_net" "''ab'' \<noteq> []"
  "\<not> bs_contains (replay_key (ident_node_id (ctx_identity sample_peer_ctx)) ''ab'') (nn_replay_cache trusting_net)"
  by (simp_all add: sample_peer_facts trusting_net_facts ReplayCache_def BoundedSet_def bs_contains_def
      sample_settings_def default_p2p_def) (simp_all add: sample_out_def)

lemma sample_transaction_conditions:
  "stored_as (ctx_identity sample_peer_ctx) ''http://a:1'' trusting_net" "''http://a:1'' \<noteq> []"
  "verify sample_crypto sample_coinbase" "wire_tx sample_coinbase"
  "\<not> bs_contains (tx_hash sample_coinbase) (nn_seen_transactions trusting_net)"
  using trusting_net_facts(1) sample_coinbase_verifies
  by (simp_all add: trusting_net_core(2) BoundedSet_def bs_contains_def)
    (simp add: sample_coinbase_def wire_tx_def Let_def)

lemmas sample_arrival =
  sample_crypto_correct sample_peer_facts(1) sample_arrival_conditions sample_transaction_conditions

lemma trusting_net_receives:
  "\<exists>d env n'. receive_transaction sample_crypto sample_out d (Some ''http://a:1'') (Some (PDict env)) trusting_net =
     (Inr (Valid, True), n')"
  using trusted_transaction_received [OF sample_arrival] trusting_net_submit by blast

theorem relayed_transaction_arrives_witness:
  "\<exists>d env n'. tx_to_dict sample_coinbase = Inr d \<and>
    build_auth_envelope sample_crypto sample_peer_ctx (Some d) (o_stamp sample_out) ''ab'' = Inr env \<and>
    receive_transaction sample_crypto sample_out d (Some ''http://a:1'') (Some (PDict env)) trusting_net =
      (Inr (Valid, True), n')"
  using relayed_transaction_arrives [OF sample_arrival] trusting_net_submit by blast


section \<open>Requests without an address\<close>

text \<open>An absent or empty \<open>from_peer\<close> skips the check of the stored credential: any identity,
  generated on the spot and never authenticated, passes the gate of the state-changing requests, although
  the module states that a peer has to be trusted; the same envelope is refused as soon as it names
  an address without a credential.\<close>
theorem anonymous_sender_passes:
  assumes "crypto_correct C" "genuine C (ctx_identity ctx)" "ident_node_id (ctx_identity ctx) \<noteq> []"
    and "ctx_network_name (nn_auth_context n) = ctx_network_name ctx"
    and "ctx_genesis_hash (nn_auth_context n) = ctx_genesis_hash ctx"
    and "py_float ts = Inr (Finite t)" "\<bar>o_time out - t\<bar> \<le> freshness_window n" "nce \<noteq> []"
    and "\<not> bs_contains (replay_key (ident_node_id (ctx_identity ctx)) nce) (nn_replay_cache n)"
  shows "\<exists>env. build_auth_envelope C ctx payload ts nce = Inr env \<and>
    fst (authenticate_request C out (Some (PDict env)) payload None n) = Inr Valid \<and>
    fst (authenticate_request C out (Some (PDict env)) payload (Some []) n) = Inr Valid \<and>
    (\<forall>a. a \<noteq> [] \<longrightarrow> get_peer_credential a (nn_storage n) = None \<longrightarrow>
      fst (authenticate_request C out (Some (PDict env)) payload (Some a) n) = Inr (Invalid NotTrustedYet))"
proof -
  obtain env where e: "build_auth_envelope C ctx payload ts nce = Inr env"
    using built_envelope_authenticates [OF assms] by blast
  have "fst (authenticate_request C out (Some (PDict env)) payload claimed n) =
      Inr (check_credential claimed (PDict env) n)" for claimed
    using built_envelope_authenticates [OF assms, of payload claimed] e by auto
  with e show ?thesis by (auto simp: check_credential_def)
qed

theorem anonymous_sender_passes_witness:
  "\<exists>env. fst (authenticate_request sample_crypto sample_out (Some (PDict env)) None None trusting_net) = Inr Valid"
  using anonymous_sender_passes [OF sample_crypto_correct sample_peer_facts(1) sample_arrival_conditions] by blast

section \<open>Broadcasting\<close>

definition agree_at :: "string \<Rightarrow> http \<Rightarrow> http \<Rightarrow> bool" where
  "agree_at a h h' \<longleftrightarrow> (\<forall>path v. h (Post a path v) = h' (Post a path v))"

lemma client_post_local:
  "agree_at a h (client_http c) \<Longrightarrow> client_post (c\<lparr>client_http := h\<rparr>) a path v = client_post c a path v"
  by (simp add: agree_at_def client_post_def client_call_def validate_target_def
      cong: sum.case_cong option.case_cong verdict.case_cong)

lemma client_of_http: "client_of (out\<lparr>o_http := h\<rparr>) n = (client_of out n)\<lparr>client_http := h\<rparr>"
  by (simp add: client_of_def)

lemma mark_http [simp]:
  "node_mark_seen (out\<lparr>o_http := h\<rparr>) a s i n = node_mark_seen out a s i n"
  "node_mark_failure (out\<lparr>o_http := h\<rparr>) a n = node_mark_failure out a n"
  "node_is_eligible (out\<lparr>o_http := h\<rparr>) a n = node_is_eligible out a n"
  by (simp_all add: node_mark_seen_def node_mark_failure_def node_is_eligible_def)

text \<open>What the relay loop needs of the client: a send asks the named address only.\<close>

locale addressed_send =
  fixes send :: "peer_client \<Rightarrow> string \<Rightarrow> pyval \<Rightarrow> string \<Rightarrow> pyval \<Rightarrow> pyval option result"
  assumes send_local: "agree_at a h (client_http c) \<Longrightarrow> send (c\<lparr>client_http := h\<rparr>) a d s e = send c a d s e"
begin

lemma relay_to_local:
  assumes "is_trusted_peer a n \<Longrightarrow> Some a \<noteq> ex \<Longrightarrow> agree_at a h (o_http out)"
  shows "relay_to C (out\<lparr>o_http := h\<rparr>) d send ex a n = relay_to C out d send ex a n"
proof (cases "Some a = ex \<or> \<not> is_trusted_peer a n")
  case True
  then show ?thesis by (auto simp: relay_to_def)
next
  case False
  then have "agree_at a h (client_http (client_of out n))" using assms by (simp add: client_of_def)
  then have "send (client_of (out\<lparr>o_http := h\<rparr>) n) a x y z = send (client_of out n) a x y z" for x y z
    by (simp add: client_of_http send_local)
  then show ?thesis by (simp add: relay_to_def cong: sum.case_cong option.case_cong)
qed

lemma relay_local:
  "(\<And>a. is_trusted_peer a n \<Longrightarrow> Some a \<noteq> ex \<Longrightarrow> agree_at a h (o_http out)) \<Longrightarrow>
   relay C (out\<lparr>o_http := h\<rparr>) d send ex as acks n = relay C out d send ex as acks n"
proof (induction as arbitrary: acks n)
  case (Cons a as)
  obtain r m where r: "relay_to C out d send ex a n = (r, m)" by fastforce
  have "relay_to C (out\<lparr>o_http := h\<rparr>) d send ex a n = (r, m)"
    using relay_to_local [OF Cons.prems] r by metis
  moreover have "agree_at b h (o_http out)" if "is_trusted_peer b m" "Some b \<noteq> ex" for b
    using that Cons.prems peer_only_trusted [OF relay_to_frame [OF r]] by simp
  ultimately show ?case using Cons.IH [of m] r by (cases r) auto
qed simp

end

interpretation block_send: addressed_send send_block
  by unfold_locales (simp add: send_block_def client_post_local)

interpretation tx_send: addressed_send send_transaction
  by unfold_locales (simp add: send_transaction_def client_post_local)

lemma relay_acks:
  "relay C out d send ex as acks n = (Inr acks', n') \<Longrightarrow>
   set acks' \<subseteq> set acks \<union> {a \<in> set as. is_trusted_peer a n \<and> Some a \<noteq> ex}"
proof (induction as arbitrary: acks n)
  case (Cons a as)
  obtain r m where r: "relay_to C out d send ex a n = (r, m)" by fastforce
  then obtain k where k: "r = Inr k" using Cons.prems by (cases r) auto
  have "is_trusted_peer a n \<and> Some a \<noteq> ex" if k using that r k by (auto simp: relay_to_def split: if_splits)
  moreover have "set acks' \<subseteq> set (if k then acks @ [a] else acks) \<union> {b \<in> set as. is_trusted_peer b m \<and> Some b \<noteq> ex}"
    using Cons.IH [of "if k then acks @ [a] else acks" m] Cons.prems r k by simp
  ultimately show ?case using peer_only_trusted [OF relay_to_frame [OF r]] by (cases k) auto
qed simp

lemma seen_update_frame:
  "is_trusted_peer a (n\<lparr>nn_seen_blocks := s\<rparr>) = is_trusted_peer a n"
  "is_trusted_peer a (n\<lparr>nn_seen_transactions := s\<rparr>) = is_trusted_peer a n"
  "node_addresses (n\<lparr>nn_seen_blocks := s\<rparr>) = node_addresses n"
  "node_addresses (n\<lparr>nn_seen_transactions := s\<rparr>) = node_addresses n"
  by (simp_all add: is_trusted_peer_def node_addresses_def nn_storage_def)

lemma broadcast_acks:
  "fst (broadcast_block C out b ex n) = Inr acks \<Longrightarrow>
   set acks \<subseteq> {a \<in> set (node_addresses n). is_trusted_peer a n \<and> Some a \<noteq> ex}"
  "fst (broadcast_transaction C out tx ex n) = Inr acks \<Longrightarrow>
   set acks \<subseteq> {a \<in> set (node_addresses n). is_trusted_peer a n \<and> Some a \<noteq> ex}"
  by (auto simp: broadcast_block_def broadcast_transaction_def Let_def seen_update_frame
      split: sum.splits prod.splits dest!: relay_acks)

text \<open>C23: chain data goes to trusted peers only: no answer of an address that is not trusted, or is
  the excluded sender, can make any difference to a broadcast of a block or a transaction (no request
  goes there), and every acknowledged address is a known trusted peer other than the sender.\<close>
theorem broadcast_reaches_only_trusted:
  assumes "\<And>a. is_trusted_peer a n \<Longrightarrow> Some a \<noteq> ex \<Longrightarrow> agree_at a h (o_http out)"
  shows "broadcast_block C (out\<lparr>o_http := h\<rparr>) b ex n = broadcast_block C out b ex n \<and>
    broadcast_transaction C (out\<lparr>o_http := h\<rparr>) tx ex n = broadcast_transaction C out tx ex n \<and>
    (\<forall>acks. fst (broadcast_block C out b ex n) = Inr acks \<or> fst (broadcast_transaction C out tx ex n) = Inr acks \<longrightarrow>
       set acks \<subseteq> {a \<in> set (node_addresses n). is_trusted_peer a n \<and> Some a \<noteq> ex})"
proof -
  have "relay C (out\<lparr>o_http := h\<rparr>) d send_block ex as [] (n\<lparr>nn_seen_blocks := s\<rparr>) =
      relay C out d send_block ex as [] (n\<lparr>nn_seen_blocks := s\<rparr>)" for d as s
    by (rule block_send.relay_local) (use assms seen_update_frame in simp)
  then have "broadcast_block C (out\<lparr>o_http := h\<rparr>) b ex n = broadcast_block C out b ex n"
    by (cases "blk_to_dict b") (simp_all add: broadcast_block_def)
  moreover have "relay C (out\<lparr>o_http := h\<rparr>) d send_transaction ex as [] (n\<lparr>nn_seen_transactions := s\<rparr>) =
      relay C out d send_transaction ex as [] (n\<lparr>nn_seen_transactions := s\<rparr>)" for d as s
    by (rule tx_send.relay_local) (use assms seen_update_frame in simp)
  then have "broadcast_transaction C (out\<lparr>o_http := h\<rparr>) tx ex n = broadcast_transaction C out tx ex n"
    by (cases "tx_to_dict tx") (simp_all add: broadcast_transaction_def)
  ultimately show ?thesis using broadcast_acks [of C out _ ex n] by simp
qed

lemma sample_net_untrusted: "\<not> is_trusted_peer a sample_net"
proof -
  have "peer_credentials_table (bc_storage sample_node) = []"
  proof -
    have "peer_credentials_table (bc_storage bc) = []" if "Blockchain_init 0 sample_settings empty_storage = Inr bc" for bc
      using that
      by (auto simp: Blockchain_init_def load_chain_def empty_storage_def Let_def
          create_and_persist_genesis_block_def split: sum.splits dest!: save_block_credentials)
    then show ?thesis using sample_node_facts(6) by blast
  qed
  then show ?thesis
    by (simp add: sample_net_def is_trusted_peer_def is_peer_trusted_def get_peer_credential_def NetworkNode_facts(2))
qed

theorem broadcast_reaches_only_trusted_witness:
  "broadcast_block sample_crypto (sample_out\<lparr>o_http := (\<lambda>_. Response 200 (Some PNone))\<rparr>) sample_block None sample_net =
   broadcast_block sample_crypto sample_out sample_block None sample_net"
  using broadcast_reaches_only_trusted [of sample_net None "\<lambda>_. Response 200 (Some PNone)" sample_out]
    sample_net_untrusted by blast

section \<open>Synchronising\<close>


definition far_peer :: string where
  "far_peer = ''http://8.8.8.8:80''"

lemma far_peer_valid: "validate_peer_address dns (PStr far_peer) True = Inr Valid"
  unfolding far_peer_def by code_simp

definition fresh_net :: network_node where
  "fresh_net = sample_net\<lparr>nn_peers := PeerRegistry ''http://a:1'' ''self'' 5\<rparr>"

lemma fresh_net_facts:
  "nn_settings fresh_net = sample_settings" "node_is_eligible out a fresh_net"
  by (simp_all add: fresh_net_def sample_peer_facts node_is_eligible_def is_eligible_def PeerRegistry_def)

lemma sample_p2p_facts:
  "allow_private_peer_addresses (p2p_cfg sample_settings)" "max_sync_blocks (p2p_cfg sample_settings) = 50000"
  by (simp_all add: sample_settings_def default_p2p_def)


text \<open>one peer can stop the round for all: if the first entry of the chain it serves is not an object,
  \<open>Block.from_dict\<close> raises an exception that the parser does not catch; no further peer is tried,
  although the comment says that results are independent.\<close>
theorem malformed_entry_stops_sync:
  assumes "validate_peer_address (o_dns out) (PStr a) (allow_private_peer_addresses (p2p_cfg (nn_settings n))) = Inr Valid"
    and "node_is_eligible out a n" "get_chain (client_of out n) a = Inr (Some (PDict d))"
    and "map_of d ''chain'' = Some (PList (v # vs))" "\<And>kvs. v \<noteq> PDict kvs"
    and "int (length (v # vs)) \<le> max_sync_blocks (p2p_cfg (nn_settings n))"
    and "node_addresses n = a # as"
  shows "sync_with_all_peers C out n = (Inl AttributeError, count_sync n)"
proof -
  have "blk_from_pyval now v = Inl AttributeError" for now using assms(5) by (cases v) auto
  then have "sync_with_peer C out a n = (Inl AttributeError, count_sync n)"
    using assms(1-4,6) by (simp add: sync_with_peer_def parse_candidate_chain_def)
  then show ?thesis by (simp add: sync_with_all_peers_def assms(7))
qed

definition odd_out :: outside where
  "odd_out = sample_out\<lparr>o_http := (\<lambda>_. Response 200 (Some (PDict [(''chain'', PList [PInt 1])])))\<rparr>"

definition one_peer_net :: network_node where
  "one_peer_net = with_peers (PeerRegistry ''http://a:1'' ''self'' 5,
     (nn_storage sample_net)\<lparr>peers_table := [(far_peer, \<lparr>peer_node_id = None, peer_status = ''unknown'',
       peer_last_seen = None, registered_at = 0\<rparr>)]\<rparr>) sample_net"

lemma one_peer_facts:
  "nn_settings one_peer_net = sample_settings" "node_is_eligible out a one_peer_net"
  "node_addresses one_peer_net = [far_peer]"
  by (simp_all add: one_peer_net_def with_peers_def sample_peer_facts node_is_eligible_def is_eligible_def
      PeerRegistry_def node_addresses_def addresses_def registry_peers_def list_peers_def nn_storage_def
      enrich_def peer_from_row_def Let_def)

theorem malformed_entry_stops_sync_witness:
  "sync_with_all_peers sample_crypto odd_out one_peer_net = (Inl AttributeError, count_sync one_peer_net)"
proof (rule malformed_entry_stops_sync)
  show "get_chain (client_of odd_out one_peer_net) far_peer = Inr (Some (PDict [(''chain'', PList [PInt 1])]))"
    by (simp add: get_chain_def client_get_def client_call_def validate_target_def client_of_def far_peer_valid
        one_peer_facts sample_p2p_facts) (simp add: odd_out_def)
  show "map_of [(''chain'', PList [PInt 1])] ''chain'' = Some (PList (PInt 1 # []))" by simp
qed (simp_all add: one_peer_facts sample_p2p_facts far_peer_valid)

end
