(* ===== verification/Migration.thy ===== *)
theory Migration
  imports Storage
begin

text \<open>
  \<open>Storage.__init__\<close> of \<open>blockchain/storage.py\<close>: opening a database and migrating the tables of old releases,
  which kept amounts as floats.  A database file is what the two monetary tables look like (absent, of the old
  layout or of the current one), the tables an interrupted migration left behind, and the other tables; one of
  those that is absent is the same as an empty one, since \<open>create_all\<close> runs before anything reads it.
  A float of the old layout is represented by its \<open>str()\<close>, which is all the code looks at.

  Whether \<open>ALTER TABLE\<close> and \<open>CREATE TABLE\<close> take part in the surrounding transaction is a property of the
  database driver and the parameter \<open>ddl\<close> of the model: PostgreSQL rolls them back, the SQLite
  driver commits what precedes the first \<open>INSERT\<close>.
\<close>

section \<open>Database files\<close>

record legacy_tx_row =
  leg_tx_hash :: string
  leg_block_index :: int
  leg_sender :: string
  leg_receiver :: string
  leg_amount :: string
  leg_timestamp :: pynum
  leg_public_key :: "string option"
  leg_signature :: "string option"

datatype ('l, 'c) monetary_table = Absent | LegacyTable 'l | CurrentTable 'c

record database =
  db_transactions :: "(legacy_tx_row list, (string, tx_row) pydict) monetary_table"
  db_transactions_legacy :: "legacy_tx_row list option"
  db_wallets :: "((string \<times> string) list, (string, int) pydict) monetary_table"
  db_wallets_legacy :: "(string \<times> string) list option"
  db_rest :: storage

section \<open>Migrating\<close>

text \<open>\<open>metadata.create_all\<close>: tables that do not exist are created, empty.\<close>

fun created :: "('l, ('k, 'v) pydict) monetary_table \<Rightarrow> ('l, ('k, 'v) pydict) monetary_table" where
  "created Absent = CurrentTable []"
| "created t = t"

definition create_all :: "database \<Rightarrow> database" where
  "create_all db = db\<lparr>db_transactions := created (db_transactions db), db_wallets := created (db_wallets db)\<rparr>"

text \<open>The \<open>INSERT\<close>s of both loops; a second row with the same primary key is refused.\<close>

definition legacy_values :: "legacy_tx_row \<Rightarrow> tx_row result" where
  "legacy_values r =
     map_sum id (\<lambda>a.
       \<lparr>row_block_index = leg_block_index r, row_sender = leg_sender r, row_receiver = leg_receiver r,
        row_amount = a, row_tx_timestamp = float_column (leg_timestamp r),
        row_public_key = leg_public_key r, row_signature = leg_signature r\<rparr>) (to_base_units (AmtStr (leg_amount r)))"

fun insert_legacy_txs :: "legacy_tx_row list \<Rightarrow> (string, tx_row) pydict \<Rightarrow> (string, tx_row) pydict result" where
  "insert_legacy_txs [] t = Inr t"
| "insert_legacy_txs (r # rs) t =
     (case legacy_values r of
        Inl e \<Rightarrow> Inl e
      | Inr v \<Rightarrow>
          if leg_tx_hash r \<in> fst ` set t then Inl StorageError
          else insert_legacy_txs rs (dict_set (leg_tx_hash r) v t))"

fun insert_legacy_wallets :: "(string \<times> string) list \<Rightarrow> (string, int) pydict \<Rightarrow> (string, int) pydict result" where
  "insert_legacy_wallets [] t = Inr t"
| "insert_legacy_wallets ((addr, balance) # rs) t =
     (case to_base_units (AmtStr balance) of
        Inl e \<Rightarrow> Inl e
      | Inr a \<Rightarrow>
          if addr \<in> fst ` set t then Inl StorageError
          else insert_legacy_wallets rs (dict_set addr a t))"

text \<open>The rows of a table that was just created.\<close>

fun current_rows :: "('l, ('k, 'v) pydict) monetary_table \<Rightarrow> ('k, 'v) pydict" where
  "current_rows (CurrentTable t) = t"
| "current_rows _ = []"

text \<open>One migration block: rename, create, copy, drop.  Renaming fails when an earlier attempt left its
  table behind.\<close>

definition migrate_transactions :: "bool \<Rightarrow> database \<Rightarrow> unit result \<times> database" where
  "migrate_transactions ddl db =
     (case db_transactions db of
        LegacyTable rows \<Rightarrow>
          if db_transactions_legacy db \<noteq> None then (Inl StorageError, db)
          else
            let db1 = create_all (db\<lparr>db_transactions := Absent, db_transactions_legacy := Some rows\<rparr>) in
            (case insert_legacy_txs rows (current_rows (db_transactions db1)) of
               Inl e \<Rightarrow> (Inl e, if ddl then db else db1)
             | Inr t \<Rightarrow> (Inr (), db1\<lparr>db_transactions := CurrentTable t, db_transactions_legacy := None\<rparr>))
      | _ \<Rightarrow> (Inr (), db))"

definition migrate_wallets :: "bool \<Rightarrow> database \<Rightarrow> unit result \<times> database" where
  "migrate_wallets ddl db =
     (case db_wallets db of
        LegacyTable rows \<Rightarrow>
          if db_wallets_legacy db \<noteq> None then (Inl StorageError, db)
          else
            let db1 = create_all (db\<lparr>db_wallets := Absent, db_wallets_legacy := Some rows\<rparr>) in
            (case insert_legacy_wallets rows (current_rows (db_wallets db1)) of
               Inl e \<Rightarrow> (Inl e, if ddl then db else db1)
             | Inr t \<Rightarrow> (Inr (), db1\<lparr>db_wallets := CurrentTable t, db_wallets_legacy := None\<rparr>))
      | _ \<Rightarrow> (Inr (), db))"

definition migrate_legacy_monetary_schema :: "bool \<Rightarrow> database \<Rightarrow> unit result \<times> database" where
  "migrate_legacy_monetary_schema ddl db =
     (case migrate_transactions ddl db of
        (Inl e, db1) \<Rightarrow> (Inl e, db1)
      | (Inr _, db1) \<Rightarrow> migrate_wallets ddl db1)"

text \<open>The tables an opened database offers, and the constructor.\<close>

definition storage_of :: "database \<Rightarrow> storage" where
  "storage_of db =
     (db_rest db)\<lparr>transactions_table := current_rows (db_transactions db),
                  wallets_table := current_rows (db_wallets db)\<rparr>"

definition Storage_init :: "bool \<Rightarrow> database \<Rightarrow> storage result \<times> database" where
  "Storage_init ddl db =
     (case migrate_legacy_monetary_schema ddl db of
        (Inl e, db1) \<Rightarrow> (Inl StorageError, db1)
      | (Inr _, db1) \<Rightarrow> let db2 = create_all db1 in (Inr (storage_of db2), db2))"

section \<open>What a database records\<close>

text \<open>The abstract content: every transaction with its amount in base units and its other columns, and every
  cached balance.  An amount that does not convert is the exception it raises.\<close>

fun legacy_entry :: "legacy_tx_row \<Rightarrow> string \<times> int result \<times> int \<times> string \<times> string \<times> pynum \<times> string option \<times> string option" where
  "legacy_entry r = (leg_tx_hash r, to_base_units (AmtStr (leg_amount r)), leg_block_index r, leg_sender r, leg_receiver r,
     float_column (leg_timestamp r), leg_public_key r, leg_signature r)"

fun current_entry :: "string \<times> tx_row \<Rightarrow> string \<times> int result \<times> int \<times> string \<times> string \<times> pynum \<times> string option \<times> string option" where
  "current_entry (h, r) = (h, Inr (row_amount r), row_block_index r, row_sender r, row_receiver r,
     row_tx_timestamp r, row_public_key r, row_signature r)"

fun recorded_txs :: "(legacy_tx_row list, (string, tx_row) pydict) monetary_table \<Rightarrow>
    (string \<times> int result \<times> int \<times> string \<times> string \<times> pynum \<times> string option \<times> string option) list" where
  "recorded_txs Absent = []"
| "recorded_txs (LegacyTable rows) = map legacy_entry rows"
| "recorded_txs (CurrentTable t) = map current_entry t"

fun recorded_balances :: "((string \<times> string) list, (string, int) pydict) monetary_table \<Rightarrow> (string \<times> int result) list" where
  "recorded_balances Absent = []"
| "recorded_balances (LegacyTable rows) = map (\<lambda>(a, b). (a, to_base_units (AmtStr b))) rows"
| "recorded_balances (CurrentTable t) = map (\<lambda>(a, n). (a, Inr n)) t"

definition ledger where
  "ledger db = (recorded_txs (db_transactions db), recorded_balances (db_wallets db))"

section \<open>Copying\<close>

text \<open>A loop that converts each row and inserts it under its key.\<close>

locale row_copy =
  fixes ins :: "'l list \<Rightarrow> ('k, 'v) pydict \<Rightarrow> ('k, 'v) pydict result" and key :: "'l \<Rightarrow> 'k" and conv :: "'l \<Rightarrow> 'v result"
  assumes ins_Nil: "ins [] t = Inr t"
    and ins_Cons: "ins (r # rs) t =
      (case conv r of
         Inl e \<Rightarrow> Inl e
       | Inr v \<Rightarrow> if key r \<in> fst ` set t then Inl StorageError else ins rs (dict_set (key r) v t))"
begin

lemma ins_Inr:
  "ins rs t = Inr t' \<longleftrightarrow>
     (\<exists>vs. map_result conv rs = Inr vs \<and> distinct (map key rs) \<and> key ` set rs \<inter> fst ` set t = {} \<and>
           t' = t @ zip (map key rs) vs)"
proof (induction rs arbitrary: t)
  case (Cons r rs)
  show ?case
  proof (cases "conv r")
    case (Inr v)
    have "fst ` set (t @ [(key r, v)]) = insert (key r) (fst ` set t)" by auto
    then show ?thesis using Cons
      by (auto simp: ins_Cons Inr dict_set_new split: sum.splits)
  qed (simp add: ins_Cons)
qed (auto simp: ins_Nil)

lemma ins_new: "ins rs [] = Inr t \<longleftrightarrow>
    (\<exists>vs. map_result conv rs = Inr vs \<and> distinct (map key rs) \<and> t = zip (map key rs) vs)"
  by (simp add: ins_Inr)

lemma ins_new_entries:
  assumes "ins rs [] = Inr t" "\<And>r v. conv r = Inr v \<Longrightarrow> g (key r, v) = h r"
  shows "map g t = map h rs"
proof -
  from assms(1) obtain vs where vs: "map_result conv rs = Inr vs" and t: "t = zip (map key rs) vs"
    by (auto simp: ins_new)
  from vs have "map g (zip (map key rs) vs) = map h rs"
    by (induction rs arbitrary: vs) (auto simp: assms(2) split: sum.splits)
  then show ?thesis by (simp add: t)
qed

lemma ins_fails: "conv r = Inl e \<Longrightarrow> r \<in> set rs \<Longrightarrow> \<exists>e'. ins rs t = Inl e'"
  by (induction rs arbitrary: t) (auto simp: ins_Cons split: sum.splits)

end

interpretation tx_copy: row_copy insert_legacy_txs leg_tx_hash legacy_values
  by unfold_locales simp_all

interpretation wallet_copy: row_copy insert_legacy_wallets fst "\<lambda>w. to_base_units (AmtStr (snd w))"
proof unfold_locales
  fix r :: "string \<times> string" and rs t
  show "insert_legacy_wallets (r # rs) t =
    (case to_base_units (AmtStr (snd r)) of Inl e \<Rightarrow> Inl e
     | Inr v \<Rightarrow> if fst r \<in> fst ` set t then Inl StorageError else insert_legacy_wallets rs (dict_set (fst r) v t))"
    by (cases r) (simp only: insert_legacy_wallets.simps fst_conv snd_conv)
qed simp

lemma copied_txs: "insert_legacy_txs rs [] = Inr t \<Longrightarrow> recorded_txs (CurrentTable t) = recorded_txs (LegacyTable rs)"
  by (auto simp: legacy_values_def map_sum_Inr intro!: tx_copy.ins_new_entries)

lemma copied_balances:
  "insert_legacy_wallets rs [] = Inr t \<Longrightarrow> recorded_balances (CurrentTable t) = recorded_balances (LegacyTable rs)"
  by (auto intro!: wallet_copy.ins_new_entries)

section \<open>Opening\<close>

text \<open>What one block does to a table of the old layout, and that it leaves every other table.\<close>
lemma migrate_transactions_cases:
  assumes "migrate_transactions ddl db = (r, db')"
  obtains (nothing) "\<And>rows. db_transactions db \<noteq> LegacyTable rows" "r = Inr ()" "db' = db"
    | (copied) rows t where "db_transactions db = LegacyTable rows" "db_transactions_legacy db = None"
        "insert_legacy_txs rows [] = Inr t" "r = Inr ()"
        "db' = db\<lparr>db_transactions := CurrentTable t, db_wallets := created (db_wallets db)\<rparr>"
    | (failed) rows e where "db_transactions db = LegacyTable rows" "r = Inl e"
        "db_transactions_legacy db \<noteq> None \<or> (\<exists>e. insert_legacy_txs rows [] = Inl e)"
        "ddl \<Longrightarrow> db' = db"
  using assms by (cases db) (auto simp: migrate_transactions_def create_all_def Let_def split: monetary_table.splits if_splits sum.splits)

lemma migrate_wallets_cases:
  assumes "migrate_wallets ddl db = (r, db')"
  obtains (nothing) "\<And>rows. db_wallets db \<noteq> LegacyTable rows" "r = Inr ()" "db' = db"
    | (copied) rows t where "db_wallets db = LegacyTable rows" "db_wallets_legacy db = None"
        "insert_legacy_wallets rows [] = Inr t" "r = Inr ()"
        "db' = db\<lparr>db_wallets := CurrentTable t, db_transactions := created (db_transactions db)\<rparr>"
    | (failed) rows e where "db_wallets db = LegacyTable rows" "r = Inl e"
        "db_wallets_legacy db \<noteq> None \<or> (\<exists>e. insert_legacy_wallets rows [] = Inl e)"
        "ddl \<Longrightarrow> db' = db"
  using assms
  by (cases db) (auto simp: migrate_wallets_def create_all_def Let_def split: monetary_table.splits if_splits sum.splits)

lemma created_facts [simp]:
  "recorded_txs (created t) = recorded_txs t" "recorded_balances (created w) = recorded_balances w"
  "created x = LegacyTable rows \<longleftrightarrow> x = LegacyTable rows" "created x \<noteq> Absent" "created (created x) = created x"
  by (cases t, simp_all) (cases w, simp_all, (cases x, simp_all)+)

text \<open>A database with no table of the old layout.\<close>

definition is_current :: "database \<Rightarrow> bool" where
  "is_current db \<longleftrightarrow> (\<forall>rows. db_transactions db \<noteq> LegacyTable rows) \<and> (\<forall>rows. db_wallets db \<noteq> LegacyTable rows)"

lemma open_current: "is_current db \<Longrightarrow> Storage_init ddl db = (Inr (storage_of (create_all db)), create_all db)"
  by (auto simp: is_current_def Storage_init_def migrate_legacy_monetary_schema_def migrate_transactions_def
      migrate_wallets_def Let_def split: monetary_table.splits)

lemma create_all_facts [simp]:
  "ledger (create_all db) = ledger db" "db_rest (create_all db) = db_rest db" "create_all (create_all db) = create_all db"
  "is_current (create_all db) = is_current db"
  by (simp_all add: create_all_def ledger_def is_current_def)

lemma migration_step:
  assumes "migrate_legacy_monetary_schema ddl db = (r, db')" "ddl \<or> isl r = False"
  shows "ledger db' = ledger db \<and> db_rest db' = db_rest db \<and> (isl r \<or> is_current db')"
proof -
  have tx: "ledger d2 = ledger d1 \<and> db_rest d2 = db_rest d1 \<and>
      (isl r1 \<or> (\<forall>rows. db_transactions d2 \<noteq> LegacyTable rows))"
    if "migrate_transactions ddl d1 = (r1, d2)" "ddl \<or> \<not> isl r1" for d1 d2 r1
    using that(1)
  proof (cases rule: migrate_transactions_cases)
    case (copied rows t)
    with copied_txs [OF copied(3)] show ?thesis by (simp add: ledger_def)
  qed (use that(2) in auto)
  have wallet: "ledger d2 = ledger d1 \<and> db_rest d2 = db_rest d1 \<and>
      (isl r1 \<or> (\<forall>rows. db_wallets d2 \<noteq> LegacyTable rows)) \<and>
      ((\<forall>rows. db_transactions d1 \<noteq> LegacyTable rows) \<longrightarrow> isl r1 \<or> (\<forall>rows. db_transactions d2 \<noteq> LegacyTable rows))"
    if "migrate_wallets ddl d1 = (r1, d2)" "ddl \<or> \<not> isl r1" for d1 d2 r1
    using that(1)
  proof (cases rule: migrate_wallets_cases)
    case (copied rows t)
    with copied_balances [OF copied(3)] show ?thesis by (simp add: ledger_def)
  qed (use that(2) in auto)
  show ?thesis
  proof (cases "migrate_transactions ddl db")
    case (Pair r1 d)
    show ?thesis
    proof (cases r1)
      case (Inl e)
      then show ?thesis using assms tx [OF Pair]
        by (auto simp: migrate_legacy_monetary_schema_def Pair)
    next
      case (Inr u)
      then have "migrate_wallets ddl d = (r, db')" using assms(1)
        by (simp add: migrate_legacy_monetary_schema_def Pair)
      from tx [OF Pair] wallet [OF this] assms(2) Inr show ?thesis
        by (auto simp: is_current_def)
    qed
  qed
qed

lemma storage_of_current:
  assumes "is_current db"
  shows "map current_entry (transactions_table (storage_of (create_all db))) = fst (ledger db)"
    and "map (\<lambda>(a, n). (a, Inr n)) (wallets_table (storage_of (create_all db))) = snd (ledger db)"
  using assms by (cases "db_transactions db"; cases "db_wallets db";
      auto simp: is_current_def storage_of_def create_all_def ledger_def)+

text \<open>What the migration asks of a table of the old layout.\<close>

definition openable :: "database \<Rightarrow> bool" where
  "openable db \<longleftrightarrow>
     (case db_transactions db of
        LegacyTable rows \<Rightarrow> db_transactions_legacy db = None \<and> distinct (map leg_tx_hash rows) \<and>
          list_all (\<lambda>r. \<not> isl (to_base_units (AmtStr (leg_amount r)))) rows
      | _ \<Rightarrow> True) \<and>
     (case db_wallets db of
        LegacyTable rows \<Rightarrow> db_wallets_legacy db = None \<and> distinct (map fst rows) \<and>
          list_all (\<lambda>w. \<not> isl (to_base_units (AmtStr (snd w)))) rows
      | _ \<Rightarrow> True)"

lemma map_result_defined: "(\<exists>ys. map_result f xs = Inr ys) \<longleftrightarrow> list_all (\<lambda>x. \<not> isl (f x)) xs"
  by (induction xs) (auto split: sum.splits)

lemma txs_copied_iff:
  "(\<exists>t. insert_legacy_txs rows [] = Inr t) \<longleftrightarrow>
     distinct (map leg_tx_hash rows) \<and> list_all (\<lambda>r. \<not> isl (to_base_units (AmtStr (leg_amount r)))) rows"
proof -
  have "isl (legacy_values r) = isl (to_base_units (AmtStr (leg_amount r)))" for r
    by (cases "to_base_units (AmtStr (leg_amount r))") (simp_all add: legacy_values_def)
  then show ?thesis using map_result_defined [of legacy_values rows] by (auto simp: tx_copy.ins_new)
qed

lemma wallets_copied_iff:
  "(\<exists>t. insert_legacy_wallets rows [] = Inr t) \<longleftrightarrow>
     distinct (map fst rows) \<and> list_all (\<lambda>w. \<not> isl (to_base_units (AmtStr (snd w)))) rows"
  by (auto simp: wallet_copy.ins_new simp flip: map_result_defined)

lemma not_Inr: "(\<forall>y. x \<noteq> Inr y) \<longleftrightarrow> (\<exists>e. x = Inl e)"
  by (cases x) auto

text \<open>A database opens exactly when its tables of the old layout can be copied: no row repeats a key, every amount
  converts to base units, and no earlier attempt left its tables behind.\<close>
lemma opens_iff_convertible:
  "(\<exists>st. fst (Storage_init ddl db) = Inr st) \<longleftrightarrow> openable db"
proof (cases "migrate_transactions ddl db")
  case (Pair r d)
  have wallets: "(\<exists>st. fst (Storage_init ddl db) = Inr st) \<longleftrightarrow> (\<exists>d'. migrate_wallets ddl d = (Inr (), d'))" if "r = Inr ()"
    using that by (auto simp: Storage_init_def migrate_legacy_monetary_schema_def Pair Let_def split: prod.splits sum.splits)
  have iff: "(\<exists>d'. migrate_wallets ddl d = (Inr (), d')) \<longleftrightarrow>
     (case db_wallets d of
        LegacyTable rows \<Rightarrow> db_wallets_legacy d = None \<and> (\<exists>t. insert_legacy_wallets rows [] = Inr t)
      | _ \<Rightarrow> True)"
    by (auto simp: migrate_wallets_def create_all_def Let_def split: monetary_table.splits sum.splits)
  from Pair show ?thesis
  proof (cases rule: migrate_transactions_cases)
    case nothing
    then show ?thesis using wallets iff
      by (auto simp: openable_def wallets_copied_iff split: monetary_table.splits)
  next
    case (copied rows t)
    then have "distinct (map leg_tx_hash rows) \<and> list_all (\<lambda>r. \<not> isl (to_base_units (AmtStr (leg_amount r)))) rows"
      using txs_copied_iff by blast
    with copied wallets iff show ?thesis
      by (cases "db_wallets db") (auto simp: openable_def wallets_copied_iff)
  next
    case (failed rows e)
    then have "\<not> openable db"
      using txs_copied_iff [of rows] by (auto simp: openable_def)
    moreover have "fst (Storage_init ddl db) = Inl StorageError"
      using failed by (simp add: Storage_init_def migrate_legacy_monetary_schema_def Pair)
    ultimately show ?thesis by simp
  qed
qed

text \<open>C9: Opening a database changes nothing it records.  Whenever it succeeds, and also when it fails on a driver with
  transactional table definitions, the file holds the same transactions and balances, in base units, in the same order; on success the
  storage offers exactly these, the other tables are as before, and opening again gives the same storage.\<close>
theorem opening_keeps_ledger:
  assumes "Storage_init ddl db = (r, db')" "ddl \<or> \<not> isl r"
  shows "ledger db' = ledger db \<and> db_rest db' = db_rest db \<and>
    (isl r \<or> (map current_entry (transactions_table (projr r)), map (\<lambda>(a, n). (a, Inr n)) (wallets_table (projr r))) = ledger db \<and>
              Storage_init ddl db' = (r, db'))"
proof (cases "migrate_legacy_monetary_schema ddl db")
  case (Pair r1 d)
  have r: "isl r = isl r1" using assms(1) by (auto simp: Storage_init_def Pair Let_def split: sum.splits)
  with migration_step [OF Pair] assms(2)
  have d: "ledger d = ledger db" "db_rest d = db_rest db" "isl r \<or> is_current d" by auto
  show ?thesis
  proof (cases r)
    case (Inl e)
    then have "db' = d" using assms(1) r by (auto simp: Storage_init_def Pair Let_def split: sum.splits)
    with d Inl show ?thesis by simp
  next
    case (Inr st)
    then have st: "st = storage_of (create_all d)" "db' = create_all d"
      using assms(1) by (auto simp: Storage_init_def Pair Let_def split: sum.splits)
    from Inr d have cur: "is_current d" by simp
    show ?thesis using open_current [of db' ddl] cur storage_of_current [OF cur] d
      by (simp add: Inr st)
  qed
qed

text \<open>A balance that an old release computed with floats.\<close>

definition old_database :: "string \<Rightarrow> database" where
  "old_database amount =
     \<lparr>db_transactions = LegacyTable
        [\<lparr>leg_tx_hash = ''aa'', leg_block_index = 1, leg_sender = ''SYJ1'', leg_receiver = ''SYJ2'', leg_amount = amount,
          leg_timestamp = PyFloat 1700000000, leg_public_key = None, leg_signature = None\<rparr>],
      db_transactions_legacy = None, db_wallets = LegacyTable [(''SYJ2'', ''0.1'')], db_wallets_legacy = None,
      db_rest = empty_storage\<rparr>"

lemma tenth_converts: "to_base_units (AmtStr ''0.1'') = Inr 10000000"
  by code_simp

text \<open>A balance with the rounding residue of float arithmetic does not convert.\<close>
lemma residue_is_refused: "to_base_units (AmtStr ''0.30000000000000004'') = Inl ValueError"
  by code_simp

lemma old_database_opens:
  "\<exists>db'. Storage_init False (old_database ''0.1'') =
     (Inr (empty_storage\<lparr>
        transactions_table := [(''aa'', \<lparr>row_block_index = 1, row_sender = ''SYJ1'', row_receiver = ''SYJ2'',
          row_amount = 10000000, row_tx_timestamp = PyFloat 1700000000, row_public_key = None, row_signature = None\<rparr>)],
        wallets_table := [(''SYJ2'', 10000000)]\<rparr>), db')"
  by (simp add: Storage_init_def migrate_legacy_monetary_schema_def migrate_transactions_def migrate_wallets_def
      create_all_def storage_of_def old_database_def legacy_values_def tenth_converts float_column_def Let_def
      empty_storage_def)

lemma opening_keeps_ledger_witness:
  "\<exists>st db'. Storage_init False (old_database ''0.1'') = (Inr st, db') \<and> ledger db' = ledger (old_database ''0.1'') \<and>
     map_of (wallets_table st) ''SYJ2'' = Some 10000000"
proof -
  obtain db' where db': "Storage_init False (old_database ''0.1'') =
     (Inr (empty_storage\<lparr>
        transactions_table := [(''aa'', \<lparr>row_block_index = 1, row_sender = ''SYJ1'', row_receiver = ''SYJ2'',
          row_amount = 10000000, row_tx_timestamp = PyFloat 1700000000, row_public_key = None, row_signature = None\<rparr>)],
        wallets_table := [(''SYJ2'', 10000000)]\<rparr>), db')"
    using old_database_opens by blast
  with opening_keeps_ledger [OF db'] show ?thesis by auto
qed

lemma opened_table:
  assumes "db_transactions db = CurrentTable t" "Storage_init ddl db = (Inr st, db2)"
  shows "transactions_table st = t" "db_transactions_legacy db2 = db_transactions_legacy db"
  using assms
  by (auto simp: Storage_init_def migrate_legacy_monetary_schema_def migrate_transactions_def migrate_wallets_def
      create_all_def storage_of_def Let_def split: monetary_table.splits if_splits sum.splits)



end
