(* ===== verification/State_Root.thy ===== *)
theory State_Root
  imports Pydict Sha256
begin

text \<open>
  \<open>blockchain/state_root.py\<close>: the state commitment and the checkpoint codec.  Both write the state as a
  sequence of fixed-width integers and length-prefixed strings; the locale \<open>prefix_code\<close> states what makes
  such a sequence uniquely readable, and the encoders interpret it.
\<close>

section \<open>The code\<close>

definition STATE_VERSION :: int where
  "STATE_VERSION = 1"

definition MAGIC :: bytes where
  "MAGIC = utf8 ''SYJSTATE1''"

definition u64 :: "int \<Rightarrow> bytes result" where
  "u64 v = (if \<not> (0 \<le> v \<and> v \<le> 2 ^ 64 - 1) then Inl ValueError else Inr (to_bytes_big 8 v))"

text \<open>The parts of a byte string, written one after the other until one raises.\<close>

definition join_parts :: "bytes result list \<Rightarrow> bytes result" where
  "join_parts ps = map_sum id concat (map_result id ps)"

definition len_bytes :: "bytes \<Rightarrow> bytes result" where
  "len_bytes v = join_parts [u64 (int (length v)), Inr v]"

text \<open>The keyword arguments of both functions.\<close>

record account_state =
  balances :: "(string, int) pydict"
  nonces :: "(string, int) pydict"
  genesis_supply :: int
  mining_issued :: int
  state_supply :: int

definition state_keys :: "account_state \<Rightarrow> string list" where
  "state_keys s = sort (remdups (dict_keys (balances s) @ dict_keys (nonces s)))"

definition state_preimage :: "account_state \<Rightarrow> bytes result" where
  "state_preimage s =
     join_parts
       ([Inr (utf8 ''SYJ-STATE-ROOT-V1'' @ [0]), Inr (to_bytes_big 1 STATE_VERSION),
         u64 (genesis_supply s), u64 (mining_issued s), u64 (state_supply s), u64 (int (length (state_keys s)))] @
        concat (map (\<lambda>key.
          [Inr (utf8 ''SYJ-STATE-ACCOUNT-V1'' @ [0]), len_bytes (utf8 key),
           u64 (dict_get key 0 (balances s)), u64 (dict_get key 0 (nonces s))]) (state_keys s)))"

definition state_root :: "account_state \<Rightarrow> string result" where
  "state_root s = map_sum id sha256_hex (state_preimage s)"

definition encode_checkpoint :: "account_state \<Rightarrow> bytes result" where
  "encode_checkpoint s =
     join_parts
       ([Inr (MAGIC @ to_bytes_big 1 STATE_VERSION),
         u64 (genesis_supply s), u64 (mining_issued s), u64 (state_supply s), u64 (int (length (state_keys s)))] @
        concat (map (\<lambda>key.
          [len_bytes (utf8 key), u64 (dict_get key 0 (balances s)), u64 (dict_get key 0 (nonces s))]) (state_keys s)) @
        [map_sum id utf8 (state_root s)])"

section \<open>Joining\<close>

lemma join_parts_Nil [simp]: "join_parts [] = Inr []"
  by (simp add: join_parts_def)

lemma join_parts_Cons:
  "join_parts (p # ps) = Inr bs \<longleftrightarrow> (\<exists>a b. p = Inr a \<and> join_parts ps = Inr b \<and> bs = a @ b)"
  by (auto simp: join_parts_def split: sum.splits)

lemma join_parts_append:
  "join_parts (ps @ qs) = Inr bs \<longleftrightarrow> (\<exists>a b. join_parts ps = Inr a \<and> join_parts qs = Inr b \<and> bs = a @ b)"
  by (induction ps arbitrary: bs) (auto simp: join_parts_Cons)

lemma join_parts_single [simp]: "join_parts [Inr a] = Inr a"
  by (simp add: join_parts_def)

section \<open>Uniquely readable parts\<close>

locale prefix_code =
  fixes enc :: "'a \<Rightarrow> bytes result"
  assumes readable: "enc x = Inr a \<Longrightarrow> enc y = Inr b \<Longrightarrow> a @ r = b @ r' \<Longrightarrow> x = y \<and> r = r'"
begin

lemma enc_inj: "enc x = Inr a \<Longrightarrow> enc y = Inr a \<Longrightarrow> x = y"
  using readable [of x a y a "[]" "[]"] by simp

lemma sequence_readable:
  "join_parts (map enc xs) = Inr a \<Longrightarrow> join_parts (map enc ys) = Inr b \<Longrightarrow> length xs = length ys \<Longrightarrow>
   a @ r = b @ r' \<Longrightarrow> xs = ys \<and> r = r'"
proof (induction xs arbitrary: ys a b)
  case (Cons x xs)
  then obtain y ys' where ys: "ys = y # ys'" by (cases ys) auto
  from Cons.prems(1) obtain a1 a2 where a: "enc x = Inr a1" "join_parts (map enc xs) = Inr a2" "a = a1 @ a2"
    by (auto simp: join_parts_Cons)
  from Cons.prems(2) obtain b1 b2 where b: "enc y = Inr b1" "join_parts (map enc ys') = Inr b2" "b = b1 @ b2"
    by (auto simp: join_parts_Cons ys)
  have "a1 @ (a2 @ r) = b1 @ (b2 @ r')" using Cons.prems(4) a(3) b(3) by simp
  from readable [OF a(1) b(1) this] have "x = y" "a2 @ r = b2 @ r'" by simp_all
  with Cons.IH [OF a(2) b(2)] Cons.prems(3) show ?case by (simp add: ys)
qed simp

end

lemma u64_length: "u64 v = Inr a \<Longrightarrow> length a = 8"
  by (auto simp: u64_def split: if_splits)

lemma u64_value: "u64 v = Inr a \<Longrightarrow> from_bytes_big a = v"
  by (auto simp: u64_def from_to_bytes_big split: if_splits)

lemma u64_readable: "u64 x = Inr a \<Longrightarrow> u64 y = Inr b \<Longrightarrow> a @ r = b @ r' \<Longrightarrow> x = y \<and> r = r'"
  using u64_length [of x a] u64_length [of y b] u64_value [of x a] u64_value [of y b] by simp

interpretation u64_code: prefix_code u64
  by unfold_locales (rule u64_readable)

text \<open>UTF-8 is a prefix code on characters.\<close>
lemma utf8_char_codes:
  "map unat (utf8_char c) =
     (if code_point c < 128 then [code_point c] else [192 + code_point c div 64, 128 + code_point c mod 64])"
proof -
  have "code_point c div 64 < 4"
    by (rule less_mult_imp_div_less) (use code_point_less [of c] in linarith)
  then show ?thesis using code_point_less [of c]
    by (simp add: utf8_char_def Let_def unat_of_nat take_bit_eq_mod del: of_nat_add)
qed

lemma utf8_char_readable: "utf8_char c @ r = utf8_char d @ r' \<Longrightarrow> c = d \<and> r = r'"
proof -
  assume e: "utf8_char c @ r = utf8_char d @ r'"
  then have "map unat (utf8_char c) @ map unat r = map unat (utf8_char d) @ map unat r'" by (metis map_append)
  then have "c = d"
    unfolding utf8_char_codes by (auto split: if_splits) (metis div_mult_mod_eq of_char_eq_iff)
  with e show ?thesis by simp
qed

lemma utf8_inj: "utf8 s = utf8 t \<longleftrightarrow> s = t"
proof
  show "utf8 s = utf8 t \<Longrightarrow> s = t"
  proof (induction s arbitrary: t)
    case Nil
    then show ?case by (cases t) (auto simp: utf8_def utf8_char_def Let_def split: if_splits)
  next
    case (Cons c s)
    obtain d u where t: "t = d # u"
      using Cons.prems by (cases t) (auto simp: utf8_def utf8_char_def Let_def split: if_splits)
    have "utf8_char c @ utf8 s = utf8_char d @ utf8 u" using Cons.prems by (simp add: t utf8_def)
    from utf8_char_readable [OF this] Cons.IH show ?case by (simp add: t)
  qed
qed simp

lemma len_bytes_readable:
  assumes "len_bytes v = Inr a" "len_bytes w = Inr b" "a @ r = b @ r'"
  shows "v = w \<and> r = r'"
proof -
  obtain m where m: "u64 (int (length v)) = Inr m" "a = m @ v"
    using assms(1) by (auto simp: len_bytes_def join_parts_Cons)
  obtain k where k: "u64 (int (length w)) = Inr k" "b = k @ w"
    using assms(2) by (auto simp: len_bytes_def join_parts_Cons)
  have "int (length v) = int (length w) \<and> v @ r = w @ r'"
    using u64_code.readable [OF m(1) k(1), of "v @ r" "w @ r'"] assms(3) m(2) k(2) by simp
  then show ?thesis by (metis append_eq_append_conv of_nat_eq_iff)
qed

interpretation str_code: prefix_code "\<lambda>s. len_bytes (utf8 s)"
  by unfold_locales (use len_bytes_readable utf8_inj in blast)

section \<open>Accounts and the whole state\<close>

definition entries :: "account_state \<Rightarrow> (string \<times> int \<times> int) list" where
  "entries s = map (\<lambda>k. (k, dict_get k 0 (balances s), dict_get k 0 (nonces s))) (state_keys s)"

fun account_part :: "bytes \<Rightarrow> string \<times> int \<times> int \<Rightarrow> bytes result" where
  "account_part tag (k, b, n) = join_parts [Inr tag, len_bytes (utf8 k), u64 b, u64 n]"

lemma account_part_readable:
  assumes "account_part tag x = Inr a" "account_part tag y = Inr b" "a @ r = b @ r'"
  shows "x = y \<and> r = r'"
proof -
  obtain k m n where x: "x = (k, m, n)" by (cases x)
  obtain k' m' n' where y: "y = (k', m', n')" by (cases y)
  from assms(1) obtain a1 a2 a3 where a: "len_bytes (utf8 k) = Inr a1" "u64 m = Inr a2" "u64 n = Inr a3"
    "a = tag @ a1 @ a2 @ a3" by (auto simp: x join_parts_Cons)
  from assms(2) obtain b1 b2 b3 where b: "len_bytes (utf8 k') = Inr b1" "u64 m' = Inr b2" "u64 n' = Inr b3"
    "b = tag @ b1 @ b2 @ b3" by (auto simp: y join_parts_Cons)
  have e: "a1 @ (a2 @ a3 @ r) = b1 @ (b2 @ b3 @ r')" using assms(3) a(4) b(4) by simp
  from str_code.readable [OF a(1) b(1) e] have k: "k = k'" and e2: "a2 @ (a3 @ r) = b2 @ (b3 @ r')" by simp_all
  from u64_code.readable [OF a(2) b(2) e2] have m: "m = m'" and e3: "a3 @ r = b3 @ r'" by simp_all
  from u64_code.readable [OF a(3) b(3) e3] k m show ?thesis by (simp add: x y)
qed

interpretation account_code: prefix_code "account_part tag" for tag
  by unfold_locales (rule account_part_readable)

definition state_numbers :: "account_state \<Rightarrow> int list" where
  "state_numbers s = [genesis_supply s, mining_issued s, state_supply s, int (length (state_keys s))]"

definition state_part :: "bytes \<Rightarrow> account_state \<Rightarrow> bytes result" where
  "state_part tag s = join_parts (map u64 (state_numbers s) @ map (account_part tag) (entries s))"

lemma state_part_readable:
  assumes "state_part tag s = Inr a" "state_part tag s' = Inr b" "a @ r = b @ r'"
  shows "state_numbers s = state_numbers s' \<and> entries s = entries s' \<and> r = r'"
proof -
  from assms(1) obtain a1 a2 where a: "join_parts (map u64 (state_numbers s)) = Inr a1"
    "join_parts (map (account_part tag) (entries s)) = Inr a2" "a = a1 @ a2"
    by (auto simp: state_part_def join_parts_append)
  from assms(2) obtain b1 b2 where b: "join_parts (map u64 (state_numbers s')) = Inr b1"
    "join_parts (map (account_part tag) (entries s')) = Inr b2" "b = b1 @ b2"
    by (auto simp: state_part_def join_parts_append)
  have l: "length (state_numbers s) = length (state_numbers s')" by (simp add: state_numbers_def)
  have e: "a1 @ (a2 @ r) = b1 @ (b2 @ r')" using assms(3) a(3) b(3) by simp
  from u64_code.sequence_readable [OF a(1) b(1) l e]
  have n: "state_numbers s = state_numbers s'" and e2: "a2 @ r = b2 @ r'" by simp_all
  have l2: "length (entries s) = length (entries s')" using n by (simp add: state_numbers_def entries_def)
  from account_code.sequence_readable [OF a(2) b(2) l2 e2] n show ?thesis by simp
qed

lemma join_accounts:
  "join_parts (concat (map (\<lambda>k. [Inr tag, f k, g k, h k]) ks)) = Inr bs \<longleftrightarrow>
   join_parts (map (\<lambda>k. join_parts [Inr tag, f k, g k, h k]) ks) = Inr bs"
  "join_parts (concat (map (\<lambda>k. [f k, g k, h k]) ks)) = Inr bs \<longleftrightarrow>
   join_parts (map (\<lambda>k. join_parts [Inr [], f k, g k, h k]) ks) = Inr bs"
  by (induction ks arbitrary: bs; force simp: join_parts_Cons)+

lemma map_entries: "map (account_part tag) (entries s) =
  map (\<lambda>k. join_parts [Inr tag, len_bytes (utf8 k), u64 (dict_get k 0 (balances s)), u64 (dict_get k 0 (nonces s))])
    (state_keys s)"
  by (simp add: entries_def)

lemma state_preimage_parts:
  "state_preimage s = Inr bs \<longleftrightarrow>
   (\<exists>a. state_part (utf8 ''SYJ-STATE-ACCOUNT-V1'' @ [0]) s = Inr a \<and>
      bs = utf8 ''SYJ-STATE-ROOT-V1'' @ [0] @ to_bytes_big 1 STATE_VERSION @ a)"
  unfolding state_preimage_def state_part_def state_numbers_def map_entries
  by (force simp: join_parts_append join_parts_Cons join_accounts)

lemma encode_checkpoint_parts:
  "encode_checkpoint s = Inr bs \<longleftrightarrow>
   (\<exists>a h. state_part [] s = Inr a \<and> state_root s = Inr h \<and>
      bs = MAGIC @ to_bytes_big 1 STATE_VERSION @ a @ utf8 h)"
  unfolding encode_checkpoint_def state_part_def state_numbers_def map_entries
  by (cases "state_root s") (force simp: join_parts_append join_parts_Cons join_accounts)+

section \<open>What a checkpoint and a root identify\<close>

text \<open>The state two calls describe, the order of the dicts aside.\<close>

definition same_state :: "account_state \<Rightarrow> account_state \<Rightarrow> bool" where
  "same_state s s' \<longleftrightarrow>
     genesis_supply s = genesis_supply s' \<and> mining_issued s = mining_issued s' \<and> state_supply s = state_supply s' \<and>
     set (state_keys s) = set (state_keys s') \<and>
     (\<forall>k. dict_get k 0 (balances s) = dict_get k 0 (balances s') \<and> dict_get k 0 (nonces s) = dict_get k 0 (nonces s'))"

definition encodable :: "account_state \<Rightarrow> bool" where
  "encodable s \<longleftrightarrow> list_all (\<lambda>v. 0 \<le> v \<and> v < 2 ^ 64)
     (state_numbers s @ concat (map (\<lambda>(k, b, n). [int (length (utf8 k)), b, n]) (entries s)))"

lemma same_state_entries: "same_state s s' \<longleftrightarrow> state_numbers s = state_numbers s' \<and> entries s = entries s'"
proof
  assume a: "same_state s s'"
  then have "state_keys s = state_keys s'"
    by (simp add: same_state_def state_keys_def sorted_distinct_set_unique)
  with a show "state_numbers s = state_numbers s' \<and> entries s = entries s'"
    by (simp add: same_state_def state_numbers_def entries_def)
next
  assume a: "state_numbers s = state_numbers s' \<and> entries s = entries s'"
  have f: "map fst (entries x) = state_keys x" for x by (simp add: entries_def comp_def)
  have k: "state_keys s = state_keys s'" using a f by metis
  have o: "dict_get k 0 (balances x) = 0 \<and> dict_get k 0 (nonces x) = 0" if "k \<notin> set (state_keys x)" for k x
  proof -
    have "map_of (balances x) k = None" "map_of (nonces x) k = None"
      using that by (simp_all add: state_keys_def dict_keys_def map_of_eq_None_iff)
    then show ?thesis by (simp add: dict_get_def)
  qed
  have i: "dict_get k 0 (balances s) = dict_get k 0 (balances s') \<and> dict_get k 0 (nonces s) = dict_get k 0 (nonces s')"
    if "k \<in> set (state_keys s)" for k
    using a that by (simp add: entries_def k)
  have "dict_get j 0 (balances s) = dict_get j 0 (balances s') \<and> dict_get j 0 (nonces s) = dict_get j 0 (nonces s')" for j
    using i [of j] o [of j s] o [of j s'] k by (cases "j \<in> set (state_keys s)") simp_all
  with a k show "same_state s s'" by (simp add: same_state_def state_numbers_def)
qed

lemma same_state_part: "same_state s s' \<Longrightarrow> state_part tag s = state_part tag s'"
  by (simp add: same_state_entries state_part_def)

lemma same_state_root: "same_state s s' \<Longrightarrow> state_root s = state_root s'"
proof -
  assume a: "same_state s s'"
  then have "state_keys s = state_keys s'"
    by (simp add: same_state_def state_keys_def sorted_distinct_set_unique)
  with a show ?thesis by (simp add: state_root_def state_preimage_def same_state_def)
qed

section \<open>When there is an encoding\<close>

lemma join_parts_defined: "(\<exists>bs. join_parts ps = Inr bs) \<longleftrightarrow> (\<forall>p\<in>set ps. \<exists>a. p = Inr a)"
  by (induction ps) (auto simp: join_parts_Cons)

lemma join_parts_error: "join_parts ps = Inl e \<Longrightarrow> Inl e \<in> set ps"
  by (induction ps) (auto simp: join_parts_def split: sum.splits)

lemma u64_cases: "u64 v = Inl e \<Longrightarrow> e = ValueError" "(\<exists>a. u64 v = Inr a) \<longleftrightarrow> 0 \<le> v \<and> v < 2 ^ 64"
  by (auto simp: u64_def split: if_splits)

lemma len_bytes_cases: "len_bytes v = Inl e \<Longrightarrow> e = ValueError" "(\<exists>a. len_bytes v = Inr a) \<longleftrightarrow> int (length v) < 2 ^ 64"
  using u64_cases(1) [of "int (length v)" e] join_parts_error [of _ e] u64_cases(2) [of "int (length v)"]
  by (force simp: len_bytes_def join_parts_Cons)+

lemma join_map_defined: "(\<exists>bs. join_parts (map f xs) = Inr bs) \<longleftrightarrow> list_all (\<lambda>x. \<exists>a. f x = Inr a) xs"
  by (induction xs) (auto simp: join_parts_Cons)

lemma list_all_concat_map: "list_all P (concat (map f xs)) \<longleftrightarrow> list_all (\<lambda>x. list_all P (f x)) xs"
  by (induction xs) auto

lemma account_part_defined:
  "(\<exists>a. account_part tag e = Inr a) \<longleftrightarrow>
   list_all (\<lambda>v. 0 \<le> v \<and> v < 2 ^ 64) (case e of (k, b, n) \<Rightarrow> [int (length (utf8 k)), b, n])"
  by (cases e) (simp add: join_parts_defined u64_cases(2) len_bytes_cases(2))

lemma state_part_defined: "(\<exists>a. state_part tag s = Inr a) \<longleftrightarrow> encodable s"
proof -
  have "(\<exists>a. state_part tag s = Inr a) \<longleftrightarrow>
      (\<exists>bs. join_parts (map u64 (state_numbers s)) = Inr bs) \<and>
      (\<exists>bs. join_parts (map (account_part tag) (entries s)) = Inr bs)"
    by (auto simp: state_part_def join_parts_append)
  then show ?thesis
    by (simp only: join_map_defined account_part_defined u64_cases(2) encodable_def list_all_append list_all_concat_map)
qed

lemmas part_errors = u64_cases(1) [OF sym] len_bytes_cases(1) [OF sym]

lemma state_root_error: "state_root s = Inl e \<Longrightarrow> e = ValueError"
proof -
  assume "state_root s = Inl e"
  then have "state_preimage s = Inl e" unfolding state_root_def by (cases "state_preimage s") auto
  then show ?thesis unfolding state_preimage_def by (auto dest!: join_parts_error part_errors split: if_splits)
qed

lemma state_root_defined: "(\<exists>h. state_root s = Inr h) \<longleftrightarrow> encodable s"
  unfolding state_part_defined [of "utf8 ''SYJ-STATE-ACCOUNT-V1'' @ [0]", symmetric] state_root_def
  using state_preimage_parts [of s] by (cases "state_preimage s") auto

lemma encode_checkpoint_defined: "(\<exists>bs. encode_checkpoint s = Inr bs) \<longleftrightarrow> encodable s"
  using state_root_defined [of s] state_part_defined [of "[]" s] by (auto simp: encode_checkpoint_parts)

text \<open>Two accounts, written down in either order.\<close>

definition sample_accounts :: account_state where
  "sample_accounts = \<lparr>balances = [(''a'', 7), (''b'', 0)], nonces = [(''b'', 2)], genesis_supply = 0,
     mining_issued = 7, state_supply = 7\<rparr>"

definition sample_reordered :: account_state where
  "sample_reordered = \<lparr>balances = [(''b'', 0), (''a'', 7)], nonces = [(''b'', 2)], genesis_supply = 0,
     mining_issued = 7, state_supply = 7\<rparr>"

lemma sample_same: "same_state sample_accounts sample_reordered"
  by (simp add: same_state_entries state_numbers_def entries_def state_keys_def sample_accounts_def
      sample_reordered_def dict_keys_def dict_get_def)

lemma sample_encodable: "encodable sample_accounts"
  by (simp add: encodable_def state_numbers_def entries_def state_keys_def sample_accounts_def dict_keys_def
      dict_get_def utf8_def utf8_char_def)

section \<open>Properties\<close>

text \<open>C14: A checkpoint identifies the state: when \<open>encode_checkpoint\<close> succeeds on a state, it produces the same
  bytes for another one exactly if the two have the same supplies, the same accounts, and every account the
  same balance and nonce.  Dict order does not matter, and no two different states share an encoding.\<close>
theorem checkpoint_identifies_state:
  assumes "encode_checkpoint s = Inr bs"
  shows "encode_checkpoint s' = Inr bs \<longleftrightarrow> same_state s s'"
proof
  assume "encode_checkpoint s' = Inr bs"
  then obtain b h' where b: "state_part [] s' = Inr b" "bs = MAGIC @ to_bytes_big 1 STATE_VERSION @ b @ utf8 h'"
    by (auto simp: encode_checkpoint_parts)
  from assms obtain a h where a: "state_part [] s = Inr a" "bs = MAGIC @ to_bytes_big 1 STATE_VERSION @ a @ utf8 h"
    by (auto simp: encode_checkpoint_parts)
  have "a @ utf8 h = b @ utf8 h'" using a(2) b(2) by simp
  from state_part_readable [OF a(1) b(1) this] show "same_state s s'" by (simp add: same_state_entries)
next
  assume "same_state s s'"
  with assms show "encode_checkpoint s' = Inr bs"
    by (simp add: encode_checkpoint_parts same_state_part [of s s'] same_state_root [of s s'])
qed

theorem checkpoint_identifies_state_witness:
  "\<exists>bs. encode_checkpoint sample_accounts = Inr bs \<and> encode_checkpoint sample_reordered = Inr bs \<and>
     encode_checkpoint (sample_accounts\<lparr>nonces := []\<rparr>) \<noteq> Inr bs"
proof -
  obtain bs where b: "encode_checkpoint sample_accounts = Inr bs"
    using sample_encodable encode_checkpoint_defined by blast
  have "\<not> same_state sample_accounts (sample_accounts\<lparr>nonces := []\<rparr>)"
    by (simp add: same_state_entries state_numbers_def entries_def state_keys_def sample_accounts_def
        dict_keys_def dict_get_def)
  with b checkpoint_identifies_state [OF b] sample_same show ?thesis by blast
qed

text \<open>C25: The state root commits to the state: two states with one root are the same state, or the two texts
  hashed are an explicit SHA-256 collision.\<close>
theorem state_root_commits:
  assumes "state_root s = Inr h" "state_root s' = Inr h"
  shows "same_state s s' \<or>
    (\<exists>a b. state_preimage s = Inr a \<and> state_preimage s' = Inr b \<and> a \<noteq> b \<and> sha256_hex a = sha256_hex b)"
proof -
  obtain a b where p: "state_preimage s = Inr a" "state_preimage s' = Inr b" "sha256_hex a = sha256_hex b"
    using assms unfolding state_root_def by (cases "state_preimage s"; cases "state_preimage s'") auto
  show ?thesis
  proof (cases "a = b")
    case True
    from p(1) obtain a' where a: "state_part (utf8 ''SYJ-STATE-ACCOUNT-V1'' @ [0]) s = Inr a'"
      "a = utf8 ''SYJ-STATE-ROOT-V1'' @ [0] @ to_bytes_big 1 STATE_VERSION @ a'"
      unfolding state_preimage_parts by blast
    from p(2) obtain b' where b: "state_part (utf8 ''SYJ-STATE-ACCOUNT-V1'' @ [0]) s' = Inr b'"
      "b = utf8 ''SYJ-STATE-ROOT-V1'' @ [0] @ to_bytes_big 1 STATE_VERSION @ b'"
      unfolding state_preimage_parts by blast
    have "a' @ [] = b' @ []" using True a(2) b(2) by simp
    from state_part_readable [OF a(1) b(1) this] show ?thesis by (simp add: same_state_entries)
  next
    case False
    with p show ?thesis by blast
  qed
qed

theorem state_root_commits_witness:
  "\<exists>h. state_root sample_accounts = Inr h \<and> state_root sample_reordered = Inr h \<and>
     (same_state sample_accounts sample_reordered \<or>
      (\<exists>a b. state_preimage sample_accounts = Inr a \<and> state_preimage sample_reordered = Inr b \<and>
         a \<noteq> b \<and> sha256_hex a = sha256_hex b))"
proof -
  obtain h where h: "state_root sample_accounts = Inr h" using sample_encodable state_root_defined by blast
  then have "state_root sample_reordered = Inr h" using same_state_root [OF sample_same] by simp
  with h state_root_commits [OF h this] show ?thesis by blast
qed

text \<open>The codec is total on 64-bit states and refuses all others: a checkpoint exists exactly if both supplies,
  the issued amount, the number of accounts, and every key length, balance and nonce fit in 64 bits unsigned;
  otherwise \<open>encode_checkpoint\<close> raises \<open>ValueError\<close>.\<close>
theorem checkpoint_in_range:
  "case encode_checkpoint s of Inr bs \<Rightarrow> encodable s | Inl e \<Rightarrow> \<not> encodable s \<and> e = ValueError"
proof -
  have "e = ValueError" if "encode_checkpoint s = Inl e" for e
    using that state_root_error [of s e] unfolding encode_checkpoint_def
    by (cases "state_root s") (auto dest!: join_parts_error part_errors)
  with encode_checkpoint_defined [of s] show ?thesis by (auto split: sum.splits)
qed

end
