(* ===== verification/V2_Reference.thy ===== *)
theory V2_Reference
  imports State_Root Json_Text Wallet
begin

text \<open>
  \<open>scripts/phase8/v2_reference.py\<close>: the independent reference of the second protocol version: arithmetic on
  the curve, deterministic nonces, signatures and the identifiers of version 2 transactions.  A point is an affine
  pair, \<open>None\<close> the point at infinity.  Scalars are natural numbers, as every caller's are (a negative one would
  loop for ever).  The search for a nonce may in principle not end: it is a partial function.
\<close>

definition curve_P :: int where
  "curve_P = 0xFFFFFFFFFFFFFFFFFFFFFFFFFFFFFFFFFFFFFFFFFFFFFFFFFFFFFFFEFFFFFC2F"

definition order_N :: int where
  "order_N = 0xFFFFFFFFFFFFFFFFFFFFFFFFFFFFFFFEBAAEDCE6AF48A03BBFD25E8CD0364141"

definition base_G :: "int \<times> int" where
  "base_G = (55066263022277343669578718895168534326250603453777594175500187360389116729240,
     32670510020758816978083085130507043184471273380659243275938904335757337482424)"

definition HALF_N :: int where
  "HALF_N = order_N div 2"

definition canon :: "pyval \<Rightarrow> bytes" where
  "canon v = utf8 (deterministic_json v)"

section \<open>The curve\<close>

text \<open>\<open>pow(a, -1, m)\<close>.\<close>

definition inv_mod :: "int \<Rightarrow> int \<Rightarrow> int result" where
  "inv_mod a m =
     (if gcd a m = 1 then Inr (fst (bezw (nat (a mod m)) (nat m)) mod m) else Inl ValueError)"

type_synonym point = "(int \<times> int) option"

definition point_add :: "point \<Rightarrow> point \<Rightarrow> point result" where
  "point_add a b =
     (case a of
        None \<Rightarrow> Inr b
      | Some (x1, y1) \<Rightarrow>
          (case b of
             None \<Rightarrow> Inr a
           | Some (x2, y2) \<Rightarrow>
               if x1 = x2 \<and> (y1 + y2) mod curve_P = 0 then Inr None
               else
                 (case (if a = b then map_sum id (\<lambda>i. (3 * x1 * x1) * i mod curve_P) (inv_mod ((2 * y1) mod curve_P) curve_P)
                        else map_sum id (\<lambda>i. (y2 - y1) * i mod curve_P) (inv_mod ((x2 - x1) mod curve_P) curve_P)) of
                    Inl e \<Rightarrow> Inl e
                  | Inr lam \<Rightarrow>
                      let x3 = (lam * lam - x1 - x2) mod curve_P;
                          y3 = (lam * (x1 - x3) - y1) mod curve_P
                      in Inr (Some (x3, y3)))))"

fun scalar_loop :: "nat \<Rightarrow> point \<Rightarrow> point \<Rightarrow> point result" where
  "scalar_loop k out cur =
     (if k = 0 then Inr out
      else
        (case (if odd k then point_add out cur else Inr out) of
           Inl e \<Rightarrow> Inl e
         | Inr out' \<Rightarrow>
             (case point_add cur cur of
                Inl e \<Rightarrow> Inl e
              | Inr cur' \<Rightarrow> scalar_loop (k div 2) out' cur')))"

declare scalar_loop.simps [simp del]

definition scalar_mul :: "nat \<Rightarrow> point \<Rightarrow> point result" where
  "scalar_mul k p = scalar_loop k None p"

section \<open>Nonces\<close>

text \<open>\<open>n.to_bytes(32, 'big')\<close>.\<close>

definition to_bytes_32 :: "int \<Rightarrow> bytes result" where
  "to_bytes_32 n = (if 0 \<le> n \<and> n < 2 ^ 256 then Inr (to_bytes_big 32 n) else Inl OverflowError)"

definition bits2octets :: "bytes \<Rightarrow> bytes result" where
  "bits2octets h1 =
     (let z1 = from_bytes_big h1; z2 = (if z1 \<ge> order_N then z1 - order_N else z1) in to_bytes_32 z2)"

text \<open>\<open>hmac.new(key, msg, sha256).digest()\<close> (RFC 2104).\<close>

definition hmac_sha256 :: "bytes \<Rightarrow> bytes \<Rightarrow> bytes" where
  "hmac_sha256 key msg =
     (let k0 = (if length key > 64 then sha256_digest key else key);
          k = k0 @ replicate (64 - length k0) 0
      in sha256_digest (map (\<lambda>b. xor b 0x5c) k @ sha256_digest (map (\<lambda>b. xor b 0x36) k @ msg)))"

lemma length_hmac [simp]: "length (hmac_sha256 key msg) = 32"
  by (simp add: hmac_sha256_def Let_def)

text \<open>\<open>while len(T) < 32\<close>: the collected bytes and the last value.\<close>

function collect_T :: "bytes \<Rightarrow> bytes \<Rightarrow> bytes \<Rightarrow> bytes \<times> bytes" where
  "collect_T K V T =
     (if length T < 32 then let V' = hmac_sha256 K V in collect_T K V' (T @ V') else (T, V))"
  by auto
termination by (relation "measure (\<lambda>(K, V, T). 32 - length T)") (auto simp: Let_def)

declare collect_T.simps [simp del]

partial_function (option) nonce_loop :: "bytes \<Rightarrow> bytes \<Rightarrow> int option" where
  "nonce_loop K V =
     (let (T, V1) = collect_T K V [];
          k = from_bytes_big T
      in if 1 \<le> k \<and> k < order_N then Some k
         else let K' = hmac_sha256 K (V1 @ [0]); V' = hmac_sha256 K' V1 in nonce_loop K' V')"

definition rfc6979_k :: "int \<Rightarrow> bytes \<Rightarrow> int result option" where
  "rfc6979_k priv digest =
     (case to_bytes_32 priv of
        Inl e \<Rightarrow> Some (Inl e)
      | Inr x \<Rightarrow>
          (case bits2octets digest of
             Inl e \<Rightarrow> Some (Inl e)
           | Inr h1 \<Rightarrow>
               let V0 = replicate 32 1; K0 = replicate 32 0;
                   K1 = hmac_sha256 K0 (V0 @ [0] @ x @ h1); V1 = hmac_sha256 K1 V0;
                   K2 = hmac_sha256 K1 (V1 @ [1] @ x @ h1); V2 = hmac_sha256 K2 V1
               in map_option Inr (nonce_loop K2 V2)))"

section \<open>Signatures\<close>

definition sign_with :: "int \<Rightarrow> bytes \<Rightarrow> int \<Rightarrow> bytes result" where
  "sign_with priv digest k =
     (let z = from_bytes_big digest in
      case scalar_mul (nat k) (Some base_G) of
        Inl e \<Rightarrow> Inl e
      | Inr None \<Rightarrow> Inl TypeError
      | Inr (Some (x, _)) \<Rightarrow>
          let r = x mod order_N in
          (case inv_mod k order_N of
             Inl e \<Rightarrow> Inl e
           | Inr ki \<Rightarrow>
               let s = ((z + r * priv) * ki) mod order_N;
                   s' = (if s > HALF_N then order_N - s else s)
               in case to_bytes_32 r of
                    Inl e \<Rightarrow> Inl e
                  | Inr rb \<Rightarrow> map_sum id (\<lambda>sb. rb @ sb) (to_bytes_32 s')))"

definition v2_sign :: "int \<Rightarrow> bytes \<Rightarrow> bytes result option" where
  "v2_sign priv digest =
     (case rfc6979_k priv digest of
        None \<Rightarrow> None
      | Some (Inl e) \<Rightarrow> Some (Inl e)
      | Some (Inr k) \<Rightarrow> Some (sign_with priv digest k))"

definition v2_verify :: "point \<Rightarrow> bytes \<Rightarrow> bytes \<Rightarrow> bool result" where
  "v2_verify pub digest sig =
     (let r = from_bytes_big (take 32 sig);
          s = from_bytes_big (drop 32 sig)
      in if \<not> (1 \<le> r \<and> r < order_N \<and> 1 \<le> s \<and> s \<le> HALF_N) then Inr False
         else
           case inv_mod s order_N of
             Inl e \<Rightarrow> Inl e
           | Inr w \<Rightarrow>
               let z = from_bytes_big digest in
               (case scalar_mul (nat (z * w)) (Some base_G) of
                  Inl e \<Rightarrow> Inl e
                | Inr p1 \<Rightarrow>
                    (case scalar_mul (nat (r * w)) pub of
                       Inl e \<Rightarrow> Inl e
                     | Inr p2 \<Rightarrow>
                         map_sum id (\<lambda>q. case q of None \<Rightarrow> False | Some (x, _) \<Rightarrow> x mod order_N = r)
                           (point_add p1 p2))))"

section \<open>Version 2 identifiers\<close>

definition effective_network_id :: "string \<times> bytes" where
  "effective_network_id =
     (let payload = PDict
        [(''consensus_protocol_version'', PInt 2),
         (''genesis_state_commitment'', PStr ''36351980711cd88fe6ff134f0e4e858ee1a4572a9f44b7bde9f57213e7f1eb82''),
         (''historical_genesis_hash'', PStr ''5c95d2d7b63bde94fbfcfe4c2a95850ca96e0fc649e93e545b8b32f3a9c7cc1b''),
         (''network_name'', PStr ''sayanjali-syj-phase7-v1'')]
      in (sha256_hex (utf8 ''SYJ-EFFECTIVE-NETWORK-ID-V1'' @ [0] @ canon payload), canon payload))"

record v2_transaction =
  v2_version :: int
  v2_network_id :: string
  v2_sender :: string
  v2_receiver :: string
  v2_amount_base_units :: int
  v2_nonce :: int
  v2_timestamp :: pyval
  v2_sender_public_key :: string

text \<open>The payload always says version 2.\<close>

definition v2_payload :: "v2_transaction \<Rightarrow> pyval" where
  "v2_payload tx =
     PDict [(''amount_base_units'', PInt (v2_amount_base_units tx)),
            (''network_id'', PStr (v2_network_id tx)),
            (''nonce'', PInt (v2_nonce tx)),
            (''receiver'', PStr (v2_receiver tx)),
            (''sender'', PStr (v2_sender tx)),
            (''sender_public_key'', PStr (v2_sender_public_key tx)),
            (''timestamp'', v2_timestamp tx),
            (''version'', PInt 2)]"

definition v2_signing_bytes :: "v2_transaction \<Rightarrow> bytes" where
  "v2_signing_bytes tx = utf8 ''SYJ-TX-SIGN-V2'' @ [0] @ canon (v2_payload tx)"

definition v2_digest :: "v2_transaction \<Rightarrow> bytes" where
  "v2_digest tx = sha256_digest (v2_signing_bytes tx)"

definition v2_id_bytes :: "v2_transaction \<Rightarrow> bytes" where
  "v2_id_bytes tx = utf8 ''SYJ-TX-ID-V2'' @ [0] @ canon (v2_payload tx)"

definition v2_tx_id :: "v2_transaction \<Rightarrow> string" where
  "v2_tx_id tx = sha256_hex (v2_id_bytes tx)"

section \<open>Modular arithmetic\<close>

lemma inv_mod_Inr:
  assumes "inv_mod a m = Inr u" "1 < m"
  shows "m dvd a * u - 1"
proof -
  define b where "b = a mod m"
  have b: "0 \<le> b" "int (nat b) = b" "int (nat m) = m" using assms(2) by (simp_all add: b_def)
  have g: "gcd b m = 1" "u = fst (bezw (nat b) (nat m)) mod m"
    using assms(1) by (auto simp: inv_mod_def b_def gcd_red_int [symmetric] gcd.commute split: if_splits)
  have "gcd (nat b) (nat m) = 1" using g(1) b by (metis gcd_int_int_eq of_nat_1 of_nat_eq_iff)
  then have "1 = fst (bezw (nat b) (nat m)) * b + snd (bezw (nat b) (nat m)) * m"
    using bezw_aux [of "nat b" "nat m"] b by simp
  then have "m dvd b * fst (bezw (nat b) (nat m)) - 1"
    by (metis (no_types, opaque_lifting) add_diff_cancel_left' diff_minus_eq_add dvd_minus_iff dvd_triv_right minus_diff_eq mult.commute)
  then have "m dvd a * fst (bezw (nat b) (nat m)) - 1"
    by (simp add: b_def mod_eq_dvd_iff [symmetric] mod_mult_left_eq)
  then show ?thesis by (simp add: g(2) mod_eq_dvd_iff [symmetric] mod_mult_right_eq)
qed

lemma inv_mod_Inl: "inv_mod a m = Inl e \<Longrightarrow> e = ValueError \<and> gcd a m \<noteq> 1"
  by (simp add: inv_mod_def split: if_splits)

text \<open>The third intersection of a line with the curve, as divisibility by a modulus \<open>m\<close>: the chord through two
  points and the tangent in one.\<close>
lemma chord_third_point:
  fixes x1 :: int
  assumes p1: "m dvd y1 * y1 - (x1 * x1 * x1 + 7)" and p2: "m dvd y2 * y2 - (x2 * x2 * x2 + 7)"
    and slope: "m dvd lam * (x2 - x1) - (y2 - y1)" and u: "m dvd (x2 - x1) * u - 1"
    and x3: "x3 = lam * lam - x1 - x2" and y3: "y3 = lam * (x1 - x3) - y1"
  shows "m dvd y3 * y3 - (x3 * x3 * x3 + 7)"
proof -
  define f1 where "f1 = x1 * x1 * x1 + 7 - y1 * y1"
  define f2 where "f2 = x2 * x2 * x2 + 7 - (y1 + lam * (x2 - x1)) * (y1 + lam * (x2 - x1))"
  define al where "al = - 2 * lam * (y1 - lam * x1) - (x1 * x2 + (x1 + x2) * x3)"
  have f1: "m dvd f1" using p1 unfolding f1_def by (metis dvd_minus_iff minus_diff_eq)
  have "f2 = - (y2 * y2 - (x2 * x2 * x2 + 7)) - (lam * (x2 - x1) - (y2 - y1)) * (y1 + lam * (x2 - x1) + y2)"
    unfolding f2_def by algebra
  then have f2: "m dvd f2" using p2 slope by (simp only: dvd_diff dvd_minus_iff dvd_mult2)
  have "al * (x2 - x1) = f2 - f1" unfolding al_def f1_def f2_def x3 by algebra
  then have "m dvd al * (x2 - x1)" using f1 f2 by simp
  moreover have "al = al * (x2 - x1) * u - al * ((x2 - x1) * u - 1)" by algebra
  ultimately have al: "m dvd al" using u by (metis dvd_diff dvd_mult dvd_mult2)
  have "y3 * y3 - (x3 * x3 * x3 + 7) = - ((x3 - x1) * al + f1)"
    unfolding y3 al_def f1_def x3 by algebra
  then show ?thesis using al f1 by simp
qed

lemma tangent_third_point:
  fixes x1 :: int
  assumes p1: "m dvd y1 * y1 - (x1 * x1 * x1 + 7)" and slope: "m dvd lam * (2 * y1) - 3 * x1 * x1"
    and x3: "x3 = lam * lam - x1 - x1" and y3: "y3 = lam * (x1 - x3) - y1"
  shows "m dvd y3 * y3 - (x3 * x3 * x3 + 7)"
proof -
  have "y3 * y3 - (x3 * x3 * x3 + 7) =
      (y1 * y1 - (x1 * x1 * x1 + 7)) + (x3 - x1) * (lam * (2 * y1) - 3 * x1 * x1)"
    unfolding y3 x3 by algebra
  then show ?thesis using p1 slope by (simp only: dvd_add dvd_mult)
qed

section \<open>Points stay on the curve\<close>

definition on_curve :: "point \<Rightarrow> bool" where
  "on_curve p \<longleftrightarrow>
     (case p of None \<Rightarrow> True
      | Some (x, y) \<Rightarrow> 0 \<le> x \<and> x < curve_P \<and> 0 \<le> y \<and> y < curve_P \<and> (y * y) mod curve_P = (x * x * x + 7) mod curve_P)"

text \<open>A number that shows the modulus to be composite.\<close>

definition shares_factor :: "int \<Rightarrow> bool" where
  "shares_factor d \<longleftrightarrow> 0 < d \<and> d < curve_P \<and> gcd d curve_P \<noteq> 1"

lemma curve_P_pos [simp]: "0 < curve_P" "1 < curve_P" "0 \<le> curve_P" "curve_P \<noteq> 0" "curve_P \<noteq> 1"
  by (simp_all add: curve_P_def)

lemma on_curve_reduce:
  assumes "curve_P dvd y * y - (x * x * x + 7)"
  shows "on_curve (Some (x mod curve_P, y mod curve_P))"
proof -
  have "(x mod curve_P * (x mod curve_P) * (x mod curve_P) + 7) mod curve_P = (x * x * x + 7) mod curve_P"
    by (intro mod_add_cong mod_mult_cong) simp_all
  with assms show ?thesis by (simp add: on_curve_def mod_eq_dvd_iff [symmetric] mod_mult_eq)
qed

lemma mod_between: "a mod curve_P \<noteq> 0 \<Longrightarrow> 0 < a mod curve_P \<and> a mod curve_P < curve_P"
  by (metis curve_P_pos(1) order_le_less pos_mod_bound pos_mod_sign)

text \<open>Two points with the same \<open>x\<close> that are neither equal nor opposite.\<close>
lemma same_x_factor:
  assumes "on_curve (Some (x, y1))" "on_curve (Some (x, y2))" "y1 \<noteq> y2" "(y1 + y2) mod curve_P \<noteq> 0"
  shows "\<exists>d. shares_factor d"
proof -
  have "curve_P dvd y1 * y1 - y2 * y2"
    using assms(1,2) by (simp add: on_curve_def mod_eq_dvd_iff [symmetric])
  moreover have "y1 * y1 - y2 * y2 = (y1 - y2) * (y1 + y2)" by algebra
  ultimately have "curve_P dvd (y1 - y2) * (y1 + y2)" by simp
  moreover have "\<not> curve_P dvd y1 + y2" using assms(4) by (simp add: dvd_eq_mod_eq_0)
  ultimately have "\<not> coprime curve_P (y1 - y2)" by (metis coprime_dvd_mult_right_iff)
  then have "gcd \<bar>y1 - y2\<bar> curve_P \<noteq> 1" by (simp add: coprime_iff_gcd_eq_1 gcd.commute)
  moreover have "0 < \<bar>y1 - y2\<bar>" "\<bar>y1 - y2\<bar> < curve_P" using assms by (auto simp: on_curve_def)
  ultimately show ?thesis unfolding shares_factor_def by blast
qed

definition closed_result :: "point result \<Rightarrow> bool" where
  "closed_result r \<longleftrightarrow>
     (case r of Inr p \<Rightarrow> on_curve p | Inl e \<Rightarrow> e = ValueError \<and> (\<exists>d. shares_factor d))"

text \<open>The sum for a slope, whatever it came from.\<close>

definition third :: "int \<Rightarrow> int \<Rightarrow> int \<Rightarrow> int \<Rightarrow> point" where
  "third lam x1 y1 x2 =
     Some ((lam * lam - x1 - x2) mod curve_P, (lam * (x1 - (lam * lam - x1 - x2) mod curve_P) - y1) mod curve_P)"

lemma third_on_curve:
  assumes "curve_P dvd y * y - (x * x * x + 7)" "x = lam * lam - x1 - x2" "y = lam * (x1 - x) - y1"
  shows "on_curve (third lam x1 y1 x2)"
proof -
  have "(lam * (x1 - (lam * lam - x1 - x2) mod curve_P) - y1) mod curve_P = y mod curve_P"
    unfolding assms(2,3) by (intro mod_diff_cong mod_mult_cong) simp_all
  then show ?thesis using on_curve_reduce [OF assms(1)] by (simp add: assms(2) third_def)
qed

lemma point_add_double:
  "2 * y mod curve_P \<noteq> 0 \<Longrightarrow> point_add (Some (x, y)) (Some (x, y)) =
     map_sum id (\<lambda>i. third (3 * x * x * i mod curve_P) x y x) (inv_mod (2 * y mod curve_P) curve_P)"
  by (cases "inv_mod (2 * y mod curve_P) curve_P") (simp_all add: point_add_def third_def Let_def)

lemma point_add_chord:
  "x1 \<noteq> x2 \<or> y1 \<noteq> y2 \<and> (y1 + y2) mod curve_P \<noteq> 0 \<Longrightarrow> point_add (Some (x1, y1)) (Some (x2, y2)) =
     map_sum id (\<lambda>i. third ((y2 - y1) * i mod curve_P) x1 y1 x2) (inv_mod ((x2 - x1) mod curve_P) curve_P)"
  by (cases "inv_mod ((x2 - x1) mod curve_P) curve_P") (auto simp: point_add_def third_def Let_def)

lemma slope_mod:
  fixes m :: int
  assumes "m dvd (d mod m) * i - 1"
  shows "m dvd (n * i mod m) * d - n" "m dvd d * i - 1"
proof -
  have di: "(d * i) mod m = 1 mod m" using assms by (simp add: mod_eq_dvd_iff [symmetric] mod_mult_left_eq)
  then show "m dvd d * i - 1" by (simp add: mod_eq_dvd_iff)
  have "(n * i mod m * d) mod m = (n * (d * i)) mod m"
    by (metis mod_mult_left_eq mult.assoc mult.commute)
  also have "\<dots> = n mod m" using di by (metis mod_mult_right_eq mult.right_neutral)
  finally show "m dvd (n * i mod m) * d - n" by (simp add: mod_eq_dvd_iff)
qed

lemma on_curve_dvd: "on_curve (Some (x, y)) \<Longrightarrow> curve_P dvd y * y - (x * x * x + 7)"
  by (simp add: on_curve_def mod_eq_dvd_iff)

lemma inv_mod_factor:
  "inv_mod (a mod curve_P) curve_P = Inl e \<Longrightarrow> a mod curve_P \<noteq> 0 \<Longrightarrow> e = ValueError \<and> shares_factor (a mod curve_P)"
  using inv_mod_Inl mod_between by (auto simp: shares_factor_def)

lemma double_closed:
  assumes "on_curve (Some (x, y))" "2 * y mod curve_P \<noteq> 0"
  shows "closed_result (point_add (Some (x, y)) (Some (x, y)))"
proof (cases "inv_mod (2 * y mod curve_P) curve_P")
  case (Inl e)
  with inv_mod_factor [OF Inl assms(2)] have "point_add (Some (x, y)) (Some (x, y)) = Inl ValueError"
    by (simp add: point_add_double assms(2))
  then show ?thesis using inv_mod_factor [OF Inl assms(2)] unfolding closed_result_def by auto
next
  case (Inr i)
  note s = slope_mod(1) [OF inv_mod_Inr [OF Inr curve_P_pos(2)]]
  have "on_curve (third (3 * x * x * i mod curve_P) x y x)"
    by (rule third_on_curve [OF tangent_third_point [OF on_curve_dvd [OF assms(1)] s refl refl] refl refl])
  then show ?thesis using assms(2) by (simp add: point_add_double closed_result_def Inr)
qed

lemma chord_closed:
  assumes "on_curve (Some (x1, y1))" "on_curve (Some (x2, y2))" "x1 \<noteq> x2"
  shows "closed_result (point_add (Some (x1, y1)) (Some (x2, y2)))"
proof (cases "inv_mod ((x2 - x1) mod curve_P) curve_P")
  case (Inl e)
  have "x2 mod curve_P \<noteq> x1 mod curve_P" using assms by (simp add: on_curve_def)
  then have "(x2 - x1) mod curve_P \<noteq> 0" by (simp add: mod_eq_dvd_iff dvd_eq_mod_eq_0)
  note f = inv_mod_factor [OF Inl this]
  with Inl assms(3) have "point_add (Some (x1, y1)) (Some (x2, y2)) = Inl ValueError"
    by (simp add: point_add_chord)
  then show ?thesis using f unfolding closed_result_def by auto
next
  case (Inr i)
  note s = slope_mod [OF inv_mod_Inr [OF Inr curve_P_pos(2)]]
  have "on_curve (third ((y2 - y1) * i mod curve_P) x1 y1 x2)"
    by (rule third_on_curve [OF chord_third_point [OF on_curve_dvd [OF assms(1)] on_curve_dvd [OF assms(2)]
          s(1) s(2) refl refl] refl refl])
  then show ?thesis using assms(3) by (simp add: point_add_chord closed_result_def Inr)
qed

lemma point_add_closed:
  assumes "on_curve a" "on_curve b"
  shows "closed_result (point_add a b)"
proof (cases "a = None \<or> b = None")
  case True
  then show ?thesis using assms by (cases a) (auto simp: point_add_def closed_result_def)
next
  case False
  then obtain x1 y1 x2 y2 where ab: "a = Some (x1, y1)" "b = Some (x2, y2)" by auto
  consider (opposite) "x1 = x2" "(y1 + y2) mod curve_P = 0"
    | (double) "x1 = x2" "y1 = y2" "(y1 + y2) mod curve_P \<noteq> 0"
    | (stuck) "x1 = x2" "y1 \<noteq> y2" "(y1 + y2) mod curve_P \<noteq> 0" | (chord) "x1 \<noteq> x2"
    by blast
  then show ?thesis
  proof cases
    case opposite
    then show ?thesis by (simp add: point_add_def ab closed_result_def on_curve_def)
  next
    case stuck
    then show ?thesis using same_x_factor [of x1 y1 y2] assms
      by (simp add: ab point_add_chord closed_result_def inv_mod_def)
  qed (use assms in \<open>simp_all add: ab double_closed chord_closed\<close>)
qed

lemma scalar_loop_closed: "on_curve out \<Longrightarrow> on_curve cur \<Longrightarrow> closed_result (scalar_loop k out cur)"
proof (induction k out cur rule: scalar_loop.induct)
  case (1 k out cur)
  let ?o = "if odd k then point_add out cur else Inr out"
  have o: "closed_result ?o"
    using 1(2,3) point_add_closed [of out cur] by (simp add: closed_result_def)
  have c: "closed_result (point_add cur cur)" using 1(3) by (simp add: point_add_closed)
  show ?case
  proof (cases "k = 0")
    case False
    show ?thesis
    proof (cases "isl ?o \<or> isl (point_add cur cur)")
      case True
      with o c False show ?thesis
        by (subst scalar_loop.simps) (cases ?o; cases "point_add cur cur"; simp add: closed_result_def)
    next
      case parts: False
      then obtain out' cur' where p: "?o = Inr out'" "point_add cur cur = Inr cur'"
        by (cases ?o; cases "point_add cur cur") auto
      with o c have "on_curve out'" "on_curve cur'" unfolding closed_result_def by simp_all
      with 1(1) [OF False p] show ?thesis
        by (subst scalar_loop.simps) (simp only: False p sum.case if_False)
    qed
  qed (use 1(2) in \<open>simp add: scalar_loop.simps closed_result_def\<close>)
qed

lemma base_G_on_curve: "on_curve (Some base_G)"
proof -
  have "fst base_G * fst base_G * fst base_G + 7 - snd base_G * snd base_G = curve_P * 1442042049659660869506300006036683750029629333882594701370927246876626245108435922902327776681700708714008192087431130951749952236093997894375239788520937"
    by (simp add: base_G_def curve_P_def)
  then have "curve_P dvd snd base_G * snd base_G - (fst base_G * fst base_G * fst base_G + 7)"
    by (metis dvd_minus_iff dvd_triv_left minus_diff_eq)
  then have "(snd base_G * snd base_G) mod curve_P = (fst base_G * fst base_G * fst base_G + 7) mod curve_P"
    by (simp only: mod_eq_dvd_iff)
  moreover have "0 \<le> fst base_G" "fst base_G < curve_P" "0 \<le> snd base_G" "snd base_G < curve_P"
    by (simp_all add: base_G_def curve_P_def)
  ultimately have "on_curve (Some (fst base_G, snd base_G))" unfolding on_curve_def option.case prod.case by blast
  then show ?thesis by (simp only: prod.collapse)
qed

text \<open>C30: Multiples stay on the curve.  A multiple of a point of the curve is a point of the curve; the computation always ends
  and raises nothing but \<open>ValueError\<close>, and that only if the modulus had a proper divisor.\<close>
theorem scalar_mul_on_curve:
  assumes "on_curve p"
  shows "case scalar_mul k p of
      Inr q \<Rightarrow> on_curve q
    | Inl e \<Rightarrow> e = ValueError \<and> (\<exists>d. 0 < d \<and> d < curve_P \<and> gcd d curve_P \<noteq> 1)"
proof -
  have "closed_result (scalar_mul k p)"
    unfolding scalar_mul_def by (rule scalar_loop_closed) (simp_all add: assms on_curve_def [of None])
  then show ?thesis unfolding closed_result_def shares_factor_def .
qed

theorem scalar_mul_on_curve_witness:
  "case scalar_mul 12345 (Some base_G) of
      Inr q \<Rightarrow> on_curve q
    | Inl e \<Rightarrow> e = ValueError \<and> (\<exists>d. 0 < d \<and> d < curve_P \<and> gcd d curve_P \<noteq> 1)"
  using scalar_mul_on_curve [OF base_G_on_curve, of 12345] .

section \<open>Signatures are canonical, up to padding\<close>

text \<open>The other signature that satisfies the same equation.\<close>

definition complement :: "bytes \<Rightarrow> bytes" where
  "complement sig = take 32 sig @ to_bytes_big 32 (order_N - from_bytes_big (drop 32 sig))"

lemma v2_verify_range:
  "v2_verify pub digest sig = Inr True \<Longrightarrow>
     1 \<le> from_bytes_big (drop 32 sig) \<and> from_bytes_big (drop 32 sig) \<le> HALF_N"
  by (simp add: v2_verify_def Let_def split: if_splits)

text \<open>A signature and its complement never both verify, for any keys and digests: only the lower one of the two
  values of \<open>s\<close> that satisfy the equation is accepted.\<close>
theorem complement_not_accepted:
  "\<not> (v2_verify pub digest sig = Inr True \<and> v2_verify pub' digest' (complement sig) = Inr True)"
proof
  assume a: "v2_verify pub digest sig = Inr True \<and> v2_verify pub' digest' (complement sig) = Inr True"
  let ?s = "from_bytes_big (drop 32 sig)"
  have s: "1 \<le> ?s" "?s \<le> HALF_N" using a v2_verify_range by blast+
  have len: "32 < length sig"
    using s(1) by (rule_tac ccontr) (simp add: from_bytes_big_def)
  then have "drop 32 (complement sig) = to_bytes_big 32 (order_N - ?s)" by (simp add: complement_def)
  moreover have "0 \<le> order_N - ?s" "order_N - ?s < 2 ^ 256" "HALF_N < order_N - ?s"
    using s by (simp_all add: HALF_N_def order_N_def)
  ultimately have "HALF_N < from_bytes_big (drop 32 (complement sig))" by (simp add: from_bytes_32)
  moreover have "from_bytes_big (drop 32 (complement sig)) \<le> HALF_N" using a v2_verify_range by blast
  ultimately show False by simp
qed

lemma from_bytes_big_zeros: "from_bytes_big (replicate k 0 @ bs) = from_bytes_big bs"
  by (induction k) (simp_all add: from_bytes_big_def)

text \<open>The length of a signature is not checked: zero bytes before the second half change nothing, so an accepted
  signature has other accepted spellings.\<close>
theorem padded_signature_verifies:
  assumes "length rb = 32"
  shows "v2_verify pub digest (rb @ replicate k 0 @ sb) = v2_verify pub digest (rb @ sb)"
  using assms by (simp add: v2_verify_def from_bytes_big_zeros)

text \<open>Whatever \<open>sign\<close> returns has 64 bytes and a low second half.\<close>
lemma to_bytes_32_Inr: "to_bytes_32 n = Inr bs \<Longrightarrow> length bs = 32 \<and> from_bytes_big bs = n"
  by (auto simp: to_bytes_32_def split: if_splits)

lemma half_order: "0 < order_N" "order_N - HALF_N \<le> HALF_N + 1"
  by (simp_all add: order_N_def HALF_N_def)

lemma v2_sign_low:
  assumes "v2_sign priv digest = Some (Inr sig)"
  shows "length sig = 64 \<and> from_bytes_big (drop 32 sig) \<le> HALF_N"
proof -
  obtain k where "sign_with priv digest k = Inr sig"
    using assms by (auto simp: v2_sign_def split: option.splits sum.splits)
  then obtain rb sb r s where "to_bytes_32 r = Inr rb" "sig = rb @ sb"
    "to_bytes_32 (if s mod order_N > HALF_N then order_N - s mod order_N else s mod order_N) = Inr sb"
    by (auto simp: sign_with_def Let_def map_sum_Inr simp del: if_split split: sum.splits option.splits)
  moreover have "(if s mod order_N > HALF_N then order_N - s mod order_N else s mod order_N) \<le> HALF_N"
    using half_order by (auto simp: not_less)
  ultimately show ?thesis by (auto dest!: to_bytes_32_Inr simp del: if_split)
qed

section \<open>Identifiers bind the transfer\<close>

text \<open>A timestamp is a number.\<close>

fun numeric :: "pyval \<Rightarrow> bool" where
  "numeric (PNum _) \<longleftrightarrow> True"
| "numeric (PDec m k) \<longleftrightarrow> m mod 10 \<noteq> 0"
| "numeric _ \<longleftrightarrow> False"

lemma numeric_facts: "numeric v \<Longrightarrow> wf_pyval v \<and> sort_keys v = v"
  by (cases v) auto

lemma canon_payload_inj:
  assumes "canon (v2_payload tx) = canon (v2_payload tx')" "numeric (v2_timestamp tx)" "numeric (v2_timestamp tx')"
    and "v2_version tx = v2_version tx'"
  shows "tx = tx'"
proof -
  have "deterministic_json (v2_payload tx) = deterministic_json (v2_payload tx')"
    using assms(1) by (simp add: canon_def utf8_inj)
  moreover have wf: "wf_pyval (v2_payload t)" if "numeric (v2_timestamp t)" for t :: v2_transaction
    using numeric_facts [OF that] by (simp add: v2_payload_def)
  ultimately have sk: "sort_keys (v2_payload tx) = sort_keys (v2_payload tx')"
    using deterministic_json_inj assms(2,3) by blast
  note l = sort_keys_lookup [OF sk [unfolded v2_payload_def]]
  have "v2_amount_base_units tx = v2_amount_base_units tx'" using l [of "''amount_base_units''"] by simp
  moreover have "v2_network_id tx = v2_network_id tx'" using l [of "''network_id''"] by simp
  moreover have "v2_nonce tx = v2_nonce tx'" using l [of "''nonce''"] by simp
  moreover have "v2_receiver tx = v2_receiver tx'" using l [of "''receiver''"] by simp
  moreover have "v2_sender tx = v2_sender tx'" using l [of "''sender''"] by simp
  moreover have "v2_sender_public_key tx = v2_sender_public_key tx'" using l [of "''sender_public_key''"] by simp
  moreover have "v2_timestamp tx = v2_timestamp tx'"
    using l [of "''timestamp''"] numeric_facts assms(2,3) by simp
  ultimately show ?thesis using assms(4) by simp
qed

text \<open>A version 2 identifier binds the transfer, and identifiers and signing digests live apart.  Two transactions
  of the version with one identifier have all fields in common, or the two texts that were hashed are a SHA-256
  collision; the text that is signed differs from every text that is hashed for an identifier.  The signature is not
  covered, so respelling it does not change the identifier.\<close>
theorem v2_id_binds_transfer:
  assumes "v2_tx_id tx = v2_tx_id tx'" "v2_version tx = 2" "v2_version tx' = 2"
    and "numeric (v2_timestamp tx)" "numeric (v2_timestamp tx')"
  shows "(tx = tx' \<or> (v2_id_bytes tx \<noteq> v2_id_bytes tx' \<and> sha256_hex (v2_id_bytes tx) = sha256_hex (v2_id_bytes tx'))) \<and>
    v2_signing_bytes tx \<noteq> v2_id_bytes tx'"
proof -
  have "tx = tx'" if "v2_id_bytes tx = v2_id_bytes tx'"
    using that canon_payload_inj [of tx tx'] assms(2-5) by (simp add: v2_id_bytes_def)
  moreover have "v2_signing_bytes tx \<noteq> v2_id_bytes tx'"
    by (simp add: v2_signing_bytes_def v2_id_bytes_def utf8_def utf8_char_def)
  ultimately show ?thesis using assms(1) by (auto simp: v2_tx_id_def)
qed

definition sample_v2 :: v2_transaction where
  "sample_v2 =
     \<lparr>v2_version = 2, v2_network_id = ''net'', v2_sender = ''SYJaf533e027d9d6ccc0958c470c26ea9d96a9b76fd'',
      v2_receiver = ''SYJ1111111111111111111111111111111111111111'', v2_amount_base_units = 123456789, v2_nonce = 0,
      v2_timestamp = PDec 173568960125 1, v2_sender_public_key = ''79be''\<rparr>"

theorem v2_id_binds_transfer_witness:
  "v2_signing_bytes sample_v2 \<noteq> v2_id_bytes sample_v2 \<and> v2_timestamp sample_v2 = PDec 173568960125 1"
  using v2_id_binds_transfer [of sample_v2 sample_v2] by (simp add: sample_v2_def)

end
