(* ===== verification/Middleware.thy ===== *)
theory Middleware
  imports Samples
begin

text \<open>
  \<open>api/middleware.py\<close>: the body size limit in front of every endpoint, with the limits \<open>api/main.py\<close> gives
  it.  What the server delivers on the \<open>receive\<close> channel is a list of messages; a call that needs one more
  than there are is waiting.  What the wrapped application sees is the list \<open>replay_receive\<close> yields.
\<close>

section \<open>The code\<close>

text \<open>A message: a piece of the body, with the optional keys \<open>body\<close> and \<open>more_body\<close>, or one of another type.\<close>

datatype message = HttpRequest "bytes option" "bool option" | OtherMessage string

datatype event = ResponseStart int "(string \<times> string) list" | ResponseBody string

record scope =
  scope_type :: string
  scope_path :: "string option"
  scope_headers :: "(string \<times> string) list"

record middleware =
  default_max_bytes :: int
  path_overrides :: "(string, int) pydict"

datatype outcome = Responded "event list" | Downstream "message list" | Waiting

definition MaxBodySizeMiddleware :: "int \<Rightarrow> (string, int) pydict option \<Rightarrow> middleware" where
  "MaxBodySizeMiddleware d overrides =
     \<lparr>default_max_bytes = d, path_overrides = (case overrides of None \<Rightarrow> [] | Some o' \<Rightarrow> o')\<rparr>"

definition limit_for_path :: "middleware \<Rightarrow> string \<Rightarrow> int" where
  "limit_for_path mw path =
     (case find (\<lambda>(prefix, _). startswith prefix path) (path_overrides mw) of
        Some (_, limit) \<Rightarrow> limit
      | None \<Rightarrow> default_max_bytes mw)"

text \<open>\<open>int(b)\<close> on the bytes of a header.\<close>

definition int_of_header :: "string \<Rightarrow> int option" where
  "int_of_header b =
     (let t = strip_by is_ascii_space b in
      if startswith ''-'' t then map_option uminus (dec_number (drop 1 t))
      else if startswith ''+'' t then dec_number (drop 1 t)
      else dec_number t)"

definition reject :: "int \<Rightarrow> event list" where
  "reject limit =
     [ResponseStart 413 [(''content-type'', ''application/json'')],
      ResponseBody (''{\"detail\":\"Request body exceeds the '' @ show_int limit @
                    ''-byte limit for this endpoint.\"}'')]"

text \<open>The loop, and what follows it.\<close>

fun buffer_body :: "int \<Rightarrow> int \<Rightarrow> message list \<Rightarrow> message list \<Rightarrow> outcome" where
  "buffer_body limit seen buffered [] = Waiting"
| "buffer_body limit seen buffered (OtherMessage t # ms) = Downstream (buffered @ [OtherMessage t] @ ms)"
| "buffer_body limit seen buffered (HttpRequest body more_body # ms) =
     (let seen' = seen + int (length (case body of None \<Rightarrow> [] | Some b \<Rightarrow> b)) in
      if seen' > limit then Responded (reject limit)
      else if more_body = Some True then buffer_body limit seen' (buffered @ [HttpRequest body more_body]) ms
      else Downstream (buffered @ [HttpRequest body more_body] @ ms))"

definition call :: "middleware \<Rightarrow> scope \<Rightarrow> message list \<Rightarrow> outcome" where
  "call mw sc ms =
     (if scope_type sc \<noteq> ''http'' then Downstream ms
      else
        let limit = limit_for_path mw (case scope_path sc of None \<Rightarrow> [] | Some p \<Rightarrow> p);
            declared = map_of (rev (scope_headers sc)) ''content-length''
        in (case Option.bind declared int_of_header of
              Some n \<Rightarrow> if n > limit then Responded (reject limit) else buffer_body limit 0 [] ms
            | None \<Rightarrow> buffer_body limit 0 [] ms))"

definition app_middleware :: "settings \<Rightarrow> middleware" where
  "app_middleware cfg =
     (let p2p = p2p_cfg cfg in
      MaxBodySizeMiddleware (max_request_body_bytes p2p)
        (Some [(''/network/blocks/receive'', max_block_payload_bytes p2p),
               (''/network/transactions/receive'', max_transaction_payload_bytes p2p),
               (''/network/peers/register'', max_handshake_payload_bytes p2p),
               (''/network/peers/challenge'', max_handshake_payload_bytes p2p),
               (''/network/peers/authenticate'', max_handshake_payload_bytes p2p),
               (''/network/sync'', max_handshake_payload_bytes p2p)]))"

section \<open>The loop\<close>

fun body_size :: "message list \<Rightarrow> int" where
  "body_size [] = 0"
| "body_size (HttpRequest (Some b) more_body # ms) = int (length b) + body_size ms"
| "body_size (_ # ms) = body_size ms"

lemma body_size_append [simp]: "body_size (ms @ ms') = body_size ms + body_size ms'"
  by (induction ms rule: body_size.induct) auto

lemma body_size_nonneg [simp]: "0 \<le> body_size ms"
  by (induction ms rule: body_size.induct) auto

text \<open>A message after which the loop stops reading.\<close>

fun is_final :: "message \<Rightarrow> bool" where
  "is_final (OtherMessage _) = True"
| "is_final (HttpRequest _ more_body) = (more_body \<noteq> Some True)"

lemma message_size: "seen + int (length (case body of None \<Rightarrow> [] | Some b \<Rightarrow> b)) = seen + body_size [HttpRequest body more_body]"
  by (cases body) simp_all

lemma body_size_Cons: "body_size (m # ms) = body_size [m] + body_size ms"
  using body_size_append [of "[m]" ms] by simp

lemma buffer_body_complete:
  "seen \<le> limit \<Longrightarrow> list_all (\<lambda>m. \<not> is_final m) pre \<Longrightarrow> is_final m \<Longrightarrow>
   buffer_body limit seen buffered (pre @ m # post) =
     (if seen + body_size (pre @ [m]) > limit then Responded (reject limit)
      else Downstream (buffered @ pre @ m # post))"
proof (induction pre arbitrary: seen buffered)
  case Nil
  then show ?case by (cases m) (auto simp: Let_def split: option.splits)
next
  case (Cons x pre)
  then obtain body where x: "x = HttpRequest body (Some True)" by (cases x) auto
  show ?case
  proof (cases "seen + body_size [x] > limit")
    case True
    then have "seen + body_size ((x # pre) @ [m]) > limit"
      using body_size_nonneg [of "pre @ [m]"] body_size_Cons [of x "pre @ [m]"] unfolding append_Cons by linarith
    with True show ?thesis by (simp add: x Let_def message_size [of _ _ "Some True"])
  next
    case False
    with Cons.IH [of "seen + body_size [x]" "buffered @ [x]"] Cons.prems body_size_Cons [of x "pre @ [m]"]
    show ?thesis by (simp add: x Let_def message_size [of _ _ "Some True"] del: body_size_append)
  qed
qed

lemma buffer_body_partial:
  "seen \<le> limit \<Longrightarrow> list_all (\<lambda>m. \<not> is_final m) pre \<Longrightarrow> seen + body_size pre > limit \<Longrightarrow>
   buffer_body limit seen buffered (pre @ rest) = Responded (reject limit)"
proof (induction pre arbitrary: seen buffered)
  case (Cons x pre)
  then obtain body where x: "x = HttpRequest body (Some True)" by (cases x) auto
  with Cons.IH [of "seen + body_size [x]" "buffered @ [x]"] Cons.prems body_size_Cons [of x pre]
  show ?case
    by (cases "seen + body_size [x] > limit") (simp_all add: x Let_def message_size [of _ _ "Some True"])
qed simp

lemma buffer_body_incomplete:
  "list_all (\<lambda>m. \<not> is_final m) ms \<Longrightarrow> buffer_body limit seen buffered ms \<noteq> Downstream ms'"
  by (induction limit seen buffered ms rule: buffer_body.induct) (auto simp: Let_def)

lemma first_final:
  "list_all (\<lambda>m. \<not> is_final m) ms \<or>
   (\<exists>pre m post. ms = pre @ m # post \<and> list_all (\<lambda>m. \<not> is_final m) pre \<and> is_final m)"
proof (cases "\<exists>m\<in>set ms. is_final m")
  case True
  then obtain pre m post where "ms = pre @ m # post" "is_final m" "\<forall>m'\<in>set pre. \<not> is_final m'"
    by (rule split_list_first_propE)
  then show ?thesis by (auto simp: list_all_iff)
qed (simp add: list_all_iff)

section \<open>Properties\<close>

abbreviation limit_of :: "middleware \<Rightarrow> scope \<Rightarrow> int" where
  "limit_of mw sc \<equiv> limit_for_path mw (case scope_path sc of None \<Rightarrow> [] | Some p \<Rightarrow> p)"

text \<open>The declared length, when the last such header is a number.\<close>

definition declared_length :: "scope \<Rightarrow> int option" where
  "declared_length sc = Option.bind (map_of (rev (scope_headers sc)) ''content-length'') int_of_header"

definition declared_fits :: "int \<Rightarrow> scope \<Rightarrow> bool" where
  "declared_fits limit sc \<longleftrightarrow> (case declared_length sc of None \<Rightarrow> True | Some n \<Rightarrow> n \<le> limit)"

lemma call_http:
  "scope_type sc = ''http'' \<Longrightarrow>
   call mw sc ms = (if declared_fits (limit_of mw sc) sc then buffer_body (limit_of mw sc) 0 [] ms
      else Responded (reject (limit_of mw sc)))"
  by (auto simp: call_def declared_fits_def declared_length_def Let_def split: option.splits)

text \<open>C15: The size limit is exact.  For an HTTP request the wrapped application is called if and only if the declared
  length, when there is one, is within the limit of the path and so is the number of body bytes actually received up
  to the end of the body; it then sees the messages unchanged and in order.\<close>
theorem application_sees_bounded_body:
  assumes "scope_type sc = ''http''" "0 \<le> limit_of mw sc"
  shows "call mw sc ms = Downstream ms' \<longleftrightarrow>
    ms' = ms \<and> declared_fits (limit_of mw sc) sc \<and>
    (\<exists>pre m post. ms = pre @ m # post \<and> list_all (\<lambda>m. \<not> is_final m) pre \<and> is_final m \<and>
       body_size (pre @ [m]) \<le> limit_of mw sc)"
proof (cases "list_all (\<lambda>m. \<not> is_final m) ms")
  case True
  then show ?thesis
    using buffer_body_incomplete [OF True] by (auto simp: call_http [OF assms(1)])
next
  case False
  then obtain pre m post where p: "ms = pre @ m # post" "list_all (\<lambda>m. \<not> is_final m) pre" "is_final m"
    using first_final [of ms] by blast
  have u: "pre' = pre \<and> m' = m" if "ms = pre' @ m' # post'" "list_all (\<lambda>m. \<not> is_final m) pre'" "is_final m'" for pre' m' post'
    using that p by (auto simp: list_all_iff append_eq_append_conv2 append_eq_Cons_conv Cons_eq_append_conv)
  have "(\<exists>pre m post. ms = pre @ m # post \<and> list_all (\<lambda>m. \<not> is_final m) pre \<and> is_final m \<and>
       body_size (pre @ [m]) \<le> limit_of mw sc) \<longleftrightarrow> body_size (pre @ [m]) \<le> limit_of mw sc"
    using p u by blast
  moreover have "buffer_body (limit_of mw sc) 0 [] ms =
      (if body_size (pre @ [m]) > limit_of mw sc then Responded (reject (limit_of mw sc)) else Downstream ms)"
    using buffer_body_complete [OF assms(2) p(2,3), of "[]" post] p(1) by simp
  ultimately show ?thesis by (auto simp: call_http [OF assms(1)] simp del: body_size_append)
qed

text \<open>A request to the synchronisation endpoint of a node with the default limits.\<close>

definition sync_scope :: scope where
  "sync_scope = \<lparr>scope_type = ''http'', scope_path = Some ''/network/sync'', scope_headers = []\<rparr>"

lemma sync_scope_simps: "scope_type sync_scope = ''http''" "limit_of (app_middleware sample_settings) sync_scope = 8192"
  "declared_fits limit sync_scope"
  by (simp_all add: sync_scope_def limit_for_path_def app_middleware_def MaxBodySizeMiddleware_def Let_def
      startswith_def sample_settings_def default_p2p_def declared_fits_def declared_length_def)

theorem application_sees_bounded_body_witness:
  "call (app_middleware sample_settings) sync_scope
     [HttpRequest (Some [123]) (Some True), HttpRequest (Some [125]) (Some False)] =
   Downstream [HttpRequest (Some [123]) (Some True), HttpRequest (Some [125]) (Some False)]"
proof -
  have l: "0 \<le> limit_of (app_middleware sample_settings) sync_scope" by (simp add: sync_scope_simps)
  show ?thesis
    unfolding application_sees_bounded_body [OF sync_scope_simps(1) l] sync_scope_simps(2)
    by (intro conjI refl sync_scope_simps(3) exI [of _ "[HttpRequest (Some [123]) (Some True)]"]
        exI [of _ "HttpRequest (Some [125]) (Some False)"] exI [of _ "[]"]) simp_all
qed

text \<open>An oversized body is refused as soon as its bytes exceed the limit, whatever its headers declare and
  whatever would follow: the answer is the 413 response, the application is not called.\<close>
theorem oversized_body_rejected:
  assumes "scope_type sc = ''http''" "0 \<le> limit_of mw sc"
    and "list_all (\<lambda>m. \<not> is_final m) pre" "body_size pre > limit_of mw sc"
  shows "call mw sc (pre @ rest) = Responded (reject (limit_of mw sc))"
  using buffer_body_partial [OF assms(2,3), of "[]" rest] assms(4) by (simp add: call_http [OF assms(1)])

theorem oversized_body_rejected_witness:
  "call (app_middleware sample_settings) sync_scope [HttpRequest (Some (replicate 9000 0)) (Some True)] =
   Responded (reject 8192)"
proof -
  have l: "0 \<le> limit_of (app_middleware sample_settings) sync_scope" by (simp add: sync_scope_simps)
  have s: "list_all (\<lambda>m. \<not> is_final m) [HttpRequest (Some (replicate 9000 0)) (Some True)]"
    "body_size [HttpRequest (Some (replicate 9000 0)) (Some True)] > limit_of (app_middleware sample_settings) sync_scope"
    by (simp_all add: sync_scope_simps)
  show ?thesis using oversized_body_rejected [OF sync_scope_simps(1) l s, of "[]"] by (simp add: sync_scope_simps(2))
qed

end
