(* ===== verification/Schemas.thy ===== *)
theory Schemas
  imports Sync
begin

text \<open>
  \<open>api/schemas.py\<close>: the request and response models, as records with the fields each class declares.
  Turning a body into a request object is the work of the validation library; a handler here gets the object.
  A response that is built from keyword arguments keeps the declared fields only; an integral float given
  for an \<open>int\<close> field becomes that integer.
\<close>

section \<open>Chain and wallet\<close>

record transaction_out =
  txo_sender :: string
  txo_receiver :: string
  txo_amount :: string
  txo_amount_base_units :: int
  txo_timestamp :: int
  txo_sender_public_key :: "string option"
  txo_signature :: "string option"
  txo_tx_hash :: string

record block_out =
  blo_index :: int
  blo_previous_hash :: string
  blo_timestamp :: int
  blo_nonce :: int
  blo_difficulty :: int
  blo_merkle_root :: string
  blo_hash :: string
  blo_transactions :: "transaction_out list"

record chain_out =
  cho_length :: int
  cho_chain :: "block_out list"

record wallet_create_response =
  wcr_address :: string
  wcr_public_key :: string

record wallet_balance_response =
  wbr_address :: string
  wbr_balance :: string
  wbr_balance_base_units :: int

record transaction_create_request =
  tcr_sender :: string
  tcr_receiver :: string
  tcr_amount :: pydec

text \<open>\<open>Field(gt=0)\<close>: a finite positive number.\<close>

fun dec_positive :: "pydec \<Rightarrow> bool" where
  "dec_positive (Dec c e) \<longleftrightarrow> 0 < c"
| "dec_positive DecSpecial \<longleftrightarrow> False"

definition not_empty :: "string \<Rightarrow> bool" where
  "not_empty value \<longleftrightarrow> value \<noteq> [] \<and> strip value \<noteq> []"

definition valid_create_request :: "transaction_create_request \<Rightarrow> bool" where
  "valid_create_request p \<longleftrightarrow>
     dec_positive (tcr_amount p) \<and> not_empty (tcr_sender p) \<and> not_empty (tcr_receiver p)"

record transaction_submit_request =
  tsr_sender :: string
  tsr_receiver :: string
  tsr_amount :: pydec
  tsr_amount_base_units :: "int option"
  tsr_timestamp :: int
  tsr_sender_public_key :: string
  tsr_signature :: string

definition valid_submit_request :: "transaction_submit_request \<Rightarrow> bool" where
  "valid_submit_request p \<longleftrightarrow>
     dec_positive (tsr_amount p) \<and> (case tsr_amount_base_units p of None \<Rightarrow> True | Some n \<Rightarrow> 0 < n)"

record transaction_submit_response =
  tsp_accepted :: bool
  tsp_tx_hash :: "string option"
  tsp_reason :: "submit_reason option"

text \<open>A block that was mined, and the summary of the chain.\<close>

record mine_request =
  mrq_miner_address :: string

record mine_response =
  mrp_block :: block_out
  mrp_message :: string

record status_response =
  str_network_name :: string
  str_chain_length :: int
  str_latest_block_hash :: string
  str_difficulty :: int
  str_pending_transactions :: int
  str_consensus_algorithm :: string

record health_response =
  hlr_status :: string

section \<open>Peers\<close>

record peer_out =
  po_address :: string
  po_node_id :: "string option"
  po_status :: string
  po_last_seen :: "rat option"
  po_registered_at :: "rat option"
  po_trusted :: bool
  po_failure_count :: int
  po_backoff_until :: "rat option"
  po_capabilities :: "string list"

record peer_list_response =
  plr_count :: int
  plr_peers :: "peer_out list"

record peer_register_request =
  prq_node_id :: string
  prq_address :: string

record peer_register_response =
  prr_accepted :: bool
  prr_reason :: "register_reason option"
  prr_self_node_id :: string
  prr_self_address :: string
  prr_known_peers :: "string list"

record network_chain_response =
  ncr_length :: int
  ncr_work :: int
  ncr_chain :: "(string \<times> pyval) list list"

record peer_challenge_response =
  pcr_challenge :: string
  pcr_expires_in_seconds :: rat

datatype authenticate_reason = EnvelopeRejected auth_reason | AdvertisedAddressInvalid address_reason

record peer_authenticate_response =
  par_authenticated :: bool
  par_reason :: "authenticate_reason option"
  par_self_node_id :: "string option"
  par_self_public_key :: "string option"

section \<open>Propagation and synchronisation\<close>

record block_receive_request =
  brq_block :: envelope
  brq_from_peer :: "string option"
  brq_auth :: "envelope option"

record transaction_receive_request =
  trq_transaction :: envelope
  trq_from_peer :: "string option"
  trq_auth :: "envelope option"

record sync_request =
  srq_peer_address :: "string option"
  srq_auth :: "envelope option"

record receive_response =
  rcr_accepted :: bool
  rcr_reason :: "receive_reason option"
  rcr_rebroadcast_to :: int

record sync_response =
  syr_results :: "sync_result list"

fun reason_of :: "'r verdict \<Rightarrow> 'r option" where
  "reason_of Valid = None"
| "reason_of (Invalid r) = Some r"

section \<open>\<open>model_dump\<close>\<close>

fun opt_dict :: "envelope option \<Rightarrow> pyval" where
  "opt_dict None = PNone"
| "opt_dict (Some d) = PDict d"

definition dump_block_request :: "block_receive_request \<Rightarrow> envelope" where
  "dump_block_request p =
     [(''block'', PDict (brq_block p)), (''from_peer'', opt_str (brq_from_peer p)), (''auth'', opt_dict (brq_auth p))]"

definition dump_transaction_request :: "transaction_receive_request \<Rightarrow> envelope" where
  "dump_transaction_request p =
     [(''transaction'', PDict (trq_transaction p)), (''from_peer'', opt_str (trq_from_peer p)),
      (''auth'', opt_dict (trq_auth p))]"

end
