(* ===== verification/Network_Routes.thy ===== *)
theory Network_Routes
  imports Schemas Ratelimit
begin

text \<open>
  \<open>api/network_routes.py\<close>: the peer-to-peer endpoints.  The module-level objects are the fields of
  \<open>api\<close>; the application builds the node before the first request (\<open>api/main.py\<close>), so it is always
  there, and the blockchain of \<open>get_blockchain\<close> is the node's.  Challenge store and rate limiters are made
  when first needed.  A handler returns its response or an error, with the new state.
\<close>

record api =
  api_settings :: settings
  api_node :: network_node
  api_challenge_store :: "challenge_store option"
  api_rate_limiters :: "(string, rate_limiter) pydict"

text \<open>An \<open>HTTPException\<close> with its status, or an exception the handler lets through.\<close>

datatype api_error = HTTPException int | Unhandled py_error

type_synonym 'a reply = "(api_error + 'a) \<times> api"

section \<open>Shared objects and limits\<close>

datatype tier = Cheap | Moderate | Expensive

fun tier_name :: "tier \<Rightarrow> string" where
  "tier_name Cheap = ''cheap''"
| "tier_name Moderate = ''moderate''"
| "tier_name Expensive = ''expensive''"

fun TIER_MULTIPLIERS :: "tier \<Rightarrow> int" where
  "TIER_MULTIPLIERS Cheap = 4"
| "TIER_MULTIPLIERS Moderate = 2"
| "TIER_MULTIPLIERS Expensive = 1"

definition get_challenge_store :: "api \<Rightarrow> challenge_store" where
  "get_challenge_store s =
     (case api_challenge_store s of
        Some st \<Rightarrow> st
      | None \<Rightarrow> ChallengeStore (replay_cache_size (p2p_cfg (api_settings s))) 60)"

definition get_rate_limiter :: "tier \<Rightarrow> api \<Rightarrow> rate_limiter" where
  "get_rate_limiter t s =
     (case map_of (api_rate_limiters s) (tier_name t) of
        Some rl \<Rightarrow> rl
      | None \<Rightarrow>
          let p2p = p2p_cfg (api_settings s)
          in PeerRateLimiter (max 1 (rate_limit_requests p2p * TIER_MULTIPLIERS t))
               (rate_limit_window_seconds p2p) (rate_limit_max_keys p2p))"

definition set_rate_limiter :: "tier \<Rightarrow> rate_limiter \<Rightarrow> api \<Rightarrow> api" where
  "set_rate_limiter t rl s = s\<lparr>api_rate_limiters := dict_set (tier_name t) rl (api_rate_limiters s)\<rparr>"

text \<open>\<open>key_hint or (request.client.host if request.client else "unknown")\<close>; the hint comes from JSON, a list or
  a dict cannot be a key.\<close>

definition rate_key :: "pyval \<Rightarrow> string option \<Rightarrow> string result" where
  "rate_key hint client =
     (if truthy hint
      then (case hint of
              PStr s \<Rightarrow> Inr s
            | PList _ \<Rightarrow> Inl TypeError
            | PDict _ \<Rightarrow> Inl TypeError
            | _ \<Rightarrow> Inl (UntypedField ''node_id''))
      else Inr (case client of Some h \<Rightarrow> h | None \<Rightarrow> ''unknown''))"

definition enforce_rate_limit :: "rat \<Rightarrow> string option \<Rightarrow> tier \<Rightarrow> pyval \<Rightarrow> api \<Rightarrow> unit reply" where
  "enforce_rate_limit now client t hint s =
     (let rl = get_rate_limiter t s in
      case rate_key hint client of
        Inl e \<Rightarrow> (Inl (Unhandled e), set_rate_limiter t rl s)
      | Inr key \<Rightarrow>
          (case allow now key rl of
             (ok, rl') \<Rightarrow>
               (if ok then Inr () else Inl (HTTPException 429), set_rate_limiter t rl' s)))"

text \<open>A handler that starts with the limit.\<close>

definition limited :: "rat \<Rightarrow> string option \<Rightarrow> tier \<Rightarrow> pyval \<Rightarrow> (api \<Rightarrow> 'a reply) \<Rightarrow> api \<Rightarrow> 'a reply" where
  "limited now client t hint body s =
     (case enforce_rate_limit now client t hint s of
        (Inl e, s') \<Rightarrow> (Inl e, s')
      | (Inr _, s') \<Rightarrow> body s')"

definition validate_message_type :: "envelope \<Rightarrow> message_type \<Rightarrow> api_error option" where
  "validate_message_type payload expected =
     (case env_get payload ''message_type'' of
        PNone \<Rightarrow> None
      | v \<Rightarrow> if v \<noteq> PStr (message_value expected) then Some (HTTPException 400) else None)"

definition answer :: "'a result \<Rightarrow> api_error + 'a" where
  "answer r = map_sum Unhandled id r"

section \<open>Public endpoints\<close>

definition network_status :: "outside \<Rightarrow> string option \<Rightarrow> api \<Rightarrow> pyval reply" where
  "network_status out client =
     limited (o_time out) client Cheap PNone (\<lambda>s. (answer (node_status out (api_node s)), s))"

definition peer_to_out :: "network_node \<Rightarrow> peer \<Rightarrow> peer_out" where
  "peer_to_out n p =
     \<lparr>po_address = p_address p, po_node_id = p_node_id p, po_status = p_status p, po_last_seen = p_last_seen p,
      po_registered_at = p_registered_at p, po_trusted = is_trusted_peer (p_address p) n,
      po_failure_count = p_failure_count p, po_backoff_until = p_backoff_until p,
      po_capabilities = p_capabilities p\<rparr>"

definition list_known_peers :: "outside \<Rightarrow> string option \<Rightarrow> api \<Rightarrow> peer_list_response reply" where
  "list_known_peers out client =
     limited (o_time out) client Cheap PNone
       (\<lambda>s. let n = api_node s; peers = registry_peers (nn_peers n) (nn_storage n)
            in (Inr \<lparr>plr_count = int (length peers), plr_peers = map (peer_to_out n) peers\<rparr>, s))"

definition register_peer :: "outside \<Rightarrow> string option \<Rightarrow> peer_register_request \<Rightarrow> api \<Rightarrow> peer_register_response reply" where
  "register_peer out client p =
     limited (o_time out) client Moderate (PStr (prq_address p))
       (\<lambda>s. case node_register out (PStr (prq_address p)) (Some (prq_node_id p)) (api_node s) of
          (v, n1) \<Rightarrow>
            let n2 = (if v = Valid then node_mark_seen out (prq_address p) ''online'' (Some (prq_node_id p)) n1 else n1)
            in (Inr \<lparr>prr_accepted = (v = Valid), prr_reason = reason_of v, prr_self_node_id = nn_node_id n2,
                     prr_self_address = nn_self_address n2, prr_known_peers = node_addresses n2\<rparr>,
                s\<lparr>api_node := n2\<rparr>))"

text \<open>\<open>fresh\<close> is the random challenge.\<close>

definition issue_challenge :: "outside \<Rightarrow> string option \<Rightarrow> string \<Rightarrow> string \<Rightarrow> api \<Rightarrow> peer_challenge_response reply" where
  "issue_challenge out client fresh node_id =
     limited (o_time out) client Moderate (PStr node_id)
       (\<lambda>s. let st = get_challenge_store s in
          (case issue (o_time out) fresh node_id st of
             Inl e \<Rightarrow> (Inl (Unhandled e), s\<lparr>api_challenge_store := Some st\<rparr>)
           | Inr (c, st') \<Rightarrow>
               (Inr \<lparr>pcr_challenge = c, pcr_expires_in_seconds = 60\<rparr>, s\<lparr>api_challenge_store := Some st'\<rparr>)))"

text \<open>\<open>json_length\<close> is the length of the serialised response, the serialiser being a library.\<close>

definition network_chain ::
  "(network_chain_response \<Rightarrow> int) \<Rightarrow> outside \<Rightarrow> string option \<Rightarrow> api \<Rightarrow> network_chain_response reply" where
  "network_chain json_length out client =
     limited (o_time out) client Expensive PNone
       (\<lambda>s. let bc = nn_blockchain (api_node s) in
          (case map_result blk_to_dict (bc_chain bc) of
             Inl e \<Rightarrow> (Inl (Unhandled e), s)
           | Inr ds \<Rightarrow>
               let response = \<lparr>ncr_length = bc_length bc, ncr_work = total_work bc, ncr_chain = ds\<rparr>
               in (if json_length response > max_chain_sync_bytes (p2p_cfg (api_settings s))
                   then Inl (HTTPException 413) else Inr response, s)))"

section \<open>The handshake\<close>

text \<open>\<open>authenticate_peer\<close> from the verified envelope on: the stored credential of the address, if there was
  another, is superseded.  The result of \<open>register\<close> is ignored.\<close>

definition grant_trust :: "outside \<Rightarrow> string \<Rightarrow> envelope \<Rightarrow> network_node \<Rightarrow> network_node" where
  "grant_trust out addr env n =
     (let node_id = str_of (env_get env ''node_id'');
          n1 = n\<lparr>nn_blockchain := (nn_blockchain n)\<lparr>bc_storage :=
                  upsert_peer_credential (o_time out) addr node_id (str_of (env_get env ''public_key'')) True
                    (nn_storage n)\<rparr>\<rparr>;
          n2 = snd (node_register out (PStr addr) (Some node_id) n1)
      in node_mark_seen out addr ''online'' (Some node_id) n2)"

definition authenticate_peer ::
  "crypto \<Rightarrow> outside \<Rightarrow> string option \<Rightarrow> envelope \<Rightarrow> api \<Rightarrow> peer_authenticate_response reply" where
  "authenticate_peer C out client env =
     limited (o_time out) client Moderate (env_get env ''node_id'')
       (\<lambda>s. let n = api_node s;
               refuse = (\<lambda>r. \<lparr>par_authenticated = False, par_reason = Some r, par_self_node_id = None,
                              par_self_public_key = None\<rparr>)
            in case verify_handshake_envelope C (PDict env) (nn_auth_context n) (o_time out) (get_challenge_store s) of
          (Inl e, st) \<Rightarrow> (Inl (Unhandled e), s\<lparr>api_challenge_store := Some st\<rparr>)
        | (Inr (Invalid r), st) \<Rightarrow> (Inr (refuse (EnvelopeRejected r)), s\<lparr>api_challenge_store := Some st\<rparr>)
        | (Inr Valid, st) \<Rightarrow>
            (case validate_peer_address (o_dns out) (env_get env ''advertised_address'')
                    (allow_private_peer_addresses (p2p_cfg (nn_settings n))) of
               Inl e \<Rightarrow> (Inl (Unhandled e), s\<lparr>api_challenge_store := Some st\<rparr>)
             | Inr (Invalid r) \<Rightarrow>
                 (Inr (refuse (AdvertisedAddressInvalid r)), s\<lparr>api_challenge_store := Some st\<rparr>)
             | Inr Valid \<Rightarrow>
                 (Inr \<lparr>par_authenticated = True, par_reason = None, par_self_node_id = Some (nn_node_id n),
                       par_self_public_key = Some (ident_public_key_hex (nn_identity n))\<rparr>,
                  s\<lparr>api_challenge_store := Some st,
                    api_node := grant_trust out (str_of (env_get env ''advertised_address'')) env n\<rparr>)))"

section \<open>Authenticated endpoints\<close>

text \<open>\<open>payload.auth.get(k) if isinstance(payload.auth, dict) else None\<close>.\<close>

definition auth_hint :: "string \<Rightarrow> envelope option \<Rightarrow> pyval" where
  "auth_hint k auth = (case auth of None \<Rightarrow> PNone | Some env \<Rightarrow> env_get env k)"

text \<open>The advertised address of the envelope as the claimed address; a false value claims none.\<close>

definition claimed_of :: "pyval \<Rightarrow> string option result" where
  "claimed_of v =
     (if \<not> truthy v then Inr None
      else case v of PStr a \<Rightarrow> Inr (Some a) | _ \<Rightarrow> Inl (UntypedField ''advertised_address''))"

definition trigger_sync ::
  "crypto \<Rightarrow> outside \<Rightarrow> string option \<Rightarrow> sync_request \<Rightarrow> api \<Rightarrow> sync_response reply" where
  "trigger_sync C out client p =
     limited (o_time out) client Expensive (auth_hint ''node_id'' (srq_auth p))
       (\<lambda>s. case claimed_of (auth_hint ''advertised_address'' (srq_auth p)) of
          Inl e \<Rightarrow> (Inl (Unhandled e), s)
        | Inr claimed \<Rightarrow>
       (case authenticate_request C out (map_option PDict (srq_auth p))
               (Some [(''peer_address'', opt_str (srq_peer_address p))]) claimed (api_node s) of
          (Inl e, n1) \<Rightarrow> (Inl (Unhandled e), s\<lparr>api_node := n1\<rparr>)
        | (Inr (Invalid r), n1) \<Rightarrow> (Inl (HTTPException 401), s\<lparr>api_node := n1\<rparr>)
        | (Inr Valid, n1) \<Rightarrow>
            if present (srq_peer_address p)
            then
              (let a = the (srq_peer_address p) in
               if registry_get a (nn_peers n1) (nn_storage n1) = None
               then (Inl (HTTPException 403), s\<lparr>api_node := n1\<rparr>)
               else (case sync_with_peer C out a n1 of
                       (r, n2) \<Rightarrow> (answer (map_sum id (\<lambda>x. \<lparr>syr_results = [x]\<rparr>) r), s\<lparr>api_node := n2\<rparr>)))
            else (case sync_with_all_peers C out n1 of
                    (r, n2) \<Rightarrow> (answer (map_sum id (\<lambda>xs. \<lparr>syr_results = xs\<rparr>) r), s\<lparr>api_node := n2\<rparr>))))"

definition hint_or_peer :: "envelope option \<Rightarrow> string option \<Rightarrow> pyval" where
  "hint_or_peer auth from_peer =
     (let h = auth_hint ''node_id'' auth in if truthy h then h else opt_str from_peer)"

definition receive_response_of :: "receive_reason verdict \<Rightarrow> int \<Rightarrow> receive_response" where
  "receive_response_of v k = \<lparr>rcr_accepted = (v = Valid), rcr_reason = reason_of v, rcr_rebroadcast_to = k\<rparr>"

definition receive_block_route ::
  "crypto \<Rightarrow> outside \<Rightarrow> string option \<Rightarrow> block_receive_request \<Rightarrow> api \<Rightarrow> receive_response reply" where
  "receive_block_route C out client p =
     limited (o_time out) client Expensive (hint_or_peer (brq_auth p) (brq_from_peer p))
       (\<lambda>s. case validate_message_type (dump_block_request p) NEW_BLOCK of
          Some e \<Rightarrow> (Inl e, s)
        | None \<Rightarrow>
       (case receive_block C out (brq_block p) (brq_from_peer p) (map_option PDict (brq_auth p)) (api_node s) of
          (Inl e, n1) \<Rightarrow> (Inl (Unhandled e), s\<lparr>api_node := n1\<rparr>)
        | (Inr (v, again), n1) \<Rightarrow>
            if v = Valid \<and> again
            then (case blk_from_dict \<lfloor>o_time out\<rfloor> (brq_block p) of
                    Inl e \<Rightarrow> (Inl (Unhandled e), s\<lparr>api_node := n1\<rparr>)
                  | Inr b \<Rightarrow>
                      (case broadcast_block C out b (brq_from_peer p) n1 of
                         (Inl e, n2) \<Rightarrow> (Inl (Unhandled e), s\<lparr>api_node := n2\<rparr>)
                       | (Inr acks, n2) \<Rightarrow>
                           (Inr (receive_response_of v (int (length acks))), s\<lparr>api_node := n2\<rparr>)))
            else (Inr (receive_response_of v 0), s\<lparr>api_node := n1\<rparr>)))"

definition receive_transaction_route ::
  "crypto \<Rightarrow> outside \<Rightarrow> string option \<Rightarrow> transaction_receive_request \<Rightarrow> api \<Rightarrow> receive_response reply" where
  "receive_transaction_route C out client p =
     limited (o_time out) client Expensive (hint_or_peer (trq_auth p) (trq_from_peer p))
       (\<lambda>s. case validate_message_type (dump_transaction_request p) NEW_TRANSACTION of
          Some e \<Rightarrow> (Inl e, s)
        | None \<Rightarrow>
       (case receive_transaction C out (trq_transaction p) (trq_from_peer p) (map_option PDict (trq_auth p)) (api_node s) of
          (Inl e, n1) \<Rightarrow> (Inl (Unhandled e), s\<lparr>api_node := n1\<rparr>)
        | (Inr (v, again), n1) \<Rightarrow>
            if v = Valid \<and> again
            then (case tx_from_dict \<lfloor>o_time out\<rfloor> (trq_transaction p) of
                    Inl e \<Rightarrow> (Inl (Unhandled e), s\<lparr>api_node := n1\<rparr>)
                  | Inr tx \<Rightarrow>
                      (case broadcast_transaction C out tx (trq_from_peer p) n1 of
                         (Inl e, n2) \<Rightarrow> (Inl (Unhandled e), s\<lparr>api_node := n2\<rparr>)
                       | (Inr acks, n2) \<Rightarrow>
                           (Inr (receive_response_of v (int (length acks))), s\<lparr>api_node := n2\<rparr>)))
            else (Inr (receive_response_of v 0), s\<lparr>api_node := n1\<rparr>)))"

end
