(* ===== verification/Api_Routes.thy ===== *)
theory Api_Routes
  imports Network_Routes
begin

text \<open>
  \<open>api/routes.py\<close>: chain, wallet, transaction and mining endpoints, and the start and stop of the
  application (\<open>api/main.py\<close>).  Propagation after a submission or a mined block is best effort: what it
  raises is logged, the changes it made before stay.
\<close>

section \<open>The application\<close>

text \<open>The first \<open>get_blockchain()\<close> and \<open>get_network_node()\<close>, from the lifespan's start.  \<open>new_id\<close> and \<open>fresh\<close>
  are what the generators would produce for an empty database.\<close>

definition lifespan_start ::
  "crypto \<Rightarrow> outside \<Rightarrow> string \<Rightarrow> string \<times> string \<Rightarrow> settings \<Rightarrow> storage \<Rightarrow> api result" where
  "lifespan_start C out new_id fresh cfg st =
     (case Blockchain_init \<lfloor>o_time out\<rfloor> cfg st of
        Inl e \<Rightarrow> Inl e
      | Inr bc \<Rightarrow>
          Inr \<lparr>api_settings = cfg, api_node = start C out (NetworkNode out new_id fresh cfg bc),
               api_challenge_store = None, api_rate_limiters = []\<rparr>)"

definition lifespan_stop :: "api \<Rightarrow> api" where
  "lifespan_stop s = s\<lparr>api_node := stop (api_node s)\<rparr>"

definition get_blockchain :: "api \<Rightarrow> blockchain" where
  "get_blockchain s = nn_blockchain (api_node s)"

definition set_blockchain :: "blockchain \<Rightarrow> api \<Rightarrow> api" where
  "set_blockchain bc s = s\<lparr>api_node := (api_node s)\<lparr>nn_blockchain := bc\<rparr>\<rparr>"

section \<open>Responses\<close>

definition tx_to_out :: "transaction \<Rightarrow> transaction_out result" where
  "tx_to_out tx =
     (case amount_syj tx of
        Inl e \<Rightarrow> Inl e
      | Inr d \<Rightarrow>
          Inr \<lparr>txo_sender = sender tx, txo_receiver = receiver tx, txo_amount = dec_str d,
               txo_amount_base_units = amount_base_units tx, txo_timestamp = num_val (tx_timestamp tx),
               txo_sender_public_key = sender_public_key tx, txo_signature = signature tx,
               txo_tx_hash = tx_hash tx\<rparr>)"

definition block_to_out :: "block \<Rightarrow> block_out result" where
  "block_to_out b =
     (case map_result tx_to_out (transactions b) of
        Inl e \<Rightarrow> Inl e
      | Inr txs \<Rightarrow>
          Inr \<lparr>blo_index = index b, blo_previous_hash = previous_hash b, blo_timestamp = num_val (blk_timestamp b),
               blo_nonce = nonce b, blo_difficulty = difficulty b, blo_merkle_root = blk_merkle_root b,
               blo_hash = block_hash b, blo_transactions = txs\<rparr>)"

section \<open>Reading\<close>

text \<open>\<open>HealthResponse\<close> declares \<open>status\<close> only: the other two arguments are dropped.\<close>

definition health_route :: "api \<Rightarrow> health_response reply" where
  "health_route s = (Inr \<lparr>hlr_status = ''ok''\<rparr>, s)"

definition status_route :: "api \<Rightarrow> status_response reply" where
  "status_route s =
     (let bc = get_blockchain s in
      (answer (map_sum id (\<lambda>d.
         \<lparr>str_network_name = net_name (network_cfg (bc_settings bc)), str_chain_length = bc_length bc,
          str_latest_block_hash = block_hash (latest_block bc), str_difficulty = d,
          str_pending_transactions = mempool_size (bc_mempool bc),
          str_consensus_algorithm = algorithm (consensus_cfg (bc_settings bc))\<rparr>) (current_difficulty bc)), s))"

definition get_chain_route :: "api \<Rightarrow> chain_out reply" where
  "get_chain_route s =
     (let bc = get_blockchain s in
      (answer (map_sum id (\<lambda>bs. \<lparr>cho_length = bc_length bc, cho_chain = bs\<rparr>)
         (map_result block_to_out (bc_chain bc))), s))"

definition get_block_route :: "int \<Rightarrow> api \<Rightarrow> block_out reply" where
  "get_block_route i s =
     (case get_block i (get_blockchain s) of
        None \<Rightarrow> (Inl (HTTPException 404), s)
      | Some b \<Rightarrow> (answer (block_to_out b), s))"

definition get_wallet_balance_route :: "string \<Rightarrow> api \<Rightarrow> wallet_balance_response reply" where
  "get_wallet_balance_route addr s =
     (if \<not> is_valid_address addr then (Inl (HTTPException 400), s)
      else
        let bc = get_blockchain s in
        (answer (map_sum id (\<lambda>d.
           \<lparr>wbr_address = addr, wbr_balance = dec_str d, wbr_balance_base_units = bc_get_balance addr bc\<rparr>)
           (get_balance_syj addr bc)), s))"

definition get_pending_transactions_route :: "api \<Rightarrow> transaction_out list reply" where
  "get_pending_transactions_route s =
     (answer (map_result tx_to_out (get_pending_transactions (get_blockchain s))), s)"

section \<open>Wallets and transactions\<close>

text \<open>\<open>d\<close> is the private value the generator drew; it is not part of the response.\<close>

definition create_wallet_route :: "crypto \<Rightarrow> int \<Rightarrow> api \<Rightarrow> wallet_create_response reply" where
  "create_wallet_route C d s =
     (let w = Wallet_create C d in (Inr \<lparr>wcr_address = address w, wcr_public_key = public_key_hex w\<rparr>, s))"

definition create_transaction_route :: "int \<Rightarrow> transaction_create_request \<Rightarrow> api \<Rightarrow> transaction_out reply" where
  "create_transaction_route now p s =
     (if \<not> is_valid_address (tcr_receiver p) then (Inl (HTTPException 400), s)
      else
        (case mk_Transaction now (tcr_sender p) (tcr_receiver p) (Some (AmtDec (tcr_amount p))) None None None [] None of
           Inl e \<Rightarrow> (Inl (Unhandled e), s)
         | Inr tx \<Rightarrow> (answer (tx_to_out tx), s)))"

text \<open>The transaction of a submission.\<close>

definition submitted_transaction :: "int \<Rightarrow> transaction_submit_request \<Rightarrow> transaction result" where
  "submitted_transaction now p =
     (case tsr_amount_base_units p of
        Some n \<Rightarrow>
          mk_Transaction now (tsr_sender p) (tsr_receiver p) None (Some (PyInt (tsr_timestamp p)))
            (Some (tsr_sender_public_key p)) (Some (tsr_signature p)) [] (Some (PInt n))
      | None \<Rightarrow>
          mk_Transaction now (tsr_sender p) (tsr_receiver p) (Some (AmtDec (tsr_amount p)))
            (Some (PyInt (tsr_timestamp p))) (Some (tsr_sender_public_key p)) (Some (tsr_signature p)) [] None)"

definition submit_transaction_route ::
  "crypto \<Rightarrow> outside \<Rightarrow> transaction_submit_request \<Rightarrow> api \<Rightarrow> transaction_submit_response reply" where
  "submit_transaction_route C out p s =
     (case submitted_transaction \<lfloor>o_time out\<rfloor> p of
        Inl e \<Rightarrow> (Inl (Unhandled e), s)
      | Inr tx \<Rightarrow>
          (case submit_transaction C tx (get_blockchain s) of
             (v, bc) \<Rightarrow>
               let s1 = set_blockchain bc s;
                   s2 = (if v = Valid
                         then s1\<lparr>api_node := snd (broadcast_transaction C out tx None (api_node s1))\<rparr>
                         else s1)
               in (Inr \<lparr>tsp_accepted = (v = Valid), tsp_tx_hash = (if v = Valid then Some (tx_hash tx) else None),
                        tsp_reason = reason_of v\<rparr>, s2)))"

section \<open>Mining\<close>

definition mine_route :: "crypto \<Rightarrow> outside \<Rightarrow> mine_request \<Rightarrow> api \<Rightarrow> mine_response reply" where
  "mine_route C out p s =
     (if \<not> is_valid_address (mrq_miner_address p) then (Inl (HTTPException 400), s)
      else
        (case mine_pending_transactions C \<lfloor>o_time out\<rfloor> (mrq_miner_address p) (get_blockchain s) of
           (Inl (ValidationError m), bc) \<Rightarrow> (Inl (HTTPException 500), set_blockchain bc s)
         | (Inl e, bc) \<Rightarrow> (Inl (Unhandled e), set_blockchain bc s)
         | (Inr b, bc) \<Rightarrow>
             let s1 = set_blockchain bc s;
                 s2 = s1\<lparr>api_node := snd (broadcast_block C out b None (api_node s1))\<rparr>
             in (answer (map_sum id (\<lambda>o'. \<lparr>mrp_block = o', mrp_message = ''Block mined and appended to the chain.''\<rparr>)
                   (block_to_out b)), s2)))"

end
