(* ===== verification/Api_Run.thy ===== *)
theory Api_Run
  imports Api_Routes Network_Properties
begin

text \<open>
  The served application as a state machine: one step is one request that is answered, or a turn of the
  background task.  A step carries the address that it made trusted, if any, so that a run says how trust arose.
\<close>

section \<open>The limit in front of a handler\<close>

lemma get_challenge_store_simps [simp]:
  "get_challenge_store (s\<lparr>api_node := n\<rparr>) = get_challenge_store s"
  "get_challenge_store (s\<lparr>api_rate_limiters := l\<rparr>) = get_challenge_store s"
  "get_challenge_store (s\<lparr>api_challenge_store := Some st\<rparr>) = st"
  by (simp_all add: get_challenge_store_def split: option.splits)

definition only_limits :: "api \<Rightarrow> api \<Rightarrow> bool" where
  "only_limits s s' \<longleftrightarrow> s' = s\<lparr>api_rate_limiters := api_rate_limiters s'\<rparr>"

lemma only_limits_simps:
  assumes "only_limits s s'"
  shows "api_node s' = api_node s" "api_challenge_store s' = api_challenge_store s" "api_settings s' = api_settings s"
    "get_challenge_store s' = get_challenge_store s"
proof -
  obtain r where s': "s' = s\<lparr>api_rate_limiters := r\<rparr>" using assms unfolding only_limits_def by metis
  show "api_node s' = api_node s" "api_challenge_store s' = api_challenge_store s" "api_settings s' = api_settings s"
    "get_challenge_store s' = get_challenge_store s"
    by (simp_all add: s')
qed

lemma enforce_only_limits: "enforce_rate_limit now client t hint s = (r, s') \<Longrightarrow> only_limits s s'"
  by (auto simp: enforce_rate_limit_def set_rate_limiter_def only_limits_def Let_def split: sum.splits prod.splits)

lemma limited_cases:
  assumes "limited now client t hint body s = (r, s')"
  obtains (refused) e where "enforce_rate_limit now client t hint s = (Inl e, s')" "r = Inl e" "only_limits s s'"
    | (passed) s1 where "enforce_rate_limit now client t hint s = (Inr (), s1)" "only_limits s s1" "body s1 = (r, s')"
proof -
  obtain q s1 where e: "enforce_rate_limit now client t hint s = (q, s1)" by fastforce
  with enforce_only_limits [OF e] assms that show thesis by (cases q) (auto simp: limited_def)
qed

section \<open>Steps\<close>

text \<open>A request whose handler let no exception through.\<close>

definition answered :: "api_error + 'a \<Rightarrow> bool" where
  "answered r \<longleftrightarrow> (case r of Inl (Unhandled _) \<Rightarrow> False | _ \<Rightarrow> True)"

text \<open>The address an answer of \<open>authenticate_peer\<close> declares authenticated.\<close>

definition granted :: "envelope \<Rightarrow> api_error + peer_authenticate_response \<Rightarrow> string option" where
  "granted env r =
     (case r of
        Inl _ \<Rightarrow> None
      | Inr resp \<Rightarrow> if par_authenticated resp then Some (str_of (env_get env ''advertised_address'')) else None)"

text \<open>Receiving a block and mining write to the database; a request in which it refuses a validated block ends
  in an exception and is not a step.  \<open>U\<close> is the set of blocks in play.\<close>

inductive api_step :: "crypto \<Rightarrow> block set \<Rightarrow> api \<Rightarrow> string option \<Rightarrow> api \<Rightarrow> bool" for C U where
  status: "network_status out cl s = (r, s') \<Longrightarrow> api_step C U s None s'"
| peers: "list_known_peers out cl s = (r', s') \<Longrightarrow> api_step C U s None s'"
| chain: "network_chain len out cl s = (q, s') \<Longrightarrow> api_step C U s None s'"
| register: "register_peer out cl p s = (q', s') \<Longrightarrow> api_step C U s None s'"
| challenge: "issue_challenge out cl fresh nid s = (c, s') \<Longrightarrow> api_step C U s None s'"
| authenticate: "authenticate_peer C out cl env s = (a, s') \<Longrightarrow> api_step C U s (granted env a) s'"
| sync: "trigger_sync C out cl sp s = (sr, s') \<Longrightarrow> served out \<subseteq> U \<Longrightarrow> api_step C U s None s'"
| recv_block: "receive_block_route C out cl bp s = (br, s') \<Longrightarrow> answered br \<Longrightarrow>
    (\<And>b. blk_from_dict \<lfloor>o_time out\<rfloor> (brq_block bp) = Inr b \<Longrightarrow> b \<in> U) \<Longrightarrow> api_step C U s None s'"
| recv_tx: "receive_transaction_route C out cl tp s = (tr, s') \<Longrightarrow> api_step C U s None s'"
| submit: "submit_transaction_route C out sb s = (sbr, s') \<Longrightarrow> api_step C U s None s'"
| mine: "mine_route C out mp s = (mr, s') \<Longrightarrow> answered mr \<Longrightarrow>
    set (bc_chain (get_blockchain s')) \<subseteq> U \<Longrightarrow> api_step C U s None s'"
| maintain: "served out \<subseteq> U \<Longrightarrow> api_step C U s None (s\<lparr>api_node := maintenance_step C out (api_node s)\<rparr>)"
| stop: "api_step C U s None (lifespan_stop s)"

text \<open>A run, with the addresses that were granted trust, in order.\<close>

inductive api_run :: "crypto \<Rightarrow> block set \<Rightarrow> api \<Rightarrow> string list \<Rightarrow> api \<Rightarrow> bool" for C U where
  none: "api_run C U s [] s"
| more: "api_run C U s es s1 \<Longrightarrow> api_step C U s1 e s2 \<Longrightarrow> api_run C U s (es @ (case e of None \<Rightarrow> [] | Some a \<Rightarrow> [a])) s2"

section \<open>What a step does\<close>

text \<open>As \<open>progress\<close>, with the trusted addresses: those of before and the one granted.\<close>

definition api_effect :: "crypto \<Rightarrow> block set \<Rightarrow> network_node \<Rightarrow> string option \<Rightarrow> network_node \<Rightarrow> bool" where
  "api_effect C U n e n' \<longleftrightarrow>
     net_ok C U n' \<and>
     (bc_chain (nn_blockchain n') = bc_chain (nn_blockchain n) \<or>
      total_work (nn_blockchain n) < total_work (nn_blockchain n')) \<and>
     block_hash (genesis_block (nn_blockchain n')) = block_hash (genesis_block (nn_blockchain n)) \<and>
     bc_settings (nn_blockchain n') = bc_settings (nn_blockchain n) \<and>
     (\<forall>g. stored_with (nn_blockchain n) g \<longrightarrow> stored_with (nn_blockchain n') g) \<and>
     (\<forall>a. is_trusted_peer a n' \<longleftrightarrow> is_trusted_peer a n \<or> e = Some a)"

lemma progress_effect: "progress C U n n' \<Longrightarrow> api_effect C U n None n'"
  by (simp add: progress_def api_effect_def is_trusted_peer_def is_peer_trusted_def get_peer_credential_def)

lemma peer_only_effect: "peer_only n n' \<Longrightarrow> net_ok C U n \<Longrightarrow> api_effect C U n None n'"
  by (intro progress_effect peer_only_progress)

text \<open>\<open>grant_trust\<close>: the core is untouched, the address becomes trusted under the identity of the envelope.\<close>

definition with_credential :: "rat \<Rightarrow> string \<Rightarrow> envelope \<Rightarrow> network_node \<Rightarrow> network_node" where
  "with_credential now addr env n =
     n\<lparr>nn_blockchain := (nn_blockchain n)\<lparr>bc_storage :=
        upsert_peer_credential now addr (str_of (env_get env ''node_id'')) (str_of (env_get env ''public_key'')) True
          (nn_storage n)\<rparr>\<rparr>"

lemma grant_trust_frame: "peer_only (with_credential (o_time out) addr env n) (grant_trust out addr env n)"
  unfolding grant_trust_def with_credential_def Let_def
  by (rule peer_only_trans [OF node_register_frame node_mark_frame(1)])

lemma with_credential_core:
  "core_view (nn_blockchain (with_credential now addr env n)) = core_view (nn_blockchain n)"
  by (simp add: with_credential_def core_view_def core_storage_def upsert_peer_credential_def nn_storage_def)

lemma with_credential_trusted: "is_trusted_peer a (with_credential now addr env n) \<longleftrightarrow> is_trusted_peer a n \<or> addr = a"
  by (auto simp: with_credential_def is_trusted_peer_def is_peer_trusted_def get_peer_credential_def
      upsert_peer_credential_def nn_storage_def)

lemma grant_trust_core: "core_view (nn_blockchain (grant_trust out addr env n)) = core_view (nn_blockchain n)"
  using grant_trust_frame with_credential_core unfolding peer_only_def by metis

lemma core_view_effect:
  assumes v: "core_view (nn_blockchain n') = core_view (nn_blockchain n)" and ok: "net_ok C U n"
    and t: "\<And>a. is_trusted_peer a n' \<longleftrightarrow> is_trusted_peer a n \<or> e = Some a"
  shows "api_effect C U n e n'"
proof -
  have eq: "bc_chain (nn_blockchain n') = bc_chain (nn_blockchain n)"
    "bc_settings (nn_blockchain n') = bc_settings (nn_blockchain n)"
    "bc_consensus (nn_blockchain n') = bc_consensus (nn_blockchain n)"
    using v core_view_simps(1-3) by metis+
  have "node_ok C (nn_blockchain n')" using ok v node_ok_core unfolding net_ok_def by metis
  moreover have "stored_with (nn_blockchain n') g \<longleftrightarrow> stored_with (nn_blockchain n) g" for g
    using v stored_with_core by metis
  ultimately show ?thesis using eq ok t by (simp add: api_effect_def net_ok_def max_supply_of_def genesis_block_def)
qed

lemma grant_trust_effect: "net_ok C U n \<Longrightarrow> api_effect C U n (Some addr) (grant_trust out addr env n)"
  by (rule core_view_effect [OF grant_trust_core])
    (simp_all add: peer_only_trusted [OF grant_trust_frame] with_credential_trusted)

lemma authenticate_peer_cases:
  assumes "authenticate_peer C out cl env s = (r, s')"
  obtains (refused) "api_node s' = api_node s" "granted env r = None"
    | (granted) st where "verify_handshake_envelope C (PDict env) (nn_auth_context (api_node s)) (o_time out)
          (get_challenge_store s) = (Inr Valid, st)"
        "validate_peer_address (o_dns out) (env_get env ''advertised_address'')
          (allow_private_peer_addresses (p2p_cfg (nn_settings (api_node s)))) = Inr Valid"
        "granted env r = Some (str_of (env_get env ''advertised_address''))"
        "api_node s' = grant_trust out (str_of (env_get env ''advertised_address'')) env (api_node s)"
        "api_challenge_store s' = Some st"
        "r = Inr \<lparr>par_authenticated = True, par_reason = None, par_self_node_id = Some (nn_node_id (api_node s)),
                par_self_public_key = Some (ident_public_key_hex (nn_identity (api_node s)))\<rparr>"
  using assms unfolding authenticate_peer_def
proof (cases rule: limited_cases)
  case (refused e)
  then show thesis using that(1) only_limits_simps by (auto simp: granted_def)
next
  case (passed s1)
  note eq = only_limits_simps [OF passed(2)]
  obtain v st where v: "verify_handshake_envelope C (PDict env) (nn_auth_context (api_node s)) (o_time out)
      (get_challenge_store s) = (v, st)" by fastforce
  define w where "w = validate_peer_address (o_dns out) (env_get env ''advertised_address'')
      (allow_private_peer_addresses (p2p_cfg (nn_settings (api_node s))))"
  show thesis
  proof (cases "v = Inr Valid \<and> w = Inr Valid")
    case True
    with passed(3) v that(2) show thesis by (auto simp: eq Let_def w_def granted_def)
  next
    case False
    with passed(3) v show thesis
      by (intro that(1)) (auto simp: eq Let_def w_def [symmetric] granted_def split: sum.splits verdict.splits)
  qed
qed

section \<open>Every step has the effect its label says\<close>

lemma only_limits_effect: "only_limits s s' \<Longrightarrow> net_ok C U (api_node s) \<Longrightarrow> api_effect C U (api_node s) None (api_node s')"
  by (simp add: only_limits_simps(1) peer_only_effect)

lemma read_effect:
  assumes ok: "net_ok C U (api_node s)"
  shows "network_status out cl s = (r1, s') \<Longrightarrow> api_effect C U (api_node s) None (api_node s')"
    "list_known_peers out cl s = (r2, s') \<Longrightarrow> api_effect C U (api_node s) None (api_node s')"
    "network_chain len out cl s = (r3, s') \<Longrightarrow> api_effect C U (api_node s) None (api_node s')"
    "issue_challenge out cl fresh nid s = (r4, s') \<Longrightarrow> api_effect C U (api_node s) None (api_node s')"
  unfolding network_status_def list_known_peers_def network_chain_def issue_challenge_def
  by (erule limited_cases; auto simp: Let_def only_limits_effect [OF _ ok] dest: only_limits_effect [OF _ ok]
      split: sum.splits prod.splits)+

lemma register_peer_effect:
  assumes "register_peer out cl p s = (r, s')" and ok: "net_ok C U (api_node s)"
  shows "api_effect C U (api_node s) None (api_node s')"
  using assms(1) unfolding register_peer_def
proof (cases rule: limited_cases)
  case (refused e)
  then show ?thesis by (intro only_limits_effect ok)
next
  case (passed s1)
  note n = only_limits_simps(1) [OF passed(2)]
  obtain v n1 where v: "node_register out (PStr (prq_address p)) (Some (prq_node_id p)) (api_node s) = (v, n1)" by fastforce
  have "peer_only (api_node s) n1" using node_register_frame v by (metis snd_conv)
  then have "peer_only (api_node s) (api_node s')"
    using passed(3) v by (auto simp: n Let_def split: if_splits intro: peer_only_trans [OF _ node_mark_frame(1)])
  then show ?thesis by (rule peer_only_effect [OF _ ok])
qed

lemma trigger_sync_effect:
  assumes "trigger_sync C out cl p s = (r, s')" and ok: "net_ok C U (api_node s)"
    and U: "inj_on block_hash U" "served out \<subseteq> U"
  shows "api_effect C U (api_node s) None (api_node s')"
  using assms(1) unfolding trigger_sync_def
proof (cases rule: limited_cases)
  case (refused e)
  then show ?thesis by (intro only_limits_effect ok)
next
  case (passed s1)
  note n = only_limits_simps(1) [OF passed(2)]
  show ?thesis
  proof (cases "claimed_of (auth_hint ''advertised_address'' (srq_auth p))")
    case (Inl e)
    with passed(2,3) show ?thesis by (auto intro: only_limits_effect [OF _ ok])
  next
    case (Inr claimed)
    obtain v n1 where a: "authenticate_request C out (map_option PDict (srq_auth p))
        (Some [(''peer_address'', opt_str (srq_peer_address p))]) claimed (api_node s) = (v, n1)" by fastforce
    have p1: "progress C U (api_node s) n1" by (rule peer_only_progress [OF authenticated_frame [OF a] ok])
    then have ok1: "net_ok C U n1" by (simp add: progress_def)
    have one: "progress C U (api_node s) n2" if "sync_with_peer C out x n1 = (q, n2)" for x q n2
      by (rule progress_trans [OF p1 sync_with_peer_progress [OF ok1 that U]])
    have all: "progress C U (api_node s) n2" if "sync_with_all_peers C out n1 = (q, n2)" for q n2
      by (rule progress_trans [OF p1 sync_peers_progress [OF U ok1 that [unfolded sync_with_all_peers_def]]])
    from passed(3) Inr a n have "progress C U (api_node s) (api_node s')"
      by (auto simp: Let_def p1 one all split: sum.splits verdict.splits if_splits prod.splits)
    then show ?thesis by (rule progress_effect)
  qed
qed

text \<open>Receiving, then relaying what was accepted.\<close>
lemma receive_block_route_effect:
  assumes "receive_block_route C out cl p s = (r, s')" "answered r" and ok: "net_ok C U (api_node s)"
    and U: "\<And>b. blk_from_dict \<lfloor>o_time out\<rfloor> (brq_block p) = Inr b \<Longrightarrow> b \<in> U"
  shows "api_effect C U (api_node s) None (api_node s')"
  using assms(1) unfolding receive_block_route_def
proof (cases rule: limited_cases)
  case (refused e)
  then show ?thesis by (intro only_limits_effect ok)
next
  case (passed s1)
  note n = only_limits_simps(1) [OF passed(2)]
  obtain v n1 where a: "receive_block C out (brq_block p) (brq_from_peer p) (map_option PDict (brq_auth p)) (api_node s) = (v, n1)"
    by fastforce
  show ?thesis
  proof (cases "validate_message_type (dump_block_request p) NEW_BLOCK")
    case (Some e)
    with passed(2,3) show ?thesis by (auto intro: only_limits_effect [OF _ ok])
  next
    case None
    show ?thesis
    proof (cases v)
      case (Inl e)
      with passed(3) None a n assms(2) show ?thesis by (auto simp: answered_def)
    next
      case (Inr w)
      from receive_block_progress [OF ok a [unfolded Inr] U] have p1: "progress C U (api_node s) n1" .
      have "progress C U (api_node s) n2" if "broadcast_block C out b x n1 = (q, n2)" for b x q n2
        by (rule progress_peer_only [OF p1 broadcast_block_frame [OF that]])
      with p1 passed(3) None Inr a n have "progress C U (api_node s) (api_node s')"
        by (auto split: sum.splits if_splits prod.splits)
      then show ?thesis by (rule progress_effect)
    qed
  qed
qed

lemma receive_transaction_route_effect:
  assumes "receive_transaction_route C out cl p s = (r, s')" and ok: "net_ok C U (api_node s)"
  shows "api_effect C U (api_node s) None (api_node s')"
  using assms(1) unfolding receive_transaction_route_def
proof (cases rule: limited_cases)
  case (refused e)
  then show ?thesis by (intro only_limits_effect ok)
next
  case (passed s1)
  note n = only_limits_simps(1) [OF passed(2)]
  obtain v n1 where a: "receive_transaction C out (trq_transaction p) (trq_from_peer p) (map_option PDict (trq_auth p))
      (api_node s) = (v, n1)" by fastforce
  from receive_transaction_progress [OF ok a] have p1: "progress C U (api_node s) n1" .
  have p2: "progress C U (api_node s) n2" if "broadcast_transaction C out b x n1 = (q, n2)" for b x q n2
    by (rule progress_peer_only [OF p1 broadcast_transaction_frame [OF that]])
  show ?thesis
  proof (cases "validate_message_type (dump_transaction_request p) NEW_TRANSACTION")
    case (Some e)
    with passed(2,3) show ?thesis by (auto intro: only_limits_effect [OF _ ok])
  next
    case None
    with p1 p2 passed(3) a n have "progress C U (api_node s) (api_node s')"
      by (auto split: sum.splits if_splits prod.splits)
    then show ?thesis by (rule progress_effect)
  qed
qed

text \<open>Submitting and mining, then telling the peers.\<close>
lemma set_blockchain_simps [simp]:
  "api_node (set_blockchain bc s) = (api_node s)\<lparr>nn_blockchain := bc\<rparr>" "get_blockchain (set_blockchain bc s) = bc"
  by (simp_all add: set_blockchain_def get_blockchain_def)

lemma submitted_wire: "submitted_transaction now p = Inr tx \<Longrightarrow> wire_tx tx"
  by (auto simp: submitted_transaction_def mk_Transaction_def wire_tx_def Let_def
      split: option.splits sum.splits py_error.splits if_splits)

lemma submit_route_effect:
  assumes "submit_transaction_route C out p s = (r, s')" and ok: "net_ok C U (api_node s)"
  shows "api_effect C U (api_node s) None (api_node s')"
proof (cases "submitted_transaction \<lfloor>o_time out\<rfloor> p")
  case (Inl e)
  then show ?thesis using assms peer_only_effect [OF peer_only_refl ok] by (auto simp: submit_transaction_route_def)
next
  case (Inr tx)
  obtain v bc where v: "submit_transaction C tx (nn_blockchain (api_node s)) = (v, bc)" by fastforce
  note p1 = submit_progress [OF ok v submitted_wire [OF Inr]]
  have p2: "progress C U (api_node s) (snd (broadcast_transaction C out tx None ((api_node s)\<lparr>nn_blockchain := bc\<rparr>)))"
    by (rule progress_peer_only [OF p1]) (rule broadcast_transaction_frame [OF prod.collapse [symmetric]])
  have "api_node s' = (if v = Valid then snd (broadcast_transaction C out tx None ((api_node s)\<lparr>nn_blockchain := bc\<rparr>))
      else (api_node s)\<lparr>nn_blockchain := bc\<rparr>)"
    using assms(1) by (auto simp: submit_transaction_route_def Inr v get_blockchain_def Let_def)
  with p1 p2 show ?thesis by (auto intro: progress_effect)
qed

lemma mine_route_effect:
  assumes "mine_route C out p s = (r, s')" "answered r" and ok: "net_ok C U (api_node s)"
    and U: "set (bc_chain (get_blockchain s')) \<subseteq> U"
  shows "api_effect C U (api_node s) None (api_node s')"
proof (cases "is_valid_address (mrq_miner_address p)")
  case False
  then show ?thesis using assms(1) peer_only_effect [OF peer_only_refl ok] by (auto simp: mine_route_def)
next
  case True
  obtain v bc where v: "mine_pending_transactions C \<lfloor>o_time out\<rfloor> (mrq_miner_address p) (nn_blockchain (api_node s)) = (v, bc)"
    by fastforce
  note route = assms(1) [unfolded mine_route_def get_blockchain_def v]
  show ?thesis
    using v
  proof (cases rule: mine_cases)
    case (failed e)
    then have "s' = set_blockchain (nn_blockchain (api_node s)) s"
      using route True by (cases e) auto
    then show ?thesis using peer_only_effect [OF peer_only_refl ok] by simp
  next
    case unsaved
    then show ?thesis using route True assms(2) by (auto simp: answered_def)
  next
    case (mined b hs)
    let ?n1 = "(api_node s)\<lparr>nn_blockchain := bc\<rparr>"
    have n': "api_node s' = snd (broadcast_block C out b None ?n1)"
      using route True mined(1) by (auto simp: Let_def)
    have f: "peer_only ?n1 (api_node s')" unfolding n' by (rule broadcast_block_frame [OF prod.collapse [symmetric]])
    have "b \<in> set (bc_chain bc)" using mined(3) by (elim commit_block_cases) auto
    then have "b \<in> U" using U peer_only_chain [OF f] by (auto simp: get_blockchain_def)
    moreover have "wire_block b" using prepared_wire [of C, OF _ _ mined(2)] ok by (simp add: net_ok_def)
    ultimately have "progress C U (api_node s) ?n1" using commit_progress [OF ok mined(3)] by blast
    then show ?thesis by (intro progress_effect progress_peer_only [OF _ f])
  qed
qed

lemma api_step_effect:
  assumes "api_step C U s e s'" and ok: "net_ok C U (api_node s)" and U: "inj_on block_hash U"
  shows "api_effect C U (api_node s) e (api_node s')"
  using assms(1)
proof (cases rule: api_step.cases)
  case (authenticate out cl env a)
  from authenticate(2) show ?thesis
  proof (cases rule: authenticate_peer_cases)
    case refused
    then show ?thesis using peer_only_effect [OF peer_only_refl ok] authenticate(1) by simp
  next
    case (granted st)
    then show ?thesis using grant_trust_effect [OF ok] authenticate(1) by simp
  qed
next
  case (recv_block out cl bp br)
  then show ?thesis using receive_block_route_effect [OF recv_block(2,3) ok] by blast
next
  case (mine out mp mr)
  then show ?thesis using mine_route_effect [OF mine(2,3) ok] by blast
next
  case (maintain out)
  then show ?thesis using progress_effect [OF maintenance_progress [OF ok U]] by simp
next
  case stop
  then show ?thesis using peer_only_effect [OF stop_frame ok] by (simp add: lifespan_stop_def)
qed (auto intro: read_effect [OF ok] register_peer_effect [OF _ ok] trigger_sync_effect [OF _ ok U]
    receive_transaction_route_effect [OF _ ok] submit_route_effect [OF _ ok])

lemma api_run_effect:
  assumes "api_run C U s es s'" and "net_ok C U (api_node s)" and U: "inj_on block_hash U"
  shows "net_ok C U (api_node s') \<and> total_work (nn_blockchain (api_node s)) \<le> total_work (nn_blockchain (api_node s')) \<and>
    block_hash (genesis_block (nn_blockchain (api_node s'))) = block_hash (genesis_block (nn_blockchain (api_node s))) \<and>
    bc_settings (nn_blockchain (api_node s')) = bc_settings (nn_blockchain (api_node s)) \<and>
    (\<forall>g. stored_with (nn_blockchain (api_node s)) g \<longrightarrow> stored_with (nn_blockchain (api_node s')) g) \<and>
    (\<forall>a. is_trusted_peer a (api_node s') \<longleftrightarrow> is_trusted_peer a (api_node s) \<or> a \<in> set es)"
  using assms(1,2)
proof (induction rule: api_run.induct)
  case (more s es s1 e s2)
  then have "api_effect C U (api_node s1) e (api_node s2)" using api_step_effect U by blast
  with more.IH more.prems show ?case by (cases e) (auto simp: api_effect_def total_work_def)
qed simp

end
