(* ===== verification/Api_Properties.thy ===== *)
theory Api_Properties
  imports Api_Run
begin

text \<open>
  Properties of the served application: what a run of requests keeps, how an address comes to be trusted, that an
  honest peer succeeds, what the shared objects look like, and where answers differ from the documentation.
\<close>

section \<open>Runs\<close>

lemma lifespan_start_ok:
  assumes "algorithm (consensus_cfg cfg) = ''pow''" "is_float (gen_timestamp (genesis_cfg cfg))"
    and "max_supply_base_units (native_asset_cfg cfg) = MAX_SUPPLY_BASE_UNITS"
    and s0: "lifespan_start C out new_id fresh cfg empty_storage = Inr s0"
    and U: "set (bc_chain (get_blockchain s0)) \<subseteq> U"
  shows "net_ok C U (api_node s0)" "\<not> is_trusted_peer a (api_node s0)"
proof -
  obtain bc where bc: "Blockchain_init \<lfloor>o_time out\<rfloor> cfg empty_storage = Inr bc" "node_ok C bc"
    "bc_consensus bc = ProofOfWorkConsensus" "bc_settings bc = cfg"
    using Blockchain_init_fresh [OF assms(1,2), of "\<lfloor>o_time out\<rfloor>" C] assms(3)
    by (auto simp: MAX_SUPPLY_BASE_UNITS_def MAX_SUPPLY_SYJ_def BASE_UNITS_PER_SYJ_def)
  let ?n = "NetworkNode out new_id fresh cfg bc"
  have n: "api_node s0 = start C out ?n" using s0 bc(1) by (auto simp: lifespan_start_def)
  have f: "peer_only ?n (api_node s0)" unfolding n by (rule start_frame)
  have v: "core_view (nn_blockchain (api_node s0)) = core_view bc"
    using f NetworkNode_facts(1) unfolding peer_only_def by metis
  then have "node_ok C (nn_blockchain (api_node s0))" "bc_consensus (nn_blockchain (api_node s0)) = ProofOfWorkConsensus"
    "bc_settings (nn_blockchain (api_node s0)) = cfg"
    using bc node_ok_core core_view_simps(2,3) by metis+
  then show "net_ok C U (api_node s0)"
    using U assms(3) by (simp add: net_ok_def max_supply_of_def get_blockchain_def)
  have "peer_credentials_table (bc_storage bc) = []"
    using bc(1) by (auto simp: Blockchain_init_def load_chain_def empty_storage_def Let_def
        create_and_persist_genesis_block_def dest!: save_block_credentials split: sum.splits if_splits)
  then have "peer_credentials_table (nn_storage (api_node s0)) = []"
    using f NetworkNode_facts(2) [of out new_id fresh cfg bc] by (simp add: peer_only_def)
  then show "\<not> is_trusted_peer a (api_node s0)"
    by (simp add: is_trusted_peer_def is_peer_trusted_def get_peer_credential_def)
qed


definition sample_api :: api where
  "sample_api = (case lifespan_start sample_crypto sample_out ''self'' (''k'', ''pk'') sample_settings empty_storage of
     Inr s \<Rightarrow> s)"

lemma sample_config:
  "algorithm (consensus_cfg sample_settings) = ''pow''" "is_float (gen_timestamp (genesis_cfg sample_settings))"
  "max_supply_base_units (native_asset_cfg sample_settings) = MAX_SUPPLY_BASE_UNITS"
  by (simp_all add: sample_settings_def GenesisConfig_def NativeAssetConfig_def)

lemma sample_api_start:
  "lifespan_start sample_crypto sample_out ''self'' (''k'', ''pk'') sample_settings empty_storage = Inr sample_api"
  "length (bc_chain (get_blockchain sample_api)) = 1"
proof -
  obtain bc where bc: "Blockchain_init \<lfloor>o_time sample_out\<rfloor> sample_settings empty_storage = Inr bc" "length (bc_chain bc) = 1"
    using Blockchain_init_fresh [OF sample_config(1,2), of "\<lfloor>o_time sample_out\<rfloor>"] sample_config(3)
    by (auto simp: MAX_SUPPLY_BASE_UNITS_def MAX_SUPPLY_SYJ_def BASE_UNITS_PER_SYJ_def)
  then show s: "lifespan_start sample_crypto sample_out ''self'' (''k'', ''pk'') sample_settings empty_storage = Inr sample_api"
    by (simp add: sample_api_def lifespan_start_def)
  have "peer_only (NetworkNode sample_out ''self'' (''k'', ''pk'') sample_settings bc) (api_node sample_api)"
    by (simp add: sample_api_def lifespan_start_def bc(1) start_frame)
  then have "core_view (nn_blockchain (api_node sample_api)) = core_view bc"
    using NetworkNode_facts(1) unfolding peer_only_def by metis
  then show "length (bc_chain (get_blockchain sample_api)) = 1"
    using bc(2) core_view_simps(1) unfolding get_blockchain_def by metis
qed


section \<open>Trust\<close>

abbreviation handshake_text :: "envelope \<Rightarrow> string" where
  "handshake_text env \<equiv>
     deterministic_json (PDict (dict_set ''challenge'' (env_get env ''challenge'')
       (signed_dict env (Some [(''challenge'', env_get env ''challenge'')]))))"

lemma verify_handshake_Valid:
  assumes "verify_handshake_envelope C (PDict env) ctx now st = (Inr Valid, st')"
  shows "\<exists>nid. env_get env ''node_id'' = PStr nid \<and> nid \<noteq> [] \<and>
    verify_and_consume now nid (env_get env ''challenge'') st = (Valid, st') \<and>
    verify_identity_signature C (env_get env ''public_key'') (handshake_text env) (env_get env ''signature'') \<and>
    is_valid_public_key C (env_get env ''public_key'') \<and>
    env_get env ''network_name'' = PStr (ctx_network_name ctx) \<and> env_get env ''genesis_hash'' = PStr (ctx_genesis_hash ctx)"
proof -
  have m: "missing_fields (REQUIRED_ENVELOPE_FIELDS @ [''challenge'']) env = []"
    and c: "check_network_identity C ctx env = Inr Valid"
    and v: "verify_and_consume now (str_of (env_get env ''node_id'')) (env_get env ''challenge'') st = (Valid, st')"
    and s: "check_signature C env (map_sum id (dict_set ''challenge'' (env_get env ''challenge''))
       (signing_fields env (payload_digest (Some [(''challenge'', env_get env ''challenge'')])))) = Inr Valid"
    using assms
    by (auto simp: verify_handshake_envelope_def split: if_splits sum.splits verdict.splits prod.splits)
  note d = check_network_identityD [OF c]
  have "\<forall>k \<in> set signed_keys. map_of env k \<noteq> None"
    using m signed_keys_required by (auto simp: missing_fields_none)
  from s d v show ?thesis
    by (auto simp: signing_fields_Inr [OF \<open>\<forall>k \<in> set signed_keys. map_of env k \<noteq> None\<close>] check_signature_def split: if_splits)
qed

lemma verify_and_consume_Valid:
  "verify_and_consume now nid p st = (Valid, st') \<Longrightarrow>
   \<exists>c t. map_of (challenges st) nid = Some (c, t) \<and> p = PStr c \<and> now - t \<le> challenge_ttl_seconds st \<and>
     map_of (challenges st') nid = None"
  by (auto simp: verify_and_consume_def map_of_dict_pop split: option.splits if_splits)

lemma is_valid_public_key_str: "is_valid_public_key C v \<Longrightarrow> \<exists>s. v = PStr s"
  by (cases v) (auto simp: is_valid_public_key_def)

lemma validate_peer_address_str: "validate_peer_address dns v ok = Inr Valid \<Longrightarrow> \<exists>a. v = PStr a"
  by (cases v) (auto simp: validate_peer_address_def)

lemma grant_trust_credential:
  "get_peer_credential addr (nn_storage (grant_trust out addr env n)) =
     Some \<lparr>cred_node_id = str_of (env_get env ''node_id''), cred_public_key_hex = str_of (env_get env ''public_key''),
           cred_trusted = 1, authenticated_at = o_time out\<rparr>"
proof -
  have "peer_credentials_table (nn_storage (grant_trust out addr env n)) =
      peer_credentials_table (nn_storage (with_credential (o_time out) addr env n))"
    using grant_trust_frame unfolding peer_only_def by blast
  then show ?thesis
    by (simp add: get_peer_credential_def with_credential_def nn_storage_def upsert_peer_credential_def)
qed


section \<open>An honest peer\<close>

lemma built_handshake_envelope:
  assumes "crypto_correct C" "genuine C (ctx_identity ctx)"
  shows "\<exists>env. build_handshake_envelope C ctx (PStr ch) ts nce = Inr env \<and>
    (\<forall>k. k \<noteq> ''signature'' \<longrightarrow> map_of env k = map_of (dict_set ''challenge'' (PStr ch) (unsigned_envelope ctx ts nce)) k) \<and>
    map_of env ''signature'' \<noteq> None \<and>
    verify_identity_signature C (env_get env ''public_key'') (handshake_text env) (env_get env ''signature'')"
proof -
  let ?p = "Some [(''challenge'', PStr ch)]"
  obtain sig0 where b: "build_auth_envelope C ctx ?p ts nce =
      Inr (dict_set ''signature'' (PStr sig0) (unsigned_envelope ctx ts nce))"
    using build_auth_envelope_genuine [OF assms] by blast
  define env where "env = dict_set ''challenge'' (PStr ch) (dict_set ''signature'' (PStr sig0) (unsigned_envelope ctx ts nce))"
  have nin: "''signature'' \<notin> set signed_keys" by (simp add: signed_keys_def)
  have keys: "\<forall>k \<in> set signed_keys. map_of env k \<noteq> None" using unsigned_keys by (auto simp: env_def)
  obtain sig where sig: "identity_sign C (ctx_identity ctx)
      (deterministic_json (PDict (dict_set ''challenge'' (PStr ch) (signed_dict env ?p)))) = Inr sig"
    "verify_identity_signature C (PStr (ident_public_key_hex (ctx_identity ctx)))
      (deterministic_json (PDict (dict_set ''challenge'' (PStr ch) (signed_dict env ?p)))) (PStr sig)"
    using genuine_signs [OF assms] by blast
  have "build_handshake_envelope C ctx (PStr ch) ts nce = Inr (dict_set ''signature'' (PStr sig) env)"
    by (simp add: build_handshake_envelope_def b env_def [symmetric] signing_fields_Inr [OF keys] sig(1) Let_def)
  moreover have "env_get env ''challenge'' = PStr ch" "env_get env ''public_key'' = PStr (ident_public_key_hex (ctx_identity ctx))"
    by (simp_all add: env_def env_get_def unsigned_envelope_def)
  ultimately show ?thesis using sig(2)
    by (intro exI [of _ "dict_set ''signature'' (PStr sig) env"])
      (simp add: env_get_set signed_dict_set [OF nin], simp add: env_def)
qed

lemma handshake_verifies:
  assumes "crypto_correct C" "genuine C (ctx_identity ctx)" "ident_node_id (ctx_identity ctx) \<noteq> []"
    and "ctx_network_name ctx' = ctx_network_name ctx" "ctx_genesis_hash ctx' = ctx_genesis_hash ctx"
    and "verify_and_consume now (ident_node_id (ctx_identity ctx)) (PStr ch) st = (Valid, st')"
  shows "\<exists>env. build_handshake_envelope C ctx (PStr ch) ts nce = Inr env \<and>
    verify_handshake_envelope C (PDict env) ctx' now st = (Inr Valid, st') \<and>
    env_get env ''node_id'' = PStr (ident_node_id (ctx_identity ctx)) \<and>
    env_get env ''public_key'' = PStr (ident_public_key_hex (ctx_identity ctx)) \<and>
    env_get env ''advertised_address'' = PStr (ctx_advertised_address ctx)"
proof -
  obtain env where env: "build_handshake_envelope C ctx (PStr ch) ts nce = Inr env"
    and m: "\<And>k. k \<noteq> ''signature'' \<Longrightarrow> map_of env k = map_of (dict_set ''challenge'' (PStr ch) (unsigned_envelope ctx ts nce)) k"
    and sg: "map_of env ''signature'' \<noteq> None"
    and v: "verify_identity_signature C (env_get env ''public_key'') (handshake_text env) (env_get env ''signature'')"
    using built_handshake_envelope [OF assms(1,2)] by blast
  have g: "env_get env k = env_get (dict_set ''challenge'' (PStr ch) (unsigned_envelope ctx ts nce)) k"
    if "k \<noteq> ''signature''" for k using m [OF that] by (simp add: env_get_def)
  have gs: "env_get env ''node_id'' = PStr (ident_node_id (ctx_identity ctx))"
    "env_get env ''public_key'' = PStr (ident_public_key_hex (ctx_identity ctx))"
    "env_get env ''advertised_address'' = PStr (ctx_advertised_address ctx)"
    "env_get env ''protocol_name'' = PStr PROTOCOL_NAME" "env_get env ''protocol_version'' = PStr ''1.0''"
    "env_get env ''network_name'' = PStr (ctx_network_name ctx)" "env_get env ''genesis_hash'' = PStr (ctx_genesis_hash ctx)"
    "env_get env ''challenge'' = PStr ch"
    by (simp_all add: g, simp_all add: env_get_def unsigned_envelope_def)
  have "missing_fields (REQUIRED_ENVELOPE_FIELDS @ [''challenge'']) env = []"
    using sg by (auto simp: missing_fields_none REQUIRED_ENVELOPE_FIELDS_def m unsigned_envelope_def)
  moreover have "is_valid_public_key C (PStr (ident_public_key_hex (ctx_identity ctx)))"
    using genuine_signs [OF assms(1,2)] verified_key_valid by blast
  then have "check_network_identity C ctx' env = Inr Valid"
    using assms(3-5) by (simp add: check_network_identity_def gs version_supported_def SUPPORTED_PROTOCOL_VERSIONS_def)
  moreover have "\<forall>k \<in> set signed_keys. map_of env k \<noteq> None"
    by (auto simp: m signed_keys_def unsigned_envelope_def)
  note signing_fields_Inr [OF this]
  ultimately have "verify_handshake_envelope C (PDict env) ctx' now st = (Inr Valid, st')"
    using assms(6) v by (simp add: verify_handshake_envelope_def gs check_signature_def)
  with env gs show ?thesis by blast
qed

section \<open>The shared objects\<close>

text \<open>A rate limiter of the application: the parameters of its tier, and the limiter's own invariant.\<close>

definition limiter_wf :: "p2p_config \<Rightarrow> string \<Rightarrow> rate_limiter \<Rightarrow> bool" where
  "limiter_wf p2p k rl \<longleftrightarrow>
     (\<exists>t. k = tier_name t \<and> max_requests rl = max 1 (rate_limit_requests p2p * TIER_MULTIPLIERS t)) \<and>
     window_seconds rl = rate_limit_window_seconds p2p \<and> max_keys rl = rate_limit_max_keys p2p \<and> rl_invar rl"

definition api_wf :: "api \<Rightarrow> bool" where
  "api_wf s \<longleftrightarrow>
     0 \<le> rate_limit_max_keys (p2p_cfg (api_settings s)) \<and>
     dict_invar (api_rate_limiters s) \<and>
     (\<forall>k rl. map_of (api_rate_limiters s) k = Some rl \<longrightarrow> limiter_wf (p2p_cfg (api_settings s)) k rl) \<and>
     (\<exists>h. store_reach (replay_cache_size (p2p_cfg (api_settings s))) 60 h (get_challenge_store s))"

lemma api_wf_node [simp]: "api_wf (s\<lparr>api_node := n\<rparr>) = api_wf s"
  by (simp add: api_wf_def)

lemma api_wf_store:
  assumes "api_wf s"
    and "\<And>h. store_reach (replay_cache_size (p2p_cfg (api_settings s))) 60 h (get_challenge_store s) \<Longrightarrow>
      \<exists>h'. store_reach (replay_cache_size (p2p_cfg (api_settings s))) 60 h' st"
  shows "api_wf (s\<lparr>api_challenge_store := Some st\<rparr>)"
proof -
  obtain h where "store_reach (replay_cache_size (p2p_cfg (api_settings s))) 60 h (get_challenge_store s)"
    using assms(1) by (auto simp: api_wf_def)
  from assms(2) [OF this] assms(1) show ?thesis by (simp add: api_wf_def)
qed

lemma get_rate_limiter_wf:
  assumes "api_wf s"
  shows "limiter_wf (p2p_cfg (api_settings s)) (tier_name t) (get_rate_limiter t s)"
proof (cases "map_of (api_rate_limiters s) (tier_name t)")
  case None
  then show ?thesis using assms
    by (auto simp: api_wf_def limiter_wf_def get_rate_limiter_def PeerRateLimiter_def Let_def rl_invar_def
        dict_invar_def tracked_key_count_def)
next
  case (Some rl)
  then show ?thesis using assms by (simp add: api_wf_def get_rate_limiter_def)
qed

lemma set_rate_limiter_wf:
  assumes "api_wf s" "limiter_wf (p2p_cfg (api_settings s)) (tier_name t) rl"
  shows "api_wf (set_rate_limiter t rl s)"
  using assms by (auto simp: api_wf_def set_rate_limiter_def dict_invar_set split: if_splits)

lemma limiter_wf_allow: "limiter_wf p k rl \<Longrightarrow> limiter_wf p k (snd (allow now key rl))"
  by (simp add: limiter_wf_def rl_invar_allow)

lemma enforce_wf: "enforce_rate_limit now cl t hint s = (r, s') \<Longrightarrow> api_wf s \<Longrightarrow> api_wf s'"
proof -
  assume e: "enforce_rate_limit now cl t hint s = (r, s')" and wf: "api_wf s"
  note l = get_rate_limiter_wf [OF wf, of t]
  obtain rl where "s' = set_rate_limiter t rl s" "limiter_wf (p2p_cfg (api_settings s)) (tier_name t) rl"
    using e l limiter_wf_allow [OF l, of now]
    by (cases "rate_key hint cl") (force simp: enforce_rate_limit_def Let_def case_prod_unfold)+
  then show "api_wf s'" using set_rate_limiter_wf [OF wf] by simp
qed

lemma limited_wf:
  assumes "limited now cl t hint body s = (r, s')" "api_wf s"
    and "\<And>s1. api_wf s1 \<Longrightarrow> body s1 = (r, s') \<Longrightarrow> api_wf s'"
  shows "api_wf s'"
  using assms(1)
proof (cases rule: limited_cases)
  case (refused e)
  then show ?thesis using enforce_wf assms(2) by blast
next
  case (passed s1)
  then show ?thesis using enforce_wf assms(2,3) by blast
qed

lemma issue_wf:
  assumes "api_wf s" "issue now fresh nid (get_challenge_store s) = q"
  shows "\<exists>st'. q = Inr (fresh, st') \<and> api_wf (s\<lparr>api_challenge_store := Some st'\<rparr>)"
proof -
  obtain h where h: "store_reach (replay_cache_size (p2p_cfg (api_settings s))) 60 h (get_challenge_store s)"
    using assms(1) by (auto simp: api_wf_def)
  obtain st' where st': "issue now fresh nid (get_challenge_store s) = Inr (fresh, st')"
    using issue_invar [OF store_reach_invar [OF h]] by blast
  have "api_wf (s\<lparr>api_challenge_store := Some st'\<rparr>)"
    by (rule api_wf_store [OF assms(1)]) (use store_reach.issue [OF _ st'] in blast)
  with st' assms(2) show ?thesis by simp
qed

lemma verify_handshake_wf:
  assumes "api_wf s" "verify_handshake_envelope C e ctx now (get_challenge_store s) = (v, st')"
  shows "api_wf (s\<lparr>api_challenge_store := Some st'\<rparr>)"
proof (rule api_wf_store [OF assms(1)])
  fix h assume h: "store_reach (replay_cache_size (p2p_cfg (api_settings s))) 60 h (get_challenge_store s)"
  have "st' = get_challenge_store s \<or> (\<exists>nid p w. verify_and_consume now nid p (get_challenge_store s) = (w, st'))"
    using assms(2) by (auto simp: verify_handshake_envelope_def split: pyval.splits if_splits sum.splits verdict.splits prod.splits)
  then consider "st' = get_challenge_store s" | nid p where "verify_and_consume now nid p (get_challenge_store s) = (Valid, st')"
    | nid p r where "verify_and_consume now nid p (get_challenge_store s) = (Invalid r, st')" by (metis verdict.exhaust)
  then show "\<exists>h'. store_reach (replay_cache_size (p2p_cfg (api_settings s))) 60 h' st'"
    using h store_reach.consume [OF h] store_reach.refuse [OF h] by cases blast+
qed

lemma issue_challenge_wf:
  assumes "issue_challenge out cl fresh nid s = (r, s')" "api_wf s"
  shows "api_wf s' \<and> answered r"
  using assms(1) unfolding issue_challenge_def
proof (cases rule: limited_cases)
  case (refused e)
  have "rate_key (PStr nid) cl = Inl x \<Longrightarrow> False" for x by (simp add: rate_key_def split: if_splits)
  then have "answered (Inl e :: api_error + peer_challenge_response)"
    using refused(1) by (auto simp: enforce_rate_limit_def answered_def Let_def split: sum.splits prod.splits if_splits)
  then show ?thesis using refused enforce_wf assms(2) by blast
next
  case (passed s1)
  have wf: "api_wf s1" using enforce_wf passed(1) assms(2) by blast
  from issue_wf [OF wf refl, of "o_time out" fresh nid] passed(3) show ?thesis
    by (auto simp: Let_def answered_def)
qed

lemma authenticate_peer_wf:
  assumes "authenticate_peer C out cl env s = (r, s')" "api_wf s"
  shows "api_wf s'"
  using assms(1) unfolding authenticate_peer_def
proof (rule limited_wf [OF _ assms(2)], goal_cases)
  case (1 s1)
  obtain v st where v: "verify_handshake_envelope C (PDict env) (nn_auth_context (api_node s1)) (o_time out)
      (get_challenge_store s1) = (v, st)" by fastforce
  have "api_wf (s1\<lparr>api_challenge_store := Some st\<rparr>)" by (rule verify_handshake_wf [OF 1(1) v])
  moreover have "api_wf (s1\<lparr>api_challenge_store := Some st, api_node := n\<rparr>) = api_wf (s1\<lparr>api_challenge_store := Some st\<rparr>)" for n
    by (rule api_wf_node)
  ultimately show ?case using 1(2) v
    by (auto simp: Let_def split: sum.splits verdict.splits)
qed

lemma route_wf:
  assumes wf: "api_wf s"
  shows "network_status out cl s = (r1, s') \<Longrightarrow> api_wf s'" "list_known_peers out cl s = (r2, s') \<Longrightarrow> api_wf s'"
    "network_chain len out cl s = (r3, s') \<Longrightarrow> api_wf s'" "register_peer out cl rp s = (r4, s') \<Longrightarrow> api_wf s'"
    "trigger_sync C out cl sp s = (r5, s') \<Longrightarrow> api_wf s'" "receive_block_route C out cl bp s = (r6, s') \<Longrightarrow> api_wf s'"
    "receive_transaction_route C out cl tp s = (r7, s') \<Longrightarrow> api_wf s'"
  unfolding network_status_def list_known_peers_def network_chain_def register_peer_def trigger_sync_def
    receive_block_route_def receive_transaction_route_def
  by (erule limited_wf [OF _ wf]; auto simp: Let_def split: sum.splits prod.splits option.splits verdict.splits if_splits)+

lemma api_wf_blockchain [simp]: "api_wf (set_blockchain bc s) = api_wf s"
  by (simp add: set_blockchain_def)

lemma api_step_wf: "api_step C U s e s' \<Longrightarrow> api_wf s \<Longrightarrow> api_wf s'"
proof (induction rule: api_step.induct)
  case (submit out sb s sbr s')
  then show ?case by (auto simp: submit_transaction_route_def Let_def split: sum.splits prod.splits if_splits)
next
  case (mine out mp s mr s')
  then show ?case
    by (auto simp: mine_route_def Let_def split: sum.splits prod.splits if_splits py_error.splits)
next
  case stop
  then show ?case by (simp add: lifespan_stop_def)
next
  case (maintain out s)
  then show ?case by simp
next
  case (challenge out cl fresh nid s c s')
  then show ?case using issue_challenge_wf by blast
next
  case (authenticate out cl env s a s')
  then show ?case by (rule authenticate_peer_wf)
qed (rule route_wf, assumption, assumption)+

lemma lifespan_start_wf:
  "lifespan_start C out new_id fresh cfg st = Inr s0 \<Longrightarrow> 0 \<le> rate_limit_max_keys (p2p_cfg cfg) \<Longrightarrow> api_wf s0"
  by (auto simp: lifespan_start_def api_wf_def dict_invar_def get_challenge_store_def intro!: exI store_reach.start split: sum.splits)

text \<open>C29: The shared objects keep their types through any run.  Every rate limiter of the application is that of
  one of the three tiers, with the limit, the window and the key capacity of the configuration, and holds at most
  that many keys, each once; the challenge store is one the store's operations can reach with the configured
  capacity and a time to live of 60 seconds, so that issuing a challenge never raises.\<close>
theorem shared_objects_well_formed:
  assumes "lifespan_start C out new_id fresh cfg st = Inr s0" "0 \<le> rate_limit_max_keys (p2p_cfg cfg)"
    and "api_run C U s0 authenticated s"
  shows "api_wf s \<and> answered (fst (issue_challenge out' cl fresh' nid s))"
proof -
  have "api_run C U s1 es s2 \<Longrightarrow> api_wf s1 \<Longrightarrow> api_wf s2" for s1 es s2
    by (induction rule: api_run.induct) (auto intro: api_step_wf)
  then have "api_wf s" using lifespan_start_wf assms by blast
  with issue_challenge_wf [OF prod.collapse [symmetric]] show ?thesis by blast
qed

theorem shared_objects_well_formed_witness:
  "api_wf (lifespan_stop sample_api)"
proof -
  have run: "api_run sample_crypto {} sample_api [] (lifespan_stop sample_api)"
    using api_run.more [OF api_run.none api_step.stop, of sample_crypto "{}" sample_api] by simp
  have "0 \<le> rate_limit_max_keys (p2p_cfg sample_settings)" by (simp add: sample_settings_def default_p2p_def)
  from shared_objects_well_formed [OF sample_api_start(1) this run] show ?thesis by blast
qed

section \<open>The handshake from both sides\<close>

lemma issue_stores:
  assumes "issue now fresh nid st = Inr (c, st')" "int (length (challenge_order st)) < challenge_max_size st"
  shows "c = fresh" "map_of (challenges st') nid = Some (fresh, now)" "challenge_ttl_seconds st' = challenge_ttl_seconds st"
  using assms length_remove1 [of nid "challenge_order st"]
  by (auto simp: issue_def Let_def split: if_splits)

lemma verify_and_consume_stored:
  "map_of (challenges st) nid = Some (c, t) \<Longrightarrow> now - t \<le> challenge_ttl_seconds st \<Longrightarrow>
   \<exists>st'. verify_and_consume now nid (PStr c) st = (Valid, st')"
  by (simp add: verify_and_consume_def)

lemma api_wf_capacity:
  "api_wf s \<Longrightarrow> challenge_max_size (get_challenge_store s) = replay_cache_size (p2p_cfg (api_settings s)) \<and>
    challenge_ttl_seconds (get_challenge_store s) = 60"
  using store_reach_invar by (fastforce simp: api_wf_def store_invar_def)

lemma challenge_then_authenticate:
  assumes crypto: "crypto_correct C" "genuine C (ctx_identity ctx)" "ident_node_id (ctx_identity ctx) \<noteq> []"
    and net: "ctx_network_name (nn_auth_context (api_node s)) = ctx_network_name ctx"
      "ctx_genesis_hash (nn_auth_context (api_node s)) = ctx_genesis_hash ctx"
    and wf: "api_wf s"
    and room: "int (length (challenge_order (get_challenge_store s))) < replay_cache_size (p2p_cfg (api_settings s))"
    and ch: "issue_challenge out cl fresh (ident_node_id (ctx_identity ctx)) s = (Inr resp, s1)"
    and time: "o_time out' - o_time out \<le> 60"
    and rate: "fst (enforce_rate_limit (o_time out') cl' Moderate (PStr (ident_node_id (ctx_identity ctx))) s1) = Inr ()"
    and addr: "validate_peer_address (o_dns out') (PStr (ctx_advertised_address ctx))
      (allow_private_peer_addresses (p2p_cfg (nn_settings (api_node s)))) = Inr Valid"
  shows "\<exists>env r s2. build_handshake_envelope C ctx (PStr (pcr_challenge resp)) ts nce = Inr env \<and>
    authenticate_peer C out' cl' env s1 = (Inr r, s2) \<and> par_authenticated r \<and>
    env_get env ''advertised_address'' = PStr (ctx_advertised_address ctx) \<and>
    is_trusted_peer (ctx_advertised_address ctx) (api_node s2) \<and>
    stored_as (ctx_identity ctx) (ctx_advertised_address ctx) (api_node s2)"
proof -
  let ?nid = "ident_node_id (ctx_identity ctx)" and ?a = "ctx_advertised_address ctx"
  obtain s0 where s0: "only_limits s s0" and b: "(let st = get_challenge_store s0 in
      case issue (o_time out) fresh ?nid st of
        Inl e \<Rightarrow> (Inl (Unhandled e), s0\<lparr>api_challenge_store := Some st\<rparr>)
      | Inr (c, st') \<Rightarrow> (Inr \<lparr>pcr_challenge = c, pcr_expires_in_seconds = 60\<rparr>, s0\<lparr>api_challenge_store := Some st'\<rparr>)) = (Inr resp, s1)"
    using ch unfolding issue_challenge_def by (cases rule: limited_cases) auto
  note eq = only_limits_simps [OF s0]
  from b obtain c st' where i: "issue (o_time out) fresh ?nid (get_challenge_store s) = Inr (c, st')"
    and resp: "pcr_challenge resp = c" and s1: "s1 = s0\<lparr>api_challenge_store := Some st'\<rparr>"
    by (auto simp: eq Let_def split: sum.splits prod.splits)
  note cap = api_wf_capacity [OF wf]
  note st = issue_stores [OF i] room cap
  have m: "map_of (challenges st') ?nid = Some (fresh, o_time out)" "challenge_ttl_seconds st' = 60" "c = fresh"
    using st by simp_all
  obtain st2 where v: "verify_and_consume (o_time out') ?nid (PStr fresh) st' = (Valid, st2)"
    using verify_and_consume_stored [OF m(1), of "o_time out'"] time m(2) by auto
  obtain env where env: "build_handshake_envelope C ctx (PStr fresh) ts nce = Inr env"
    "verify_handshake_envelope C (PDict env) (nn_auth_context (api_node s)) (o_time out') st' = (Inr Valid, st2)"
    "env_get env ''node_id'' = PStr ?nid" "env_get env ''public_key'' = PStr (ident_public_key_hex (ctx_identity ctx))"
    "env_get env ''advertised_address'' = PStr ?a"
    using handshake_verifies [OF crypto net v] by blast
  obtain s1' where e: "enforce_rate_limit (o_time out') cl' Moderate (PStr ?nid) s1 = (Inr (), s1')"
    using rate by (metis eq_fst_iff)
  note eq1 = only_limits_simps [OF enforce_only_limits [OF e]]
  have n: "api_node s1' = api_node s" "get_challenge_store s1' = st'" using eq1 s1 eq by simp_all
  let ?s2 = "s1'\<lparr>api_challenge_store := Some st2, api_node := grant_trust out' ?a env (api_node s)\<rparr>"
  have "\<exists>r. authenticate_peer C out' cl' env s1 = (Inr r, ?s2) \<and> par_authenticated r"
    by (simp add: authenticate_peer_def limited_def env(3,5) e n env(2) addr Let_def)
  moreover have "stored_as (ctx_identity ctx) ?a (api_node ?s2)" "is_trusted_peer ?a (api_node ?s2)"
    using grant_trust_credential [of ?a out' env "api_node s"] env(3,4)
    by (simp_all add: stored_as_def is_trusted_peer_def is_peer_trusted_def)
  ultimately show ?thesis using env(1,5) resp m(3) by blast
qed

definition honest_ctx :: auth_context where
  "honest_ctx = AuthContext (ctx_identity sample_peer_ctx) (ctx_network_name (nn_auth_context (api_node sample_api)))
     (ctx_genesis_hash (nn_auth_context (api_node sample_api))) far_peer"

lemma sample_api_state:
  "api_settings sample_api = sample_settings" "api_rate_limiters sample_api = []"
  "api_challenge_store sample_api = None" "nn_settings (api_node sample_api) = sample_settings"
proof -
  obtain bc where bc: "Blockchain_init \<lfloor>o_time sample_out\<rfloor> sample_settings empty_storage = Inr bc"
    using sample_api_start(1) by (auto simp: lifespan_start_def split: sum.splits)
  show "api_settings sample_api = sample_settings" "api_rate_limiters sample_api = []"
    "api_challenge_store sample_api = None"
    by (simp_all add: sample_api_def lifespan_start_def bc)
  have "peer_only (NetworkNode sample_out ''self'' (''k'', ''pk'') sample_settings bc) (api_node sample_api)"
    by (simp add: sample_api_def lifespan_start_def bc start_frame)
  then show "nn_settings (api_node sample_api) = sample_settings"
    using NetworkNode_facts(3) unfolding peer_only_def by metis
qed

lemma sample_limits:
  "replay_cache_size (p2p_cfg sample_settings) = 10000" "rate_limit_requests (p2p_cfg sample_settings) = 60"
  "rate_limit_window_seconds (p2p_cfg sample_settings) = 60" "rate_limit_max_keys (p2p_cfg sample_settings) = 10000"
  "allow_private_peer_addresses (p2p_cfg sample_settings) = True"
  by (simp_all add: sample_settings_def default_p2p_def)

lemma sample_api_wf: "api_wf sample_api"
  by (rule lifespan_start_wf [OF sample_api_start(1)]) (simp add: sample_limits)

lemma sample_challenge:
  "\<exists>resp s1. issue_challenge sample_out None ''c1'' ''node'' sample_api = (Inr resp, s1) \<and>
     fst (enforce_rate_limit (o_time sample_out) None Moderate (PStr ''node'') s1) = Inr ()"
  by (simp add: issue_challenge_def limited_def enforce_rate_limit_def rate_key_def get_rate_limiter_def
      set_rate_limiter_def sample_api_state sample_limits PeerRateLimiter_def allow_def touch_key_def store_hits_def
      dict_pop_def get_challenge_store_def ChallengeStore_def issue_def Let_def)

lemma honest_ctx_facts:
  "ident_node_id (ctx_identity honest_ctx) = ''node''" "genuine sample_crypto (ctx_identity honest_ctx)"
  "ctx_advertised_address honest_ctx = far_peer" "ident_node_id (ctx_identity honest_ctx) \<noteq> []"
  "ctx_network_name (nn_auth_context (api_node sample_api)) = ctx_network_name honest_ctx"
  "ctx_genesis_hash (nn_auth_context (api_node sample_api)) = ctx_genesis_hash honest_ctx"
  "int (length (challenge_order (get_challenge_store sample_api))) < replay_cache_size (p2p_cfg (api_settings sample_api))"
  "o_time sample_out - o_time sample_out \<le> 60"
  "validate_peer_address (o_dns sample_out) (PStr (ctx_advertised_address honest_ctx))
     (allow_private_peer_addresses (p2p_cfg (nn_settings (api_node sample_api)))) = Inr Valid"
  using sample_peer_facts
  by (simp_all add: honest_ctx_def AuthContext_def sample_api_state sample_limits far_peer_valid
      get_challenge_store_def ChallengeStore_def)

lemma sample_authenticated:
  "\<exists>resp s1 env r s2. issue_challenge sample_out None ''c1'' ''node'' sample_api = (resp, s1) \<and>
     authenticate_peer sample_crypto sample_out None env s1 = (Inr r, s2) \<and> granted env (Inr r) = Some far_peer"
proof -
  note f = honest_ctx_facts
  obtain resp s1 where c: "issue_challenge sample_out None ''c1'' (ident_node_id (ctx_identity honest_ctx)) sample_api = (Inr resp, s1)"
    "fst (enforce_rate_limit (o_time sample_out) None Moderate (PStr (ident_node_id (ctx_identity honest_ctx))) s1) = Inr ()"
    using sample_challenge f(1) by auto
  obtain env r s2 where a: "authenticate_peer sample_crypto sample_out None env s1 = (Inr r, s2)" "par_authenticated r"
    "env_get env ''advertised_address'' = PStr (ctx_advertised_address honest_ctx)"
    using challenge_then_authenticate [OF sample_crypto_correct f(2,4-6) sample_api_wf f(7) c(1) f(8) c(2) f(9)] by blast
  have "granted env (Inr r) = Some far_peer" using a(2,3) f(3) by (simp add: granted_def)
  with a(1) c(1) f(1) show ?thesis by auto
qed

text \<open>C12: An honest peer becomes trusted.  A node with a genuine identity asks for a challenge and answers it with the
  envelope \<open>build_handshake_envelope\<close> makes; with a correct ECDSA, the same network name and genesis hash on both sides, room in
  the challenge store, at most 60 seconds in between, a request within the rate limit and an acceptable address, the
  answer is success and the address it advertises is trusted under its identity.\<close>
theorem honest_handshake_grants_trust:
  assumes crypto: "crypto_correct C" "genuine C (ctx_identity ctx)" "ident_node_id (ctx_identity ctx) \<noteq> []"
    and net: "ctx_network_name (nn_auth_context (api_node s)) = ctx_network_name ctx"
      "ctx_genesis_hash (nn_auth_context (api_node s)) = ctx_genesis_hash ctx"
    and wf: "api_wf s"
    and room: "int (length (challenge_order (get_challenge_store s))) < replay_cache_size (p2p_cfg (api_settings s))"
    and ch: "issue_challenge out cl fresh (ident_node_id (ctx_identity ctx)) s = (Inr resp, s1)"
    and time: "o_time out' - o_time out \<le> 60"
    and rate: "fst (enforce_rate_limit (o_time out') cl' Moderate (PStr (ident_node_id (ctx_identity ctx))) s1) = Inr ()"
    and addr: "validate_peer_address (o_dns out') (PStr (ctx_advertised_address ctx))
      (allow_private_peer_addresses (p2p_cfg (nn_settings (api_node s)))) = Inr Valid"
  shows "\<exists>env r s2. build_handshake_envelope C ctx (PStr (pcr_challenge resp)) ts nce = Inr env \<and>
    authenticate_peer C out' cl' env s1 = (Inr r, s2) \<and> par_authenticated r \<and>
    is_trusted_peer (ctx_advertised_address ctx) (api_node s2) \<and>
    stored_as (ctx_identity ctx) (ctx_advertised_address ctx) (api_node s2)"
  using challenge_then_authenticate [OF assms] by blast

theorem honest_handshake_grants_trust_witness:
  "\<exists>resp s1 env r s2. issue_challenge sample_out None ''c1'' ''node'' sample_api = (Inr resp, s1) \<and>
     build_handshake_envelope sample_crypto honest_ctx (PStr (pcr_challenge resp)) (o_stamp sample_out) ''ab'' = Inr env \<and>
     authenticate_peer sample_crypto sample_out None env s1 = (Inr r, s2) \<and> is_trusted_peer far_peer (api_node s2)"
proof -
  note f = honest_ctx_facts
  obtain resp s1 where c: "issue_challenge sample_out None ''c1'' (ident_node_id (ctx_identity honest_ctx)) sample_api = (Inr resp, s1)"
    "fst (enforce_rate_limit (o_time sample_out) None Moderate (PStr (ident_node_id (ctx_identity honest_ctx))) s1) = Inr ()"
    using sample_challenge f(1) by auto
  from honest_handshake_grants_trust [OF sample_crypto_correct f(2,4-6) sample_api_wf f(7) c(1) f(8) c(2) f(9)] c(1) f(1,3)
  show ?thesis by (metis (no_types, lifting))
qed


section \<open>Addresses and their owners\<close>

text \<open>An address belongs to whoever authenticated for it last.  After a successful \<open>authenticate\<close> request, a
  request that names the advertised address passes the credential check exactly if its envelope has the node id and
  the key of that handshake: an earlier owner of the address is refused until it authenticates again.\<close>
theorem address_follows_last_handshake:
  assumes "authenticate_peer C out cl env s = (Inr r, s')" "par_authenticated r"
  shows "\<exists>a. env_get env ''advertised_address'' = PStr a \<and> is_trusted_peer a (api_node s') \<and>
    (\<forall>env'. check_credential (Some a) (PDict env') (api_node s') =
       (if env_get env' ''node_id'' = env_get env ''node_id'' \<and> env_get env' ''public_key'' = env_get env ''public_key''
        then Valid else Invalid IdentityMismatch))"
  using assms(1)
proof (cases rule: authenticate_peer_cases)
  case refused
  then show ?thesis using assms(2) by (simp add: granted_def)
next
  case (granted st)
  obtain nid where n: "env_get env ''node_id'' = PStr nid" "is_valid_public_key C (env_get env ''public_key'')"
    using verify_handshake_Valid [OF granted(1)] by auto
  obtain pk where pk: "env_get env ''public_key'' = PStr pk" using is_valid_public_key_str [OF n(2)] by blast
  obtain a where a: "env_get env ''advertised_address'' = PStr a" "a \<noteq> []"
    using validate_peer_address_str [OF granted(2)] granted(2) by (auto simp: validate_peer_address_def split: if_splits)
  have "get_peer_credential a (nn_storage (api_node s')) =
      Some \<lparr>cred_node_id = nid, cred_public_key_hex = pk, cred_trusted = 1, authenticated_at = o_time out\<rparr>"
    using grant_trust_credential [of a out env "api_node s"] granted(4) a(1) n(1) pk by simp
  with a n(1) pk show ?thesis by (auto simp: check_credential_def is_trusted_peer_def is_peer_trusted_def)
qed

theorem address_follows_last_handshake_witness:
  "\<exists>(s' :: api) env. check_credential (Some far_peer) (PDict []) (api_node s') = Invalid IdentityMismatch \<and>
     check_credential (Some far_peer) (PDict env) (api_node s') = Valid"
proof -
  obtain s1 env r s2 where a: "authenticate_peer sample_crypto sample_out None env s1 = (Inr r, s2)"
    "granted env (Inr r) = Some far_peer" using sample_authenticated by blast
  then have r: "par_authenticated r" by (auto simp: granted_def split: if_splits)
  obtain b where b: "env_get env ''advertised_address'' = PStr b"
    and c: "\<And>e. check_credential (Some b) (PDict e) (api_node s2) =
       (if env_get e ''node_id'' = env_get env ''node_id'' \<and> env_get e ''public_key'' = env_get env ''public_key''
        then Valid else Invalid IdentityMismatch)"
    using address_follows_last_handshake [OF a(1) r] by blast
  have "b = far_peer" using a(2) b r by (simp add: granted_def)
  moreover have "env_get env ''node_id'' \<noteq> PNone"
    using a(1) r by (elim authenticate_peer_cases) (auto simp: granted_def dest!: verify_handshake_Valid)
  ultimately show ?thesis using c [of "[]"] c [of env] by (auto simp: env_get_def)
qed

text \<open>The credential is stored under the address as it was sent, while the registry and the broadcast use the
  address without a trailing slash: a peer that authenticates with one is answered with success, but the address
  under which it is registered does not become trusted.\<close>
theorem trailing_slash_is_not_trusted:
  assumes "authenticate_peer C out cl env s = (Inr r, s')" "par_authenticated r"
    and "env_get env ''advertised_address'' = PStr a" "normalize_address a \<noteq> a"
    and "\<not> is_trusted_peer (normalize_address a) (api_node s)"
  shows "is_trusted_peer a (api_node s') \<and> \<not> is_trusted_peer (normalize_address a) (api_node s')"
  using assms(1)
proof (cases rule: authenticate_peer_cases)
  case refused
  then show ?thesis using assms(2) by (simp add: granted_def)
next
  case (granted st)
  then have "is_trusted_peer x (api_node s') \<longleftrightarrow> is_trusted_peer x (api_node s) \<or> a = x" for x
    using peer_only_trusted [OF grant_trust_frame] with_credential_trusted assms(3) by (simp add: granted(4))
  with assms(4,5) show ?thesis by metis
qed

text \<open>The result of the registration is ignored, and marking the peer as seen stores it all the same: a handshake
  adds a peer to a registry that has as many as it may have.\<close>
lemma full_registry_refuses:
  assumes "get_peer (normalize_address a) st = None" "reg_max_peers reg \<le> peer_count st"
  shows "snd (register now (PStr a) node_id reg st) = (reg, st)"
  using assms by (simp add: register_def Let_def)

lemma with_peers_storage [simp]: "nn_storage (with_peers (reg, st) n) = st"
  by (simp add: with_peers_def nn_storage_def)

lemma grant_trust_adds_peer:
  assumes "get_peer (normalize_address a) (nn_storage n) = None" "reg_max_peers (nn_peers n) \<le> peer_count (nn_storage n)"
  shows "peer_count (nn_storage (grant_trust out a env n)) = peer_count (nn_storage n) + 1"
proof -
  define st where "st = upsert_peer_credential (o_time out) a (str_of (env_get env ''node_id''))
    (str_of (env_get env ''public_key'')) True (nn_storage n)"
  define n1 where "n1 = n\<lparr>nn_blockchain := (nn_blockchain n)\<lparr>bc_storage := st\<rparr>\<rparr>"
  have st: "peers_table st = peers_table (nn_storage n)" by (simp add: st_def upsert_peer_credential_def)
  have n1: "nn_storage n1 = st" "nn_peers n1 = nn_peers n" by (simp_all add: n1_def nn_storage_def)
  have "snd (register (o_time out) (PStr a) i (nn_peers n) st) = (nn_peers n, st)" for i
    by (rule full_registry_refuses) (use assms st in \<open>simp_all add: get_peer_def peer_count_def\<close>)
  then have "nn_storage (snd (node_register out (PStr a) i n1)) = st" for i
    by (simp add: node_register_def case_prod_unfold n1)
  moreover have "nn_storage (node_mark_seen out a ''online'' i m) =
      upsert_peer (o_time out) (normalize_address a) i ''online'' (Some (o_time out)) (nn_storage m)" for i m
    by (simp add: node_mark_seen_def mark_seen_def Let_def)
  moreover have "normalize_address a \<notin> fst ` set (peers_table st)"
    using assms(1) by (simp add: get_peer_def st map_of_eq_None_iff)
  ultimately show ?thesis
    by (simp add: grant_trust_def Let_def st_def [symmetric] n1_def [symmetric] upsert_peer_def map_of_eq_None_iff
        dict_set_new peer_count_def st split: option.splits)
qed

text \<open>A peer that authenticates is stored even when the registry is full.\<close>
theorem handshake_exceeds_peer_limit:
  assumes "authenticate_peer C out cl env s = (Inr r, s')" "par_authenticated r"
    and "env_get env ''advertised_address'' = PStr a"
    and "get_peer (normalize_address a) (nn_storage (api_node s)) = None"
    and "reg_max_peers (nn_peers (api_node s)) \<le> peer_count (nn_storage (api_node s))"
  shows "peer_count (nn_storage (api_node s')) = peer_count (nn_storage (api_node s)) + 1"
  using assms(1)
proof (cases rule: authenticate_peer_cases)
  case refused
  then show ?thesis using assms(2) by (simp add: granted_def)
next
  case (granted st)
  then show ?thesis using grant_trust_adds_peer [OF assms(4,5)] assms(3) by simp
qed

text \<open>No request has the field that the check of the message type reads: it accepts every request.\<close>
lemma message_type_never_refused:
  "validate_message_type (dump_block_request p) t = None" "validate_message_type (dump_transaction_request q) t = None"
  by (simp_all add: validate_message_type_def dump_block_request_def dump_transaction_request_def env_get_def)

section \<open>Synchronisation on request\<close>

lemma authenticate_request_node:
  "authenticate_request C out e p claimed n = (v, n1) \<Longrightarrow> \<exists>c. n1 = n\<lparr>nn_replay_cache := c\<rparr>"
proof -
  have self: "\<exists>c. n = n\<lparr>nn_replay_cache := c\<rparr>" by (rule exI [of _ "nn_replay_cache n"]) simp
  show "authenticate_request C out e p claimed n = (v, n1) \<Longrightarrow> ?thesis"
    using self by (auto simp: authenticate_request_def split: option.splits prod.splits sum.splits verdict.splits)
qed


lemma unadvertised_sync:
  assumes "crypto_correct C" "genuine C (ctx_identity ctx)" "ident_node_id (ctx_identity ctx) \<noteq> []"
    and "ctx_network_name (nn_auth_context (api_node s)) = ctx_network_name ctx"
    and "ctx_genesis_hash (nn_auth_context (api_node s)) = ctx_genesis_hash ctx"
    and "py_float ts = Inr (Finite t)" "\<bar>o_time out - t\<bar> \<le> freshness_window (api_node s)" "nce \<noteq> []"
    and "\<not> bs_contains (replay_key (ident_node_id (ctx_identity ctx)) nce) (nn_replay_cache (api_node s))"
    and "ctx_advertised_address ctx = []"
    and "fst (enforce_rate_limit (o_time out) cl Expensive (PStr (ident_node_id (ctx_identity ctx))) s) = Inr ()"
  shows "\<exists>env c. build_auth_envelope C ctx (Some [(''peer_address'', PNone)]) ts nce = Inr env \<and>
    fst (trigger_sync C out cl \<lparr>srq_peer_address = None, srq_auth = Some env\<rparr> s) =
      answer (map_sum id (\<lambda>xs. \<lparr>syr_results = xs\<rparr>)
        (fst (sync_with_all_peers C out ((api_node s)\<lparr>nn_replay_cache := c\<rparr>))))"
proof -
  let ?nid = "ident_node_id (ctx_identity ctx)" and ?p = "Some [(''peer_address'', PNone)]"
  obtain sig where b: "build_auth_envelope C ctx ?p ts nce =
      Inr (dict_set ''signature'' (PStr sig) (unsigned_envelope ctx ts nce))"
    using build_auth_envelope_genuine [OF assms(1,2)] by blast
  define env where "env = dict_set ''signature'' (PStr sig) (unsigned_envelope ctx ts nce)"
  have g: "env_get env ''node_id'' = PStr ?nid" "env_get env ''advertised_address'' = PStr []"
    using assms(10) by (simp_all add: env_def env_get_def unsigned_envelope_def)
  have au: "authenticate_request C out (Some (PDict env)) ?p None (api_node s) =
      (Inr Valid, (api_node s)\<lparr>nn_replay_cache := bs_add (replay_key ?nid nce) (nn_replay_cache (api_node s))\<rparr>)"
    using built_envelope_authenticates [OF assms(1-9), of ?p None] b by (simp add: env_def check_credential_def)
  obtain s1 where e: "enforce_rate_limit (o_time out) cl Expensive (PStr ?nid) s = (Inr (), s1)"
    using assms(11) by (metis eq_fst_iff)
  note n = only_limits_simps(1) [OF enforce_only_limits [OF e]]
  have "fst (trigger_sync C out cl \<lparr>srq_peer_address = None, srq_auth = Some env\<rparr> s) =
      answer (map_sum id (\<lambda>xs. \<lparr>syr_results = xs\<rparr>) (fst (sync_with_all_peers C out
        ((api_node s)\<lparr>nn_replay_cache := bs_add (replay_key ?nid nce) (nn_replay_cache (api_node s))\<rparr>))))"
    by (simp add: trigger_sync_def limited_def auth_hint_def g e claimed_of_def au n case_prod_unfold)
  with b show ?thesis unfolding env_def by blast
qed

text \<open>The endpoint asks for a peer this node already trusts, but an envelope with an empty advertised address
  claims no address, so the stored credentials are not consulted: a genuine identity that never authenticated, within its rate
  limit, makes the node synchronise with all of its peers.\<close>
theorem unadvertised_caller_triggers_sync:
  assumes "crypto_correct C" "genuine C (ctx_identity ctx)" "ident_node_id (ctx_identity ctx) \<noteq> []"
    and "ctx_network_name (nn_auth_context (api_node s)) = ctx_network_name ctx"
    and "ctx_genesis_hash (nn_auth_context (api_node s)) = ctx_genesis_hash ctx"
    and "py_float ts = Inr (Finite t)" "\<bar>o_time out - t\<bar> \<le> freshness_window (api_node s)" "nce \<noteq> []"
    and "\<not> bs_contains (replay_key (ident_node_id (ctx_identity ctx)) nce) (nn_replay_cache (api_node s))"
    and "ctx_advertised_address ctx = []"
    and "fst (enforce_rate_limit (o_time out) cl Expensive (PStr (ident_node_id (ctx_identity ctx))) s) = Inr ()"
  shows "\<exists>env c. build_auth_envelope C ctx (Some [(''peer_address'', PNone)]) ts nce = Inr env \<and>
    fst (trigger_sync C out cl \<lparr>srq_peer_address = None, srq_auth = Some env\<rparr> s) =
      answer (map_sum id (\<lambda>xs. \<lparr>syr_results = xs\<rparr>)
        (fst (sync_with_all_peers C out ((api_node s)\<lparr>nn_replay_cache := c\<rparr>))))"
  using unadvertised_sync [OF assms] by blast

definition quiet_api :: api where
  "quiet_api = sample_api\<lparr>api_node := with_peers (PeerRegistry ''http://a:1'' ''self'' 5,
     (nn_storage sample_net)\<lparr>peers_table := []\<rparr>) sample_net\<rparr>"

definition silent_ctx :: auth_context where
  "silent_ctx = sample_peer_ctx\<lparr>ctx_advertised_address := []\<rparr>"

lemma quiet_conditions:
  "genuine sample_crypto (ctx_identity silent_ctx)" "ident_node_id (ctx_identity silent_ctx) \<noteq> []"
  "ctx_network_name (nn_auth_context (api_node quiet_api)) = ctx_network_name silent_ctx"
  "ctx_genesis_hash (nn_auth_context (api_node quiet_api)) = ctx_genesis_hash silent_ctx"
  "py_float (o_stamp sample_out) = Inr (Finite (1730000000123 / 1000))"
  "\<bar>o_time sample_out - 1730000000123 / 1000\<bar> \<le> freshness_window (api_node quiet_api)" "''ab'' \<noteq> []"
  "\<not> bs_contains (replay_key (ident_node_id (ctx_identity silent_ctx)) ''ab'') (nn_replay_cache (api_node quiet_api))"
  "ctx_advertised_address silent_ctx = []"
  "fst (enforce_rate_limit (o_time sample_out) None Expensive (PStr (ident_node_id (ctx_identity silent_ctx))) quiet_api) = Inr ()"
  using sample_peer_facts sample_arrival_conditions(4,5)
  by (simp_all add: quiet_api_def silent_ctx_def with_peers_def ReplayCache_def BoundedSet_def bs_contains_def trusting_net_facts
      enforce_rate_limit_def rate_key_def get_rate_limiter_def sample_api_state sample_limits PeerRateLimiter_def allow_def
      touch_key_def Let_def)

lemma quiet_sync: "sync_with_all_peers C out ((api_node quiet_api)\<lparr>nn_replay_cache := c\<rparr>) =
  (Inr [], (api_node quiet_api)\<lparr>nn_replay_cache := c\<rparr>)"
  by (simp add: quiet_api_def with_peers_def sync_with_all_peers_def node_addresses_def addresses_def registry_peers_def
      list_peers_def nn_storage_def)

theorem unadvertised_caller_triggers_sync_witness:
  "\<exists>env. fst (trigger_sync sample_crypto sample_out None \<lparr>srq_peer_address = None, srq_auth = Some env\<rparr> quiet_api) =
     Inr \<lparr>syr_results = []\<rparr>"
  using unadvertised_caller_triggers_sync [OF sample_crypto_correct quiet_conditions]
  by (auto simp: quiet_sync answer_def)


section \<open>Errors that are not answered\<close>

text \<open>A request with an amount finer than a base unit, or beyond the range of the decimal arithmetic, is
  valid for the schema but not answered with a client error: the exception of the constructor leaves the handlers of \<open>/transaction/create\<close> and
  \<open>/transaction/submit\<close>, and nothing is submitted.\<close>
theorem fine_amount_is_unhandled:
  assumes "to_base_units (AmtDec d) = Inl e" "is_valid_address (tcr_receiver p)" "tcr_amount p = d"
    and "tsr_amount q = d" "tsr_amount_base_units q = None"
  shows "\<exists>e'. create_transaction_route now p s = (Inl (Unhandled e'), s) \<and>
    submit_transaction_route C out q s = (Inl (Unhandled e'), s)"
proof -
  have "\<exists>e'. \<forall>now sndr rcvr ts pk sig. mk_Transaction now sndr rcvr (Some (AmtDec d)) ts pk sig [] None = Inl e'"
    using assms(1) by (cases e) (simp_all add: mk_Transaction_def)
  then show ?thesis
    using assms(2-5) by (auto simp: create_transaction_route_def submit_transaction_route_def submitted_transaction_def)
qed

theorem fine_amount_is_unhandled_witness:
  "\<exists>p e. valid_create_request p \<and> create_transaction_route 0 p sample_api = (Inl (Unhandled e), sample_api)"
proof -
  let ?p = "\<lparr>tcr_sender = ''a'', tcr_receiver = sample_address, tcr_amount = Dec 1 (- 9)\<rparr>"
  let ?q = "\<lparr>tsr_sender = ''a'', tsr_receiver = sample_address, tsr_amount = Dec 1 (- 9), tsr_amount_base_units = None,
    tsr_timestamp = 0, tsr_sender_public_key = [], tsr_signature = []\<rparr>"
  have "to_base_units (AmtDec (Dec 1 (- 9))) = Inl ValueError" by code_simp
  then obtain e where e: "create_transaction_route 0 ?p sample_api = (Inl (Unhandled e), sample_api)"
    using fine_amount_is_unhandled [of "Dec 1 (- 9)" ValueError ?p ?q 0 sample_api sample_crypto sample_out] by auto
  have "not_empty ''a''" by (simp add: not_empty_def strip_by_def is_space_def)
  moreover have "not_empty sample_address"
    by (simp add: not_empty_def sample_address_def derive_address_def ADDRESS_PREFIX_def strip_by_def is_space_def)
  ultimately have "valid_create_request ?p" by (simp add: valid_create_request_def)
  with e show ?thesis by blast
qed

section \<open>Propagation after local work\<close>

lemma submit_route_local:
  "submit_transaction_route C out p s = (r, s') \<Longrightarrow>
   (case submitted_transaction \<lfloor>o_time out\<rfloor> p of
      Inl e \<Rightarrow> r = Inl (Unhandled e) \<and> s' = s
    | Inr tx \<Rightarrow>
        (case submit_transaction C tx (get_blockchain s) of
           (v, bc) \<Rightarrow>
             r = Inr \<lparr>tsp_accepted = (v = Valid), tsp_tx_hash = (if v = Valid then Some (tx_hash tx) else None),
                      tsp_reason = reason_of v\<rparr> \<and> core_view (get_blockchain s') = core_view bc))"
  using broadcast_transaction_frame [OF prod.collapse [symmetric]]
  by (auto simp: submit_transaction_route_def get_blockchain_def Let_def peer_only_def split: sum.splits prod.splits if_splits)

lemma mine_route_local:
  assumes "mine_route C out p s = (r, s')" "is_valid_address (mrq_miner_address p)"
    and m: "mine_pending_transactions C \<lfloor>o_time out\<rfloor> (mrq_miner_address p) (get_blockchain s) = (Inr b, bc)"
  shows "core_view (get_blockchain s') = core_view bc" "r = answer (map_sum id
    (\<lambda>o'. \<lparr>mrp_block = o', mrp_message = ''Block mined and appended to the chain.''\<rparr>) (block_to_out b))"
proof -
  have "peer_only n (snd (broadcast_block C out b None n))" for n
    by (rule broadcast_block_frame [OF prod.collapse [symmetric]])
  with assms show "core_view (get_blockchain s') = core_view bc" "r = answer (map_sum id
    (\<lambda>o'. \<lparr>mrp_block = o', mrp_message = ''Block mined and appended to the chain.''\<rparr>) (block_to_out b))"
    by (auto simp: mine_route_def Let_def peer_only_def get_blockchain_def)
qed

text \<open>C28: Propagation is best effort: whatever the peers answer or fail to answer, a submission and a mining request
  get the same response, and leave the same chain, balances and pool.\<close>
theorem propagation_is_best_effort:
  "fst (submit_transaction_route C (out\<lparr>o_http := h\<rparr>) p s) = fst (submit_transaction_route C out p s) \<and>
   core_view (get_blockchain (snd (submit_transaction_route C (out\<lparr>o_http := h\<rparr>) p s))) =
     core_view (get_blockchain (snd (submit_transaction_route C out p s))) \<and>
   fst (mine_route C (out\<lparr>o_http := h\<rparr>) q s) = fst (mine_route C out q s) \<and>
   core_view (get_blockchain (snd (mine_route C (out\<lparr>o_http := h\<rparr>) q s))) =
     core_view (get_blockchain (snd (mine_route C out q s)))"
proof -
  let ?out = "out\<lparr>o_http := h\<rparr>"
  have "fst (submit_transaction_route C ?out p s) = fst (submit_transaction_route C out p s) \<and>
      core_view (get_blockchain (snd (submit_transaction_route C ?out p s))) =
      core_view (get_blockchain (snd (submit_transaction_route C out p s)))"
    using submit_route_local [OF prod.collapse [symmetric], of C ?out p s]
      submit_route_local [OF prod.collapse [symmetric], of C out p s]
    by (auto split: sum.splits prod.splits)
  moreover have "fst (mine_route C ?out q s) = fst (mine_route C out q s) \<and>
      core_view (get_blockchain (snd (mine_route C ?out q s))) = core_view (get_blockchain (snd (mine_route C out q s)))"
  proof (cases "is_valid_address (mrq_miner_address q)")
    case False
    then show ?thesis by (simp add: mine_route_def)
  next
    case True
    obtain v bc where v: "mine_pending_transactions C \<lfloor>o_time out\<rfloor> (mrq_miner_address q) (get_blockchain s) = (v, bc)" by fastforce
    show ?thesis
    proof (cases v)
      case (Inl e)
      with True v show ?thesis by (cases e) (simp_all add: mine_route_def)
    next
      case (Inr b)
      note l = mine_route_local [OF prod.collapse [symmetric] True]
      show ?thesis using l [of C out s b bc] l [of C ?out s b bc] v Inr by simp
    qed
  qed
  ultimately show ?thesis by blast
qed

end
