(* ===== verification/Process_Db.thy ===== *)
theory Process_Db
  imports Network_Properties
begin

text \<open>
  What a process finds in the database when it starts and leaves there when it ends: the tables hold a valid
  chain, a process loads it, and whatever it then does to its chain is in the tables again.  Shared by the command
  line and the server, which run as separate processes on one database.
\<close>

section \<open>The database between two processes\<close>

text \<open>The tables hold a chain that validates and whose genesis block moves no money.\<close>

definition db_ok :: "crypto \<Rightarrow> block set \<Rightarrow> settings \<Rightarrow> storage \<Rightarrow> bool" where
  "db_ok C U cfg st \<longleftrightarrow>
     (\<exists>chain. chain \<noteq> [] \<and> storage_holds st chain \<and> index (hd chain) = 0 \<and> set chain \<subseteq> U \<and>
        (\<forall>a. txs_delta a (transactions (hd chain)) = 0) \<and>
        validate_chain C ProofOfWorkConsensus (consensus_cfg cfg) (block_reward (mining_cfg cfg)) MAX_SUPPLY_BASE_UNITS
          chain = Inr Valid)"

definition cfg_ok :: "settings \<Rightarrow> bool" where
  "cfg_ok cfg \<longleftrightarrow>
     algorithm (consensus_cfg cfg) = ''pow'' \<and> is_float (gen_timestamp (genesis_cfg cfg)) \<and>
     max_supply_base_units (native_asset_cfg cfg) = MAX_SUPPLY_BASE_UNITS"

text \<open>What a process has in memory; its genesis block is the one in the tables.\<close>

definition chain_ok :: "crypto \<Rightarrow> block set \<Rightarrow> settings \<Rightarrow> blockchain \<Rightarrow> bool" where
  "chain_ok C U cfg bc \<longleftrightarrow>
     node_ok C bc \<and> bc_consensus bc = ProofOfWorkConsensus \<and> bc_settings bc = cfg \<and> set (bc_chain bc) \<subseteq> U \<and>
     stored_with bc (hd (bc_chain bc))"

lemma chain_ok_net: "chain_ok C U cfg (nn_blockchain n) \<Longrightarrow> cfg_ok cfg \<Longrightarrow> net_ok C U n"
  by (simp add: chain_ok_def net_ok_def max_supply_of_def cfg_ok_def)

lemma max_supply_nonneg: "0 \<le> MAX_SUPPLY_BASE_UNITS"
  by (simp add: MAX_SUPPLY_BASE_UNITS_def MAX_SUPPLY_SYJ_def BASE_UNITS_PER_SYJ_def)

lemma reload_db:
  assumes "db_ok C U cfg st" "cfg_ok cfg"
  shows "\<exists>bc. Blockchain_init now cfg st = Inr bc \<and> chain_ok C U cfg bc \<and> bc_mempool bc = [] \<and> bc_storage bc = st"
proof -
  obtain chain where c: "chain \<noteq> []" "storage_holds st chain" "index (hd chain) = 0" "set chain \<subseteq> U"
    "\<forall>a. txs_delta a (transactions (hd chain)) = 0"
    "validate_chain C ProofOfWorkConsensus (consensus_cfg cfg) (block_reward (mining_cfg cfg)) MAX_SUPPLY_BASE_UNITS
      chain = Inr Valid"
    using assms(1) by (auto simp: db_ok_def)
  have "index (chain ! i) = int i" if "i < length chain" for i
    using valid_chain_index [OF c(6) max_supply_nonneg that] c(1,3) by (simp add: hd_conv_nth)
  then have l: "load_chain now st = Inr chain" using load_chain_holds [OF c(2)] indexed_split(3) by blast
  let ?bc = "\<lparr>bc_settings = cfg, bc_storage = st, bc_consensus = ProofOfWorkConsensus, bc_mempool = Mempool_new,
    bc_miner = \<lparr>miner_consensus = ProofOfWorkConsensus, miner_block_reward = block_reward (mining_cfg cfg)\<rparr>, bc_chain = chain\<rparr>"
  have "Blockchain_init now cfg st = Inr ?bc"
    using assms(2) l c(1) by (simp add: Blockchain_init_def cfg_ok_def get_consensus_engine_def)
  moreover have "stored_with ?bc (hd chain)" using c(1-3,5) by (simp add: stored_with_def)
  moreover from this have "node_ok C ?bc"
    using c(3,6) assms(2) max_supply_nonneg
    by (auto simp: node_ok_def is_chain_valid_def bc_validate_chain_def reward_of_def max_supply_of_def cfg_ok_def
        Mempool_new_def mempool_invar_def dict_invar_def)
  ultimately show ?thesis using c(4) by (simp add: Mempool_new_def chain_ok_def)
qed

lemma chain_ok_db: "chain_ok C U cfg bc \<Longrightarrow> cfg_ok cfg \<Longrightarrow> db_ok C U cfg (bc_storage bc)"
proof -
  assume m: "chain_ok C U cfg bc" and cfg: "cfg_ok cfg"
  have ok: "node_ok C bc" using m by (simp add: chain_ok_def)
  note c = node_ok_chain [OF ok]
  have "hd (bc_chain bc) # tl (bc_chain bc) = bc_chain bc" using c(3) by simp
  then have "storage_holds (bc_storage bc) (bc_chain bc)" "\<forall>a. txs_delta a (transactions (hd (bc_chain bc))) = 0"
    using m by (auto simp: chain_ok_def stored_with_def)
  moreover have "max_supply_of bc = MAX_SUPPLY_BASE_UNITS" "reward_of bc = block_reward (mining_cfg cfg)"
    "bc_consensus bc = ProofOfWorkConsensus" "consensus_cfg (bc_settings bc) = consensus_cfg cfg"
    using m cfg by (simp_all add: chain_ok_def reward_of_def max_supply_of_def cfg_ok_def)
  ultimately show ?thesis
    unfolding db_ok_def using c m by (intro exI [of _ "bc_chain bc"]) (auto simp: chain_ok_def)
qed

text \<open>Two genesis blocks in play with one hash are the same block, so what keeps the hash keeps the block.\<close>
lemma chain_ok_kept:
  assumes m: "chain_ok C U cfg bc" and n: "net_ok C U n'" and U: "inj_on block_hash U"
    and g: "block_hash (genesis_block (nn_blockchain n')) = block_hash (genesis_block bc)"
    and s: "bc_settings (nn_blockchain n') = bc_settings bc" "\<And>g. stored_with bc g \<Longrightarrow> stored_with (nn_blockchain n') g"
  shows "chain_ok C U cfg (nn_blockchain n')"
proof -
  have ok: "node_ok C bc" "node_ok C (nn_blockchain n')"
    using m n by (auto simp: chain_ok_def net_ok_def)
  have "hd (bc_chain (nn_blockchain n')) \<in> U" "hd (bc_chain bc) \<in> U"
    using m n node_ok_chain(3) [OF ok(1)] node_ok_chain(3) [OF ok(2)] by (auto simp: chain_ok_def net_ok_def)
  then have "hd (bc_chain (nn_blockchain n')) = hd (bc_chain bc)"
    using inj_onD [OF U] g unfolding genesis_block_def by blast
  with m n s show ?thesis by (simp add: chain_ok_def net_ok_def)
qed

lemma chain_ok_progress:
  assumes "chain_ok C U cfg (nn_blockchain n)" "progress C U n n'" "inj_on block_hash U"
  shows "chain_ok C U cfg (nn_blockchain n')"
  using assms(2) by (intro chain_ok_kept [OF assms(1) _ assms(3)]) (simp_all add: progress_def)

lemma chain_ok_core: "chain_ok C U cfg (core_view bc) \<longleftrightarrow> chain_ok C U cfg bc"
  by (simp add: chain_ok_def node_ok_core stored_with_core)

lemma chain_ok_peer_only: "chain_ok C U cfg (nn_blockchain n) \<Longrightarrow> peer_only n n' \<Longrightarrow> chain_ok C U cfg (nn_blockchain n')"
  using chain_ok_core unfolding peer_only_def by metis

lemma chain_ok_commit:
  assumes "chain_ok C U cfg bc" "commit_block C (b, hs) bc = (Inr b', bc')" "wire_block b" "b \<in> U"
  shows "chain_ok C U cfg bc'"
  using assms(2)
proof (cases rule: commit_block_cases)
  case (saved st)
  have ok: "node_ok C bc" using assms(1) by (simp add: chain_ok_def)
  have "hd (bc_chain bc') = hd (bc_chain bc)" using node_ok_chain(3) [OF ok] by (simp add: saved(4))
  moreover have "stored_with bc' (hd (bc_chain bc))"
    using stored_with_commit [OF ok assms(2,3)] assms(1) by (simp add: chain_ok_def)
  ultimately show ?thesis
    using assms(1,4) node_ok_commit [OF ok assms(2,3)] by (simp add: chain_ok_def) (simp add: saved(4))
qed simp_all

lemma chain_ok_submit:
  assumes "chain_ok C U cfg bc" "submit_transaction C tx bc = (v, bc')" "wire_tx tx"
  shows "chain_ok C U cfg bc' \<and> bc_storage bc' = bc_storage bc"
proof -
  have "\<exists>m. bc' = bc\<lparr>bc_mempool := m\<rparr>"
  proof (cases rule: submit_transaction_cases [OF assms(2)])
    case (1 r)
    then have "bc' = bc\<lparr>bc_mempool := bc_mempool bc\<rparr>" by simp
    then show ?thesis ..
  qed blast
  then show ?thesis using assms(1) node_ok_submit [OF _ assms(2,3)] by (auto simp: chain_ok_def stored_with_def)
qed

text \<open>The genesis block of the configuration is in play.\<close>

definition genesis_in_play :: "block set \<Rightarrow> settings \<Rightarrow> bool" where
  "genesis_in_play U cfg \<longleftrightarrow>
     (\<forall>now. case Blockchain_init now cfg empty_storage of Inl _ \<Rightarrow> True | Inr bc \<Rightarrow> set (bc_chain bc) \<subseteq> U)"

definition session_ok :: "crypto \<Rightarrow> block set \<Rightarrow> settings \<Rightarrow> storage \<Rightarrow> bool" where
  "session_ok C U cfg st \<longleftrightarrow> st = empty_storage \<or> db_ok C U cfg st"

lemma session_load:
  assumes "session_ok C U cfg st" "cfg_ok cfg" "genesis_in_play U cfg"
  shows "\<exists>bc. Blockchain_init now cfg st = Inr bc \<and> chain_ok C U cfg bc \<and> bc_mempool bc = []"
proof (cases "st = empty_storage")
  case True
  obtain bc where bc: "Blockchain_init now cfg empty_storage = Inr bc" "node_ok C bc" "bc_consensus bc = ProofOfWorkConsensus"
    "bc_settings bc = cfg" "stored_with bc (hd (bc_chain bc))"
    using Blockchain_init_fresh [of cfg now C] assms(2) max_supply_nonneg by (auto simp: cfg_ok_def)
  moreover have "set (bc_chain bc) \<subseteq> U" using assms(3) bc(1) unfolding genesis_in_play_def by (metis sum.case(2))
  moreover have "bc_mempool bc = []"
    using bc(1) by (auto simp: Blockchain_init_def load_chain_def empty_storage_def Let_def Mempool_new_def
        create_and_persist_genesis_block_def split: sum.splits if_splits)
  ultimately show ?thesis by (simp add: True chain_ok_def)
next
  case False
  then have "db_ok C U cfg st" using assms(1) by (simp add: session_ok_def)
  from reload_db [OF this assms(2), of now] show ?thesis by blast
qed

lemma chain_ok_session: "chain_ok C U cfg bc \<Longrightarrow> cfg_ok cfg \<Longrightarrow> session_ok C U cfg (bc_storage bc)"
  by (simp add: session_ok_def chain_ok_db)

lemma node_session: "chain_ok C U cfg (nn_blockchain n) \<Longrightarrow> cfg_ok cfg \<Longrightarrow> session_ok C U cfg (nn_storage n)"
  unfolding nn_storage_def by (rule chain_ok_session)

lemma prepared_block_wire: "chain_ok C U cfg bc \<Longrightarrow> prepare_block now a bc = Inr (b, hs) \<Longrightarrow> wire_block b"
  using prepared_wire [of C bc now a b hs] by (simp add: chain_ok_def)

section \<open>From one database to the next\<close>

text \<open>The accumulated work of the stored chain.\<close>

definition stored_work :: "storage \<Rightarrow> int" where
  "stored_work st = sum_list (map (\<lambda>(i, r). 16 ^ nat (max (row_difficulty r) 0)) (blocks_table st))"

text \<open>A chain in memory that a process got to from the database \<open>st\<close>, and a database that one got to.\<close>

definition chain_from :: "crypto \<Rightarrow> block set \<Rightarrow> settings \<Rightarrow> storage \<Rightarrow> blockchain \<Rightarrow> bool" where
  "chain_from C U cfg st bc \<longleftrightarrow>
     chain_ok C U cfg bc \<and> stored_work st \<le> total_work bc \<and>
     peer_credentials_table (bc_storage bc) = peer_credentials_table st"

definition session_effect :: "crypto \<Rightarrow> block set \<Rightarrow> settings \<Rightarrow> storage \<Rightarrow> storage \<Rightarrow> bool" where
  "session_effect C U cfg st st' \<longleftrightarrow>
     session_ok C U cfg st' \<and> stored_work st \<le> stored_work st' \<and>
     peer_credentials_table st' = peer_credentials_table st"

lemma chain_from_ok: "chain_from C U cfg st bc \<Longrightarrow> chain_ok C U cfg bc"
  by (simp add: chain_from_def)

lemma session_refl: "session_ok C U cfg st \<Longrightarrow> session_effect C U cfg st st"
  by (simp add: session_effect_def)

lemma session_trans: "session_effect C U cfg a b \<Longrightarrow> session_effect C U cfg b c \<Longrightarrow> session_effect C U cfg a c"
  by (simp add: session_effect_def)

lemma stored_work_held: "storage_holds st chain \<Longrightarrow> stored_work st = chain_work chain"
  by (simp add: storage_holds_def stored_work_def chain_work_def block_entries_def row_of_def comp_def)

lemma stored_work_chain:
  assumes "chain_ok C U cfg bc"
  shows "stored_work (bc_storage bc) = total_work bc"
proof -
  have "hd (bc_chain bc) # tl (bc_chain bc) = bc_chain bc"
    using assms node_ok_chain(3) [of C bc] by (simp add: chain_ok_def)
  then show ?thesis using assms stored_work_held by (auto simp: chain_ok_def stored_with_def total_work_def)
qed

lemma chain_from_session:
  "chain_from C U cfg st bc \<Longrightarrow> cfg_ok cfg \<Longrightarrow> session_effect C U cfg st (bc_storage bc)"
  using chain_ok_session stored_work_chain by (auto simp: chain_from_def session_effect_def)

lemma chain_from_node_session:
  "chain_from C U cfg st (nn_blockchain n) \<Longrightarrow> cfg_ok cfg \<Longrightarrow> session_effect C U cfg st (nn_storage n)"
  unfolding nn_storage_def by (rule chain_from_session)

text \<open>Loading, and what keeps a process on its way.\<close>
lemma chain_from_load:
  assumes "session_ok C U cfg st" "cfg_ok cfg" "genesis_in_play U cfg"
  shows "\<exists>bc. Blockchain_init now cfg st = Inr bc \<and> chain_from C U cfg st bc"
proof (cases "st = empty_storage")
  case True
  obtain bc where bc: "Blockchain_init now cfg st = Inr bc" "chain_ok C U cfg bc" using session_load [OF assms] by blast
  have "peer_credentials_table (bc_storage bc) = []"
    using bc(1) by (auto simp: True Blockchain_init_def load_chain_def empty_storage_def Let_def
        create_and_persist_genesis_block_def dest!: save_block_credentials split: sum.splits if_splits)
  moreover have "0 \<le> total_work bc" by (auto simp: total_work_def chain_work_def intro!: sum_list_nonneg)
  ultimately show ?thesis using bc by (auto simp: chain_from_def True empty_storage_def stored_work_def)
next
  case False
  then have "db_ok C U cfg st" using assms(1) by (simp add: session_ok_def)
  from reload_db [OF this assms(2), of now] stored_work_chain show ?thesis by (fastforce simp: chain_from_def)
qed

lemma chain_from_peer_only:
  assumes "chain_from C U cfg st (nn_blockchain n)" "peer_only n n'"
  shows "chain_from C U cfg st (nn_blockchain n')"
proof -
  have "total_work (nn_blockchain n') = total_work (nn_blockchain n)"
    using peer_only_chain [OF assms(2)] by (simp add: total_work_def)
  with assms chain_ok_peer_only show ?thesis
    unfolding chain_from_def by (metis nn_storage_def peer_only_def)
qed

lemma chain_from_network_node:
  assumes "chain_from C U cfg st bc"
  shows "chain_from C U cfg st (nn_blockchain (NetworkNode out new_id fresh cfg' bc))"
proof -
  let ?n = "NetworkNode out new_id fresh cfg' bc"
  have v: "core_view (nn_blockchain ?n) = core_view bc" by (rule NetworkNode_facts(1))
  have "chain_ok C U cfg (nn_blockchain ?n)"
    using assms v chain_ok_core unfolding chain_from_def by metis
  moreover have "total_work (nn_blockchain ?n) = total_work bc"
    unfolding total_work_def using v core_view_simps(1) by metis
  moreover have "peer_credentials_table (bc_storage (nn_blockchain ?n)) = peer_credentials_table (bc_storage bc)"
    using NetworkNode_facts(2) by (simp add: nn_storage_def)
  ultimately show ?thesis using assms by (simp add: chain_from_def)
qed

lemma chain_from_progress:
  assumes "chain_from C U cfg st (nn_blockchain n)" "progress C U n n'" "inj_on block_hash U"
  shows "chain_from C U cfg st (nn_blockchain n')"
proof -
  have "chain_ok C U cfg (nn_blockchain n')" using assms chain_ok_progress unfolding chain_from_def by blast
  moreover have "total_work (nn_blockchain n) \<le> total_work (nn_blockchain n')"
    using assms(2) by (auto simp: progress_def total_work_def)
  ultimately show ?thesis using assms(1,2) by (auto simp: chain_from_def progress_def nn_storage_def)
qed

lemma submit_chain: "submit_transaction C tx bc = (v, bc') \<Longrightarrow> bc_chain bc' = bc_chain bc"
  by (auto simp: submit_transaction_def Let_def split: prod.splits verdict.splits if_splits)

lemma chain_from_submit:
  assumes "chain_from C U cfg st bc" "submit_transaction C tx bc = (v, bc')" "wire_tx tx"
  shows "chain_from C U cfg st bc'"
proof -
  have "bc_chain bc' = bc_chain bc"
    using submit_chain [OF assms(2)] .
  then show ?thesis using assms chain_ok_submit unfolding chain_from_def total_work_def by metis
qed

lemma chain_from_commit:
  assumes "chain_from C U cfg st bc" "commit_block C (b, hs) bc = (Inr b', bc')" "wire_block b" "b \<in> U"
  shows "chain_from C U cfg st bc'"
proof -
  have "chain_ok C U cfg bc'" using assms chain_ok_commit unfolding chain_from_def by blast
  moreover have "total_work bc \<le> total_work bc' \<and> peer_credentials_table (bc_storage bc') = peer_credentials_table (bc_storage bc)"
    using assms(2)
  proof (cases rule: commit_block_cases)
    case (saved st1)
    then show ?thesis
      by (auto simp: total_work_def chain_work_def update_balances_credentials dest!: save_block_credentials)
  qed simp_all
  ultimately show ?thesis using assms(1) by (auto simp: chain_from_def)
qed

end
