(* ===== verification/Cli.thy ===== *)
theory Cli
  imports Process_Db
begin

text \<open>
  \<open>cli/main.py\<close>: every command is a process of its own that opens the database, builds the objects it
  needs, and leaves nothing behind but the database.  A command maps the database to what it prints (as data,
  the markup aside) or to how it ends otherwise, and the database it leaves.
\<close>

section \<open>Commands\<close>

text \<open>\<open>typer.Exit\<close> with its code, or an exception that ends the process.\<close>

datatype cli_error = Exit int | Raised py_error

type_synonym 'a command = "storage \<Rightarrow> (cli_error + 'a) \<times> storage"

text \<open>What the environment gives a command: network, clock and fresh randomness, the generators' values, the settings.\<close>

record process =
  pr_out :: outside
  pr_new_id :: string
  pr_fresh :: "string \<times> string"
  pr_settings :: settings

abbreviation pr_now :: "process \<Rightarrow> int" where
  "pr_now pr \<equiv> \<lfloor>o_time (pr_out pr)\<rfloor>"

definition with_chain :: "process \<Rightarrow> (blockchain \<Rightarrow> (cli_error + 'a) \<times> storage) \<Rightarrow> 'a command" where
  "with_chain pr body st =
     (case Blockchain_init (pr_now pr) (pr_settings pr) st of
        Inl e \<Rightarrow> (Inl (Raised e), st)
      | Inr bc \<Rightarrow> body bc)"

definition cli_network_node :: "process \<Rightarrow> blockchain \<Rightarrow> network_node" where
  "cli_network_node pr bc = NetworkNode (pr_out pr) (pr_new_id pr) (pr_fresh pr) (pr_settings pr) bc"

definition cli_create_wallet :: "crypto \<Rightarrow> int \<Rightarrow> (string \<times> string \<times> string) command" where
  "cli_create_wallet C d st =
     (let w = Wallet_create C d in (Inr (address w, public_key_hex w, private_key_hex w), st))"

definition cli_show_chain :: "process \<Rightarrow> ((int \<times> string \<times> string \<times> int \<times> int) list \<times> int) command" where
  "cli_show_chain pr =
     with_chain pr (\<lambda>bc.
       (Inr (map (\<lambda>b. (index b, take 16 (block_hash b) @ ''...'', take 16 (previous_hash b) @ ''...'',
                       int (length (transactions b)), nonce b)) (bc_chain bc), bc_length bc), bc_storage bc))"

text \<open>The mined block and the peers that acknowledged it; \<open>None\<close> when the broadcast raised and was skipped.\<close>

definition cli_mine :: "crypto \<Rightarrow> process \<Rightarrow> string \<Rightarrow> (block \<times> string list option) command" where
  "cli_mine C pr miner_address st =
     (if \<not> is_valid_address miner_address then (Inl (Exit 1), st)
      else
        with_chain pr (\<lambda>bc.
          case mine_pending_transactions C (pr_now pr) miner_address bc of
            (Inl (ValidationError m), bc') \<Rightarrow> (Inl (Exit 1), bc_storage bc')
          | (Inl e, bc') \<Rightarrow> (Inl (Raised e), bc_storage bc')
          | (Inr b, bc') \<Rightarrow>
              (case broadcast_block C (pr_out pr) b None (cli_network_node pr bc') of
                 (q, n) \<Rightarrow> (Inr (b, case q of Inl _ \<Rightarrow> None | Inr acks \<Rightarrow> Some acks), nn_storage n))) st)"

definition cli_status :: "process \<Rightarrow> pyval command" where
  "cli_status pr = with_chain pr (\<lambda>bc. (map_sum Raised id (status bc), bc_storage bc))"

definition cli_create_transaction ::
  "crypto \<Rightarrow> process \<Rightarrow> string \<Rightarrow> string \<Rightarrow> string \<Rightarrow> (transaction \<times> string list option) command" where
  "cli_create_transaction C pr private_key receiver_arg amount st =
     (case Wallet_from_private_key C private_key of
        Inl e \<Rightarrow> (Inl (Exit 1), st)
      | Inr w \<Rightarrow>
          if \<not> is_valid_address receiver_arg then (Inl (Exit 1), st)
          else
            (case mk_Transaction (pr_now pr) (address w) receiver_arg (Some (AmtStr amount)) None None None [] None of
               Inl e \<Rightarrow> (Inl (Raised e), st)
             | Inr tx0 \<Rightarrow>
                 (case sign_transaction C w tx0 of
                    Inl e \<Rightarrow> (Inl (Raised e), st)
                  | Inr tx \<Rightarrow>
                      with_chain pr (\<lambda>bc.
                        case submit_transaction C tx bc of
                          (Invalid r, bc') \<Rightarrow> (Inl (Exit 1), bc_storage bc')
                        | (Valid, bc') \<Rightarrow>
                            (case broadcast_transaction C (pr_out pr) tx None (cli_network_node pr bc') of
                               (q, n) \<Rightarrow> (Inr (tx, case q of Inl _ \<Rightarrow> None | Inr acks \<Rightarrow> Some acks), nn_storage n))) st)))"

definition cli_validate :: "crypto \<Rightarrow> process \<Rightarrow> unit command" where
  "cli_validate C pr =
     with_chain pr (\<lambda>bc.
       (case is_chain_valid C bc of
          Inl e \<Rightarrow> Inl (Raised e)
        | Inr (Invalid r) \<Rightarrow> Inl (Exit 1)
        | Inr Valid \<Rightarrow> Inr (), bc_storage bc))"

definition cli_network_status :: "process \<Rightarrow> pyval command" where
  "cli_network_status pr =
     with_chain pr (\<lambda>bc.
       let n = cli_network_node pr bc in (map_sum Raised id (node_status (pr_out pr) n), nn_storage n))"

text \<open>\<open>f"{x:.0f}"\<close>.\<close>

definition round_even :: "rat \<Rightarrow> int" where
  "round_even x =
     (let f = \<lfloor>x\<rfloor>; d = x - of_int f
      in if d < 1 / 2 \<or> d = 1 / 2 \<and> even f then f else f + 1)"

definition cli_peers :: "process \<Rightarrow> (string \<times> string \<times> string \<times> string) list command" where
  "cli_peers pr =
     with_chain pr (\<lambda>bc.
       let n = cli_network_node pr bc in
       (Inr (map (\<lambda>p. (p_address p,
            take 12 (case p_node_id p of None \<Rightarrow> ''-'' | Some i \<Rightarrow> if i = [] then ''-'' else i),
            p_status p,
            (case p_last_seen p of None \<Rightarrow> ''-'' | Some t \<Rightarrow> if t = 0 then ''-'' else show_int (round_even t))))
          (registry_peers (nn_peers n) (nn_storage n))), nn_storage n))"

text \<open>Whether the peer acknowledged the registration, and how the handshake ended.\<close>

definition cli_add_peer ::
  "crypto \<Rightarrow> process \<Rightarrow> string \<Rightarrow> (bool \<times> handshake_reason verdict) command" where
  "cli_add_peer C pr addr =
     with_chain pr (\<lambda>bc.
       let out = pr_out pr in
       case node_register out (PStr addr) None (cli_network_node pr bc) of
         (Invalid r, n1) \<Rightarrow> (Inl (Exit 1), nn_storage n1)
       | (Valid, n1) \<Rightarrow>
           let finish = (\<lambda>ack n2.
             (map_sum Raised (\<lambda>v. (ack, v)) (perform_handshake C out addr n2), nn_storage n2))
           in (case register_with (client_of out n1) addr (nn_node_id n1) (nn_self_address n1) of
                 Inl e \<Rightarrow> (Inl (Raised e), nn_storage n1)
               | Inr None \<Rightarrow> finish False (node_mark_seen out addr ''offline'' None n1)
               | Inr (Some result) \<Rightarrow>
                   (case py_get ''self_node_id'' PNone result of
                      Inl e \<Rightarrow> (Inl (Raised e), nn_storage n1)
                    | Inr v \<Rightarrow>
                        (case wire_node_id v of
                           Inl e \<Rightarrow> (Inl (Raised e), nn_storage n1)
                         | Inr sid \<Rightarrow> finish True (node_mark_seen out addr ''online'' sid n1)))))"

definition cli_sync :: "crypto \<Rightarrow> process \<Rightarrow> string option \<Rightarrow> sync_result list command" where
  "cli_sync C pr peer_arg =
     with_chain pr (\<lambda>bc.
       let n = cli_network_node pr bc in
       if present peer_arg
       then (case sync_with_peer C (pr_out pr) (the peer_arg) n of
               (r, n') \<Rightarrow> (map_sum Raised (\<lambda>x. [x]) r, nn_storage n'))
       else (case sync_with_all_peers C (pr_out pr) n of
               (r, n') \<Rightarrow> (map_sum Raised id r, nn_storage n')))"

text \<open>Where the server is told to listen.\<close>

definition cli_start_node :: "settings \<Rightarrow> string option \<Rightarrow> int option \<Rightarrow> string \<times> int" where
  "cli_start_node cfg host port_arg =
     (if present host then the host else net_host (network_cfg cfg),
      case port_arg of None \<Rightarrow> net_port (network_cfg cfg) | Some p \<Rightarrow> if p = 0 then net_port (network_cfg cfg) else p)"

section \<open>Sessions\<close>

text \<open>One command.  As for the served node, a command in which the database refuses a validated block is not a step.\<close>

inductive cli_step :: "crypto \<Rightarrow> block set \<Rightarrow> settings \<Rightarrow> storage \<Rightarrow> storage \<Rightarrow> bool" for C U cfg where
  create_wallet: "cli_create_wallet C d st = (r1, st') \<Longrightarrow> cli_step C U cfg st st'"
| show_chain: "cli_show_chain pr st = (r2, st') \<Longrightarrow> pr_settings pr = cfg \<Longrightarrow> cli_step C U cfg st st'"
| mine: "cli_mine C pr a st = (r3, st') \<Longrightarrow> pr_settings pr = cfg \<Longrightarrow> r3 \<noteq> Inl (Raised StorageError) \<Longrightarrow>
    (\<And>b acks. r3 = Inr (b, acks) \<Longrightarrow> b \<in> U) \<Longrightarrow> cli_step C U cfg st st'"
| status: "cli_status pr st = (r4, st') \<Longrightarrow> pr_settings pr = cfg \<Longrightarrow> cli_step C U cfg st st'"
| create_transaction: "cli_create_transaction C pr key rcv amt st = (r5, st') \<Longrightarrow> pr_settings pr = cfg \<Longrightarrow> cli_step C U cfg st st'"
| validate: "cli_validate C pr st = (r6, st') \<Longrightarrow> pr_settings pr = cfg \<Longrightarrow> cli_step C U cfg st st'"
| network_status: "cli_network_status pr st = (r7, st') \<Longrightarrow> pr_settings pr = cfg \<Longrightarrow> cli_step C U cfg st st'"
| peers: "cli_peers pr st = (r8, st') \<Longrightarrow> pr_settings pr = cfg \<Longrightarrow> cli_step C U cfg st st'"
| add_peer: "cli_add_peer C pr addr st = (r9, st') \<Longrightarrow> pr_settings pr = cfg \<Longrightarrow> cli_step C U cfg st st'"
| sync: "cli_sync C pr p st = (r10, st') \<Longrightarrow> pr_settings pr = cfg \<Longrightarrow> served (pr_out pr) \<subseteq> U \<Longrightarrow> cli_step C U cfg st st'"

lemma with_chain_loads: "Blockchain_init (pr_now pr) (pr_settings pr) st = Inr bc \<Longrightarrow> with_chain pr body st = body bc"
  by (simp add: with_chain_def)

lemma cli_network_node_ok:
  "chain_from C U cfg st bc \<Longrightarrow> chain_from C U cfg st (nn_blockchain (cli_network_node pr bc))"
  unfolding cli_network_node_def by (rule chain_from_network_node)

lemma cli_mine_session:
  assumes c: "cli_mine C pr a st = (r, st')" "r \<noteq> Inl (Raised StorageError)" "\<And>b acks. r = Inr (b, acks) \<Longrightarrow> b \<in> U"
    and ok: "session_ok C U (pr_settings pr) st" "cfg_ok (pr_settings pr)" "genesis_in_play U (pr_settings pr)"
  shows "session_effect C U (pr_settings pr) st st'"
proof (cases "is_valid_address a")
  case False
  then show ?thesis using c(1) session_refl [OF ok(1)] by (simp add: cli_mine_def)
next
  case True
  obtain bc where bc: "Blockchain_init (pr_now pr) (pr_settings pr) st = Inr bc" "chain_from C U (pr_settings pr) st bc"
    using chain_from_load [OF ok] by blast
  obtain v bc' where v: "mine_pending_transactions C (pr_now pr) a bc = (v, bc')" by fastforce
  note m = c(1) [unfolded cli_mine_def with_chain_loads [OF bc(1)] v]
  show ?thesis
    using v
  proof (cases rule: mine_cases)
    case (failed e)
    with m True chain_from_session [OF bc(2) ok(2)] show ?thesis by (cases e) auto
  next
    case unsaved
    with m True c(2) show ?thesis by auto
  next
    case (mined b hs)
    obtain q n where q: "broadcast_block C (pr_out pr) b None (cli_network_node pr bc') = (q, n)" by fastforce
    have "b \<in> U" using m True mined(1) q c(3) by auto
    from chain_from_commit [OF bc(2) mined(3) prepared_block_wire [OF chain_from_ok [OF bc(2)] mined(2)] this]
    have "chain_from C U (pr_settings pr) st (nn_blockchain n)"
      by (rule chain_from_peer_only [OF cli_network_node_ok broadcast_block_frame [OF q]])
    then have "session_effect C U (pr_settings pr) st (nn_storage n)" by (rule chain_from_node_session [OF _ ok(2)])
    with m True mined(1) q show ?thesis by auto
  qed
qed

lemma cli_create_transaction_session:
  assumes c: "cli_create_transaction C pr key rcv amt st = (r, st')"
    and ok: "session_ok C U (pr_settings pr) st" "cfg_ok (pr_settings pr)" "genesis_in_play U (pr_settings pr)"
  shows "session_effect C U (pr_settings pr) st st'"
proof (cases "\<exists>w tx0 tx. Wallet_from_private_key C key = Inr w \<and> is_valid_address rcv \<and>
    mk_Transaction (pr_now pr) (address w) rcv (Some (AmtStr amt)) None None None [] None = Inr tx0 \<and>
    sign_transaction C w tx0 = Inr tx")
  case False
  then have "st' = st" using c by (auto simp: cli_create_transaction_def split: sum.splits if_splits)
  then show ?thesis using session_refl [OF ok(1)] by simp
next
  case True
  then obtain w tx0 tx where t: "Wallet_from_private_key C key = Inr w" "is_valid_address rcv"
    "mk_Transaction (pr_now pr) (address w) rcv (Some (AmtStr amt)) None None None [] None = Inr tx0"
    "sign_transaction C w tx0 = Inr tx" by blast
  have "tx_timestamp tx0 = PyInt (pr_now pr)"
    using t(3) by (auto simp: mk_Transaction_def Let_def split: sum.splits py_error.splits)
  then have wire: "wire_tx tx" using t(4) by (auto simp: sign_transaction_def Let_def wire_tx_def split: if_splits sum.splits)
  obtain bc where bc: "Blockchain_init (pr_now pr) (pr_settings pr) st = Inr bc" "chain_from C U (pr_settings pr) st bc"
    using chain_from_load [OF ok] by blast
  obtain v bc' where v: "submit_transaction C tx bc = (v, bc')" by fastforce
  obtain q n where q: "broadcast_transaction C (pr_out pr) tx None (cli_network_node pr bc') = (q, n)" by fastforce
  have b': "chain_from C U (pr_settings pr) st bc'" by (rule chain_from_submit [OF bc(2) v wire])
  then have "chain_from C U (pr_settings pr) st (nn_blockchain n)"
    by (rule chain_from_peer_only [OF cli_network_node_ok broadcast_transaction_frame [OF q]])
  with c t v q chain_from_node_session [OF _ ok(2)] chain_from_session [OF b' ok(2)] show ?thesis
    by (cases v) (auto simp: cli_create_transaction_def with_chain_loads [OF bc(1)])
qed

lemma cli_node_session:
  assumes ok: "session_ok C U (pr_settings pr) st" "cfg_ok (pr_settings pr)" "genesis_in_play U (pr_settings pr)"
  shows "cli_show_chain pr st = (r1, st') \<Longrightarrow> session_effect C U (pr_settings pr) st st'"
    "cli_status pr st = (r2, st') \<Longrightarrow> session_effect C U (pr_settings pr) st st'"
    "cli_validate C' pr st = (r3, st') \<Longrightarrow> session_effect C U (pr_settings pr) st st'"
    "cli_network_status pr st = (r4, st') \<Longrightarrow> session_effect C U (pr_settings pr) st st'"
    "cli_peers pr st = (r5, st') \<Longrightarrow> session_effect C U (pr_settings pr) st st'"
    "cli_add_peer C' pr addr st = (r6, st') \<Longrightarrow> session_effect C U (pr_settings pr) st st'"
proof -
  obtain bc where bc: "Blockchain_init (pr_now pr) (pr_settings pr) st = Inr bc" "chain_from C U (pr_settings pr) st bc"
    using chain_from_load [OF ok] by blast
  note c = chain_from_session [OF bc(2) ok(2)] and n = chain_from_node_session [OF cli_network_node_ok [OF bc(2)] ok(2)]
  show "cli_show_chain pr st = (r1, st') \<Longrightarrow> session_effect C U (pr_settings pr) st st'"
    "cli_status pr st = (r2, st') \<Longrightarrow> session_effect C U (pr_settings pr) st st'"
    "cli_validate C' pr st = (r3, st') \<Longrightarrow> session_effect C U (pr_settings pr) st st'"
    "cli_network_status pr st = (r4, st') \<Longrightarrow> session_effect C U (pr_settings pr) st st'"
    "cli_peers pr st = (r5, st') \<Longrightarrow> session_effect C U (pr_settings pr) st st'"
    using c n by (auto simp: cli_show_chain_def cli_status_def cli_validate_def cli_network_status_def cli_peers_def
        with_chain_loads [OF bc(1)] Let_def)
  assume a: "cli_add_peer C' pr addr st = (r6, st')"
  obtain v n1 where v: "node_register (pr_out pr) (PStr addr) None (cli_network_node pr bc) = (v, n1)" by fastforce
  have "peer_only (cli_network_node pr bc) n1" using node_register_frame v by (metis snd_conv)
  from chain_from_peer_only [OF cli_network_node_ok [OF bc(2)] this]
  have n1: "chain_from C U (pr_settings pr) st (nn_blockchain n1)" .
  have "session_effect C U (pr_settings pr) st (nn_storage n1)"
    "session_effect C U (pr_settings pr) st (nn_storage (node_mark_seen (pr_out pr) addr s i n1))" for s i
    using chain_from_node_session [OF _ ok(2)] n1 chain_from_peer_only [OF n1 node_mark_frame(1)] by blast+
  with a v show "session_effect C U (pr_settings pr) st st'"
    by (auto simp: cli_add_peer_def with_chain_loads [OF bc(1)] Let_def split: sum.splits option.splits verdict.splits)
qed

lemma cli_sync_session:
  assumes c: "cli_sync C pr p st = (r, st')" and U: "inj_on block_hash U" "served (pr_out pr) \<subseteq> U"
    and ok: "session_ok C U (pr_settings pr) st" "cfg_ok (pr_settings pr)" "genesis_in_play U (pr_settings pr)"
  shows "session_effect C U (pr_settings pr) st st'"
proof -
  obtain bc where bc: "Blockchain_init (pr_now pr) (pr_settings pr) st = Inr bc" "chain_from C U (pr_settings pr) st bc"
    using chain_from_load [OF ok] by blast
  let ?n = "cli_network_node pr bc"
  note n = cli_network_node_ok [OF bc(2), of pr]
  have net: "net_ok C U ?n" by (rule chain_ok_net [OF chain_from_ok [OF n] ok(2)])
  have "session_effect C U (pr_settings pr) st (nn_storage n')" if "progress C U ?n n'" for n'
    by (rule chain_from_node_session [OF chain_from_progress [OF n that U(1)] ok(2)])
  then have "session_effect C U (pr_settings pr) st (nn_storage n')"
    if "sync_with_peer C (pr_out pr) x ?n = (q, n') \<or> sync_with_all_peers C (pr_out pr) ?n = (q', n')" for x q q' n'
    using that sync_with_peer_progress [OF net _ U] sync_peers_progress [OF U net] unfolding sync_with_all_peers_def by blast
  with c show ?thesis
    by (auto simp: cli_sync_def with_chain_loads [OF bc(1)] Let_def split: if_splits prod.splits)
qed

lemma cli_step_session:
  assumes "cli_step C U cfg st st'" and ok: "session_ok C U cfg st" "cfg_ok cfg" "genesis_in_play U cfg"
    and U: "inj_on block_hash U"
  shows "session_effect C U cfg st st'"
  using assms(1)
proof (cases rule: cli_step.cases)
  case create_wallet
  then show ?thesis using session_refl [OF ok(1)] by (simp add: cli_create_wallet_def Let_def)
next
  case mine
  then show ?thesis using cli_mine_session ok by metis
next
  case create_transaction
  then show ?thesis using cli_create_transaction_session ok by metis
next
  case sync
  then show ?thesis using cli_sync_session U ok by metis
next
  case show_chain
  then show ?thesis using cli_node_session(1) ok by metis
next
  case status
  then show ?thesis using cli_node_session(2) ok by metis
next
  case validate
  then show ?thesis using cli_node_session(3) ok by metis
next
  case network_status
  then show ?thesis using cli_node_session(4) ok by metis
next
  case peers
  then show ?thesis using cli_node_session(5) ok by metis
next
  case add_peer
  then show ?thesis using cli_node_session(6) ok by metis
qed

section \<open>Properties\<close>

lemma session_validates:
  assumes "session_ok C U cfg st" "cfg_ok cfg" "genesis_in_play U cfg" "pr_settings pr = cfg"
  shows "fst (cli_validate C pr st) = Inr ()"
proof -
  from session_load [OF assms(1-3), of "pr_now pr"] obtain bc
    where bc: "Blockchain_init (pr_now pr) cfg st = Inr bc" "chain_ok C U cfg bc" by blast
  have "with_chain pr body st = body bc" for body :: "blockchain \<Rightarrow> (cli_error + unit) \<times> storage"
    using with_chain_loads bc(1) assms(4) by metis
  with bc(2) show ?thesis by (simp add: cli_validate_def chain_ok_def node_ok_def)
qed

text \<open>Any session of commands leaves a valid database.  Start from an empty database and run any commands with any arguments,
  against any peers: as long as no two different blocks in play have the same hash, the next command loads a chain
  that validates from genesis to tip, and \<open>validate\<close> says so.\<close>
theorem cli_sessions_validate:
  assumes "cfg_ok cfg" "genesis_in_play U cfg" "inj_on block_hash U"
    and "(cli_step C U cfg)\<^sup>*\<^sup>* empty_storage st" "pr_settings pr = cfg"
  shows "fst (cli_validate C pr st) = Inr ()"
proof -
  have "session_ok C U cfg st"
    using assms(4)
  proof (induction rule: rtranclp_induct)
    case base
    then show ?case by (simp add: session_ok_def)
  next
    case (step st1 st2)
    from cli_step_session [OF step(2,3) assms(1-3)] show ?case by (simp add: session_effect_def)
  qed
  from session_validates [OF this assms(1,2,5)] show ?thesis .
qed

text \<open>The genesis block does not depend on the clock.\<close>
lemma Blockchain_init_clock: "Blockchain_init now cfg empty_storage = Blockchain_init 0 cfg empty_storage"
proof -
  have "genesis now p t n m = genesis 0 p t n m" for p t n m
    by (simp add: genesis_def mk_Transaction_def)
  then have c: "create_and_persist_genesis_block now bc = create_and_persist_genesis_block 0 bc" for bc
    by (simp add: create_and_persist_genesis_block_def Let_def)
  have "load_chain t empty_storage = Inr []" for t by (simp add: load_chain_def empty_storage_def)
  then show ?thesis
    by (cases "get_consensus_engine (algorithm (consensus_cfg cfg))") (simp_all add: Blockchain_init_def c)
qed

definition sample_process :: process where
  "sample_process = \<lparr>pr_out = sample_out, pr_new_id = ''self'', pr_fresh = (''k'', ''pk''), pr_settings = sample_settings\<rparr>"

lemma sample_session_setting:
  "cfg_ok sample_settings" "genesis_in_play (set (bc_chain sample_node)) sample_settings"
  "inj_on block_hash (set (bc_chain sample_node))"
  using Blockchain_init_clock [of _ sample_settings] sample_node_facts(2,6)
  by (auto simp: cfg_ok_def sample_settings_def GenesisConfig_def NativeAssetConfig_def genesis_in_play_def length_Suc_conv)

theorem cli_sessions_validate_witness:
  "fst (cli_validate sample_crypto sample_process (snd (cli_show_chain sample_process empty_storage))) = Inr ()"
proof -
  let ?U = "set (bc_chain sample_node)"
  have "cli_step sample_crypto ?U sample_settings empty_storage (snd (cli_show_chain sample_process empty_storage))"
    by (rule cli_step.show_chain [OF prod.collapse [symmetric]]) (simp add: sample_process_def)
  then show ?thesis
    by (intro cli_sessions_validate [OF sample_session_setting r_into_rtranclp]) (simp_all add: sample_process_def)
qed

lemma loaded_pool_empty: "Blockchain_init now cfg st = Inr bc \<Longrightarrow> bc_mempool bc = [] \<and> miner_consensus (bc_miner bc) = ProofOfWorkConsensus"
  by (auto simp: Blockchain_init_def get_consensus_engine_def Let_def Mempool_new_def
      create_and_persist_genesis_block_def split: sum.splits if_splits)

lemma prepared_without_pool:
  assumes "bc_mempool bc = []" "miner_consensus (bc_miner bc) = ProofOfWorkConsensus" "prepare_block now a bc = Inr (b, hs)"
  shows "\<exists>r ts. transactions b = [coinbase_for a r ts]"
proof -
  obtain i prev d r ts where m: "mine_block now (bc_miner bc) i prev (bc_mempool bc) a d MAX_TRANSACTIONS_PER_BLOCK
      (Some r) (Some ts) = Inr (b, hs)"
    using assms(3) by (auto simp: prepare_block_def Let_def split: sum.splits if_splits)
  from pow.mine_block_content(7) [OF m assms(2)] show ?thesis
    by (auto simp: assms(1) get_pending_def dict_values_def slice_to_def)
qed

text \<open>What \<open>create-transaction\<close> accepts into the pool is never mined by the command line: the pool is in memory only, so
  every process starts with an empty one, and a block that \<open>mine\<close> assembles on any database holds the coinbase
  and nothing else, although the commands say that they submit to, and mine, the pending transactions.\<close>
theorem cli_mines_no_transfers:
  assumes "Blockchain_init (pr_now pr) (pr_settings pr) st = Inr bc"
  shows "get_pending_transactions bc = [] \<and>
    (\<forall>b hs. prepare_block (pr_now pr) a bc = Inr (b, hs) \<longrightarrow> (\<exists>r ts. transactions b = [coinbase_for a r ts])) \<and>
    (\<forall>b acks. fst (cli_mine C pr a st) = Inr (b, acks) \<longrightarrow> (\<exists>r ts. transactions b = [coinbase_for a r ts]))"
proof -
  note p = loaded_pool_empty [OF assms]
  note t = prepared_without_pool [OF p [THEN conjunct1] p [THEN conjunct2]]
  have "\<exists>r ts. transactions b = [coinbase_for a r ts]" if f: "fst (cli_mine C pr a st) = Inr (b, acks)" for b acks
  proof -
    obtain v bc' where v: "mine_pending_transactions C (pr_now pr) a bc = (v, bc')" by fastforce
    have valid: "is_valid_address a" using f by (simp add: cli_mine_def split: if_splits)
    note m = f [unfolded cli_mine_def with_chain_loads [OF assms] v]
    show ?thesis
      using v
    proof (cases rule: mine_cases)
      case (failed e)
      then show ?thesis using m valid by (cases e) auto
    next
      case unsaved
      then show ?thesis using m valid by auto
    next
      case (mined b' hs)
      then have "b' = b" using m valid by (auto split: prod.splits)
      then show ?thesis using t mined(2) by blast
    qed
  qed
  with p t show ?thesis by (auto simp: get_pending_transactions_def get_pending_def dict_values_def)
qed

theorem cli_mines_no_transfers_witness:
  "\<exists>r ts. transactions (fst sample_mined) = [coinbase_for sample_address r ts]"
proof -
  let ?pr = "sample_process\<lparr>pr_out := sample_out\<lparr>o_time := 0\<rparr>\<rparr>"
  have "Blockchain_init (pr_now ?pr) (pr_settings ?pr) empty_storage = Inr sample_node"
    using sample_node_facts(6) by (simp add: sample_process_def)
  note p = cli_mines_no_transfers [OF this, of sample_address, THEN conjunct2, THEN conjunct1]
  have "prepare_block (pr_now ?pr) sample_address sample_node = Inr (fst sample_mined, snd sample_mined)"
    by (simp add: sample_process_def sample_prepared)
  with p show ?thesis by blast
qed

end
