(* ===== verification/Installation.thy ===== *)
theory Installation
  imports Api_Properties Cli
begin

text \<open>
  An installation over its lifetime: the server is started, serves requests and ends, commands of the command line
  run before, between and after, all on one database.  What a process keeps in memory only (pool, challenges,
  rate limits, replay cache) is gone when it ends; the chain, the balances, the peers and their trust are in the
  tables.  A server that is killed leaves the database as the last step that was completed left it, so every state of a run
  is a possible end.
\<close>

inductive installation :: "crypto \<Rightarrow> block set \<Rightarrow> settings \<Rightarrow> storage \<Rightarrow> string list \<Rightarrow> storage \<Rightarrow> bool" for C U cfg st where
  fresh: "installation C U cfg st [] st"
| command: "installation C U cfg st es st1 \<Longrightarrow> cli_step C U cfg st1 st2 \<Longrightarrow> installation C U cfg st es st2"
| server: "installation C U cfg st es st1 \<Longrightarrow> lifespan_start C out new_id drawn cfg st1 = Inr s0 \<Longrightarrow>
    api_run C U s0 authenticated s \<Longrightarrow> installation C U cfg st (es @ authenticated) (nn_storage (api_node s))"

section \<open>One server process\<close>

lemma server_starts:
  assumes "session_ok C U cfg st" "cfg_ok cfg" "genesis_in_play U cfg"
  shows "\<exists>s0. lifespan_start C out new_id drawn cfg st = Inr s0 \<and> chain_from C U cfg st (nn_blockchain (api_node s0))"
proof -
  obtain bc where bc: "Blockchain_init \<lfloor>o_time out\<rfloor> cfg st = Inr bc" "chain_from C U cfg st bc"
    using chain_from_load [OF assms] by blast
  have "chain_from C U cfg st (nn_blockchain (start C out (NetworkNode out new_id drawn cfg bc)))"
    by (rule chain_from_peer_only [OF chain_from_network_node [OF bc(2)] start_frame])
  then show ?thesis by (simp add: lifespan_start_def bc(1))
qed

lemma server_session:
  assumes ok: "session_ok C U cfg st" "cfg_ok cfg" "genesis_in_play U cfg" and U: "inj_on block_hash U"
    and start: "lifespan_start C out new_id drawn cfg st = Inr s0" and run: "api_run C U s0 es s"
  shows "session_ok C U cfg (nn_storage (api_node s)) \<and> stored_work st \<le> stored_work (nn_storage (api_node s)) \<and>
    (\<forall>a. is_peer_trusted a (nn_storage (api_node s)) \<longleftrightarrow> is_peer_trusted a st \<or> a \<in> set es)"
proof -
  have from_st: "chain_from C U cfg st (nn_blockchain (api_node s0))"
    using server_starts [OF ok, of out new_id drawn] start by auto
  note c0 = chain_from_ok [OF from_st]
  note e = api_run_effect [OF run chain_ok_net [OF c0 ok(2)] U]
  have c: "chain_ok C U cfg (nn_blockchain (api_node s))"
    by (rule chain_ok_kept [OF c0 _ U]) (use e in auto)
  have "stored_work st \<le> stored_work (nn_storage (api_node s))"
    using from_st e stored_work_chain [OF c] by (simp add: chain_from_def nn_storage_def)
  moreover have "is_peer_trusted a (nn_storage (api_node s0)) \<longleftrightarrow> is_peer_trusted a st" for a
    using from_st by (simp add: chain_from_def is_peer_trusted_def get_peer_credential_def nn_storage_def)
  ultimately show ?thesis using e node_session [OF c ok(2)] by (simp add: is_trusted_peer_def)
qed

section \<open>Any history\<close>

lemma installation_session:
  assumes "installation C U cfg st es st'" and ok: "session_ok C U cfg st" "cfg_ok cfg" "genesis_in_play U cfg"
    and U: "inj_on block_hash U"
  shows "session_ok C U cfg st' \<and> stored_work st \<le> stored_work st' \<and>
    (\<forall>a. is_peer_trusted a st' \<longleftrightarrow> is_peer_trusted a st \<or> a \<in> set es)"
  using assms(1)
proof (induction rule: installation.induct)
  case (command es st1 st2)
  from command.IH cli_step_session [OF command.hyps(2) _ ok(2,3) U] show ?case
    by (auto simp: session_effect_def is_peer_trusted_def get_peer_credential_def)
next
  case (server es st1 out new_id drawn s0 authenticated s)
  from server.IH server_session [OF _ ok(2,3) U server.hyps(2,3)] show ?case by auto
qed (use ok in simp)

lemma empty_untrusted: "\<not> is_peer_trusted a empty_storage"
  by (simp add: is_peer_trusted_def get_peer_credential_def empty_storage_def)



end
