(* ===== verification/Runtime_Settings.thy ===== *)
theory Runtime_Settings
  imports Settings
begin

text \<open>
  The rest of \<open>config/settings.py\<close>: the groups that name files and the ones reserved for other consensus
  algorithms, as an extension of the record of the groups the node reads, with the pass-through properties of
  \<open>Settings\<close>; and \<open>get_logger\<close> of \<open>blockchain/utils.py\<close>, which is the reader of the logging group and keeps
  one logger per name for the process.  A path is its text; \<open>base\<close> is \<open>BASE_DIR\<close>.
\<close>

section \<open>Paths\<close>

text \<open>\<open>a / b\<close> of \<open>pathlib\<close> for an absolute directory \<open>a\<close> in normal form: empty parts and single dots are dropped, and
  an absolute \<open>b\<close> replaces \<open>a\<close>.  Exactly two leading slashes are kept.\<close>

definition path_parts :: "string \<Rightarrow> string list" where
  "path_parts s = filter (\<lambda>p. p \<noteq> [] \<and> p \<noteq> ''.'') (split_on (CHR ''/'') s)"

definition path_root :: "string \<Rightarrow> string" where
  "path_root s = (if startswith ''//'' s \<and> \<not> startswith ''///'' s then ''//'' else ''/'')"

definition path_div :: "string \<Rightarrow> string \<Rightarrow> string" where
  "path_div a b =
     (if startswith ''/'' b then path_root b @ join ''/'' (path_parts b)
      else if path_parts b = [] then a
      else a @ ''/'' @ join ''/'' (path_parts b))"

section \<open>The remaining groups\<close>

record storage_config =
  database_dir :: string
  database_file :: string

definition StorageConfig :: "string \<Rightarrow> environ \<Rightarrow> storage_config" where
  "StorageConfig base env =
     \<lparr>database_dir = path_div base ''database'', database_file = env_str env ''SYJ_DB_FILE'' ''sayanjali_chain.db''\<rparr>"

text \<open>Reading \<open>database_url\<close> creates the directory: the result has the directories that exist afterwards.\<close>

definition database_url :: "storage_config \<Rightarrow> string set \<Rightarrow> string \<times> string set" where
  "database_url cfg dirs = (''sqlite:///'' @ path_div (database_dir cfg) (database_file cfg), insert (database_dir cfg) dirs)"

record logging_config =
  log_dir :: string
  log_file :: string
  log_level :: string
  max_bytes :: int
  backup_count :: int

definition LoggingConfig :: "string \<Rightarrow> environ \<Rightarrow> logging_config" where
  "LoggingConfig base env =
     \<lparr>log_dir = path_div base ''logs'', log_file = ''sayanjali.log'', log_level = env_str env ''SYJ_LOG_LEVEL'' ''INFO'',
      max_bytes = 5 * 1024 * 1024, backup_count = 5\<rparr>"

record future_consensus_options =
  pos_min_stake :: rat
  pos_unbonding_period_blocks :: int
  dpos_validator_count :: int
  dpos_epoch_blocks :: int

definition FutureConsensusOptions :: future_consensus_options where
  "FutureConsensusOptions =
     \<lparr>pos_min_stake = 1000, pos_unbonding_period_blocks = 1000, dpos_validator_count = 21, dpos_epoch_blocks = 100\<rparr>"

record full_settings = settings +
  storage_cfg :: storage_config
  logging_cfg :: logging_config
  future_consensus_cfg :: future_consensus_options

definition Settings_init :: "string \<Rightarrow> environ \<Rightarrow> full_settings result" where
  "Settings_init base env =
     map_sum id (\<lambda>s. settings.extend s
       (full_settings.fields (StorageConfig base env) (LoggingConfig base env) FutureConsensusOptions)) (Settings_of env)"

text \<open>The properties that pass a field of a group through.\<close>

definition settings_difficulty :: "full_settings \<Rightarrow> int" where
  "settings_difficulty s = config_difficulty (consensus_cfg s)"

definition settings_reward :: "full_settings \<Rightarrow> int" where
  "settings_reward s = block_reward (mining_cfg s)"

definition settings_host :: "full_settings \<Rightarrow> string" where
  "settings_host s = net_host (network_cfg s)"

definition settings_port :: "full_settings \<Rightarrow> int" where
  "settings_port s = net_port (network_cfg s)"

definition settings_database :: "full_settings \<Rightarrow> string set \<Rightarrow> string \<times> string set" where
  "settings_database s dirs = database_url (storage_cfg s) dirs"

definition settings_network_name :: "full_settings \<Rightarrow> string" where
  "settings_network_name s = net_name (network_cfg s)"

text \<open>The whole object extends the groups the node reads: it exists exactly when they do, and agrees with them.\<close>
lemma Settings_init_extends: "map_sum id settings.truncate (Settings_init base env) = Settings_of env"
  by (cases "Settings_of env") (simp_all add: Settings_init_def settings.defs full_settings.defs)

lemma split_on_none: "c \<notin> set s \<Longrightarrow> split_on c s = [s]"
  by (induction s) auto

text \<open>A plain file name lands in \<open>database/\<close>; an absolute \<open>SYJ_DB_FILE\<close> replaces that directory.\<close>
theorem database_file_location:
  "fst (database_url \<lparr>database_dir = d, database_file = f\<rparr> dirs) =
    (if startswith ''/'' f then ''sqlite:///'' @ path_root f @ join ''/'' (path_parts f)
     else if path_parts f = [] then ''sqlite:///'' @ d
     else ''sqlite:///'' @ d @ ''/'' @ join ''/'' (path_parts f))"
  "CHR ''/'' \<notin> set f \<Longrightarrow> f \<noteq> [] \<Longrightarrow> f \<noteq> ''.'' \<Longrightarrow>
    fst (database_url \<lparr>database_dir = d, database_file = f\<rparr> dirs) = ''sqlite:///'' @ d @ ''/'' @ f"
  by (simp add: database_url_def path_div_def)
    (cases f; auto simp: database_url_def path_div_def path_parts_def split_on_none startswith_def)

section \<open>Loggers\<close>

text \<open>What the node uses of the \<open>logging\<close> library: a registry of named loggers, each with a level, a flag and a list of
  handlers.  \<open>lc_cached\<close> are the keys of \<open>_LOGGERS\<close>, whose values are the registry's loggers of the same names.\<close>

datatype log_handler = RotatingFile string int int int | Stdout int

record logger =
  lg_level :: int
  lg_propagate :: bool
  lg_handlers :: "log_handler list"

record log_state =
  lc_cached :: "string list"
  lc_registry :: "(string \<times> logger) list"
  lc_dirs :: "string set"

text \<open>\<open>getattr(logging, level.upper(), logging.INFO)\<close>, given to \<open>setLevel\<close>: of the module's other upper-case names
  one is a format text, which is not the name of a level, and one a dict.\<close>

definition level_of :: "string \<Rightarrow> int result" where
  "level_of s =
     (let u = map upper_char s in
      if u = ''CRITICAL'' \<or> u = ''FATAL'' then Inr 50
      else if u = ''ERROR'' then Inr 40
      else if u = ''WARNING'' \<or> u = ''WARN'' then Inr 30
      else if u = ''INFO'' then Inr 20
      else if u = ''DEBUG'' then Inr 10
      else if u = ''NOTSET'' then Inr 0
      else if u = ''BASIC_FORMAT'' then Inl ValueError
      else if u = ''_STYLES'' then Inl TypeError
      else Inr 20)"

definition node_handlers :: "logging_config \<Rightarrow> log_handler list" where
  "node_handlers cfg = [RotatingFile (path_div (log_dir cfg) (log_file cfg)) 10 (max_bytes cfg) (backup_count cfg), Stdout 20]"

definition getLogger :: "string \<Rightarrow> log_state \<Rightarrow> logger" where
  "getLogger name s =
     (case map_of (lc_registry s) name of
        Some l \<Rightarrow> l | None \<Rightarrow> \<lparr>lg_level = 0, lg_propagate = True, lg_handlers = []\<rparr>)"

definition get_logger :: "logging_config \<Rightarrow> string \<Rightarrow> log_state \<Rightarrow> logger result \<times> log_state" where
  "get_logger cfg name s =
     (if name \<in> set (lc_cached s) then (Inr (getLogger name s), s)
      else
        let l = getLogger name s;
            s1 = s\<lparr>lc_dirs := insert (log_dir cfg) (lc_dirs s), lc_registry := dict_set name l (lc_registry s)\<rparr> in
        case level_of (log_level cfg) of
          Inl e \<Rightarrow> (Inl e, s1)
        | Inr level \<Rightarrow>
            let l1 = l\<lparr>lg_level := level, lg_propagate := False\<rparr>;
                l2 = (if lg_handlers l1 = [] then l1\<lparr>lg_handlers := node_handlers cfg\<rparr> else l1)
            in (Inr l2, s1\<lparr>lc_registry := dict_set name l2 (lc_registry s1), lc_cached := lc_cached s @ [name]\<rparr>))"

definition get_loggers :: "logging_config \<Rightarrow> string list \<Rightarrow> log_state \<Rightarrow> log_state" where
  "get_loggers cfg names s = fold (\<lambda>n s. snd (get_logger cfg n s)) names s"

text \<open>Loggers are as \<open>get_logger\<close> leaves them: no other code of the process adds handlers.\<close>

definition loggers_ok :: "logging_config \<Rightarrow> log_state \<Rightarrow> bool" where
  "loggers_ok cfg s \<longleftrightarrow>
     (\<forall>n l. map_of (lc_registry s) n = Some l \<longrightarrow> lg_handlers l = (if n \<in> set (lc_cached s) then node_handlers cfg else [])) \<and>
     (\<forall>n \<in> set (lc_cached s). \<exists>l. map_of (lc_registry s) n = Some l)"

lemma get_logger_ok:
  assumes "loggers_ok cfg s"
  shows "loggers_ok cfg (snd (get_logger cfg n s))"
  using assms
  by (auto simp: loggers_ok_def get_logger_def getLogger_def Let_def node_handlers_def split: sum.splits option.splits if_splits)

lemma get_loggers_ok: "loggers_ok cfg s \<Longrightarrow> loggers_ok cfg (get_loggers cfg names s)"
  unfolding get_loggers_def by (induction names arbitrary: s) (simp_all add: get_logger_ok)

definition fresh_log_state :: log_state where
  "fresh_log_state = \<lparr>lc_cached = [], lc_registry = [], lc_dirs = {}\<rparr>"

text \<open>However often modules ask for loggers, in any order and with repeated names, a logger has one file handler and one
  console handler, in that order.\<close>
theorem handlers_never_duplicated:
  assumes "get_logger cfg name (get_loggers cfg names fresh_log_state) = (Inr l, s)"
  shows "lg_handlers l = node_handlers cfg \<and> get_logger cfg name s = (Inr l, s)"
proof -
  have "loggers_ok cfg fresh_log_state" by (simp add: loggers_ok_def fresh_log_state_def)
  from get_loggers_ok [OF this, of names] assms show ?thesis
    by (auto simp: loggers_ok_def get_logger_def getLogger_def Let_def split: sum.splits option.splits if_splits)
qed

text \<open>With \<open>SYJ_LOG_LEVEL=basic_format\<close> no logger can be had: every call raises.\<close>
theorem format_name_is_no_level:
  "level_of ''basic_format'' = Inl ValueError" "level_of ''verbose'' = Inr 20"
  by code_simp+

end
