(* ===== verification/Network_Status.thy ===== *)
theory Network_Status
  imports Network_Routes
begin

text \<open>
  \<open>NetworkStatusResponse\<close> of \<open>api/schemas.py\<close>, the response model of \<open>GET /network/status\<close>: the endpoint returns the dict of
  \<open>NetworkNode.status\<close>, which the framework validates against the model before it is sent.  A field with a default may be
  missing; one of another type, or a missing required one, is a server error (\<open>None\<close>).
\<close>

record network_status_response =
  nsr_node_id :: string
  nsr_self_address :: string
  nsr_public_key :: string
  nsr_peer_count :: int
  nsr_healthy_peer_count :: int
  nsr_chain_length :: int
  nsr_chain_work :: int
  nsr_network_name :: string
  nsr_chain_id :: int
  nsr_lifecycle :: string
  nsr_sync_state :: string
  nsr_mempool_size :: int
  nsr_current_difficulty :: int
  nsr_total_supply_base_units :: int
  nsr_propagation :: envelope

definition str_field :: "envelope \<Rightarrow> string \<Rightarrow> string option \<Rightarrow> string option" where
  "str_field d k dflt = (case map_of d k of None \<Rightarrow> dflt | Some (PStr s) \<Rightarrow> Some s | Some _ \<Rightarrow> None)"

definition int_field :: "envelope \<Rightarrow> string \<Rightarrow> int option \<Rightarrow> int option" where
  "int_field d k dflt = (case map_of d k of None \<Rightarrow> dflt | Some (PNum n) \<Rightarrow> Some (num_val n) | Some _ \<Rightarrow> None)"

definition dict_field :: "envelope \<Rightarrow> string \<Rightarrow> envelope option \<Rightarrow> envelope option" where
  "dict_field d k dflt = (case map_of d k of None \<Rightarrow> dflt | Some (PDict e) \<Rightarrow> Some e | Some _ \<Rightarrow> None)"

definition NetworkStatusResponse :: "pyval \<Rightarrow> network_status_response option" where
  "NetworkStatusResponse v =
     (case v of
        PDict d \<Rightarrow>
          Option.bind (str_field d ''node_id'' None) (\<lambda>node_id.
          Option.bind (str_field d ''self_address'' None) (\<lambda>self_address.
          Option.bind (str_field d ''public_key'' None) (\<lambda>public_key.
          Option.bind (int_field d ''peer_count'' None) (\<lambda>peer_count.
          Option.bind (int_field d ''healthy_peer_count'' (Some 0)) (\<lambda>healthy.
          Option.bind (int_field d ''chain_length'' None) (\<lambda>len.
          Option.bind (int_field d ''chain_work'' None) (\<lambda>work.
          Option.bind (str_field d ''network_name'' None) (\<lambda>network_name.
          Option.bind (int_field d ''chain_id'' (Some 1)) (\<lambda>chain.
          Option.bind (str_field d ''lifecycle'' (Some ''STARTING'')) (\<lambda>lifecycle.
          Option.bind (str_field d ''sync_state'' (Some ''STARTING'')) (\<lambda>sync_state.
          Option.bind (int_field d ''mempool_size'' (Some 0)) (\<lambda>pool.
          Option.bind (int_field d ''current_difficulty'' (Some 0)) (\<lambda>diff.
          Option.bind (int_field d ''total_supply_base_units'' (Some 0)) (\<lambda>supply.
          Option.bind (dict_field d ''propagation'' (Some [])) (\<lambda>propagation.
            Some
              \<lparr>nsr_node_id = node_id, nsr_self_address = self_address, nsr_public_key = public_key,
               nsr_peer_count = peer_count, nsr_healthy_peer_count = healthy, nsr_chain_length = len,
               nsr_chain_work = work, nsr_network_name = network_name, nsr_chain_id = chain, nsr_lifecycle = lifecycle,
               nsr_sync_state = sync_state, nsr_mempool_size = pool, nsr_current_difficulty = diff,
               nsr_total_supply_base_units = supply, nsr_propagation = propagation\<rparr>)))))))))))))))
      | _ \<Rightarrow> None)"

text \<open>Every status a node reports fits the response model, and no field is filled in by a default: the response says what
  the node is.\<close>
theorem status_fits_response:
  assumes "node_status out n = Inr v"
  shows "\<exists>r. NetworkStatusResponse v = Some r \<and> nsr_node_id r = nn_node_id n \<and> nsr_self_address r = nn_self_address n \<and>
    nsr_peer_count r = registry_count (nn_storage n) \<and> nsr_chain_length r = bc_length (nn_blockchain n) \<and>
    nsr_chain_work r = total_work (nn_blockchain n) \<and> nsr_lifecycle r = lifecycle_value (nn_lifecycle n) \<and>
    current_difficulty (nn_blockchain n) = Inr (nsr_current_difficulty r) \<and>
    nsr_total_supply_base_units r = total_supply_base_units (nn_blockchain n) \<and>
    nsr_mempool_size r = mempool_size (bc_mempool (nn_blockchain n)) \<and>
    nsr_propagation r = map (\<lambda>(k, c). (k, PInt c)) (nn_propagation_stats n)"
  using assms
  by (auto simp: node_status_def NetworkStatusResponse_def str_field_def int_field_def dict_field_def Let_def split: sum.splits)

end
