(* ===== verification/Vectors.thy ===== *)
theory Vectors
  imports Samples Json_Text
begin

text \<open>
  \<open>scripts/protocol_vectors/generate.py\<close> and \<open>verify.py\<close>: the generator of the compatibility vectors and the script
  that checks frozen vectors against the code.  The directory \<open>protocol/test-vectors\<close> is the dict of the JSON values
  in its files; a value that is written is read back as it is (the order of keys, which \<open>sort_keys\<close> changes, is
  not seen by the checker: lookups and \<open>==\<close> of dicts do not depend on it).  Floats are whole numbers in this
  development, so the two fractional time stamps of the fixtures, \<open>1735689601.25\<close> and \<open>1735689631.25\<close>, are the
  arguments \<open>tx_time\<close> and \<open>blk_time\<close>.  \<open>now\<close> is the clock, which the coinbases of the monetary vectors read.
\<close>

section \<open>Failures\<close>

datatype vec_error = AssertionError string | FileNotFoundError string | InvalidSignature | Failed py_error

type_synonym 'a vec = "vec_error + 'a"
type_synonym vector_dir = "(string \<times> pyval) list"

definition and_then :: "'a vec \<Rightarrow> ('a \<Rightarrow> 'b vec) \<Rightarrow> 'b vec" where
  "and_then x f = (case x of Inl e \<Rightarrow> Inl e | Inr y \<Rightarrow> f y)"

lemma and_then_simps [simp]: "and_then (Inl e) f = Inl e" "and_then (Inr y) f = f y"
  by (simp_all add: and_then_def)

text \<open>A call of the node's code: its exceptions pass through.\<close>

definition calling :: "'a result \<Rightarrow> 'a vec" where
  "calling r = map_sum Failed id r"

lemma calling_simps [simp]: "calling (Inl e) = Inl (Failed e)" "calling (Inr y) = Inr y"
  by (simp_all add: calling_def)

lemma and_then_Inr: "and_then x f = Inr z \<longleftrightarrow> (\<exists>y. x = Inr y \<and> f y = Inr z)"
  by (cases x) auto

lemma calling_Inr: "calling r = Inr y \<longleftrightarrow> r = Inr y"
  by (cases r) auto

text \<open>Statements one after the other, up to the first that raises.\<close>

fun in_order :: "unit vec list \<Rightarrow> unit vec" where
  "in_order [] = Inr ()"
| "in_order (s # ss) = and_then s (\<lambda>_. in_order ss)"

lemma in_order_ok: "in_order ss = Inr () \<longleftrightarrow> (\<forall>s \<in> set ss. s = Inr ())"
  by (induction ss) (auto simp: and_then_def split: sum.splits)

definition check :: "bool \<Rightarrow> string \<Rightarrow> unit vec" where
  "check ok msg = (if ok then Inr () else Inl (AssertionError msg))"

lemma check_ok [simp]: "check ok msg = Inr u \<longleftrightarrow> ok" "check True msg = Inr ()"
  by (simp_all add: check_def)

section \<open>Values\<close>

text \<open>The number a value is in a comparison.\<close>

fun number_of :: "pyval \<Rightarrow> rat option" where
  "number_of (PBool b) = Some (if b then 1 else 0)"
| "number_of (PNum n) = Some (of_int (num_val n))"
| "number_of (PDec m k) = Some (of_int m / 10 ^ Suc k)"
| "number_of _ = None"

text \<open>\<open>==\<close>: numbers by value, lists item by item, dicts whatever the order of their keys.\<close>

fun py_eq :: "pyval \<Rightarrow> pyval \<Rightarrow> bool" where
  "py_eq (PList vs) w = (case w of PList ws \<Rightarrow> list_all2 py_eq vs ws | _ \<Rightarrow> False)"
| "py_eq (PDict kvs) w =
     (case w of
        PDict kws \<Rightarrow> length kvs = length kws \<and>
          (\<forall>kv \<in> set kvs. case map_of kws (fst kv) of None \<Rightarrow> False | Some u \<Rightarrow> py_eq (snd kv) u)
      | _ \<Rightarrow> False)"
| "py_eq v w =
     (case (number_of v, number_of w) of (Some a, Some b) \<Rightarrow> a = b | _ \<Rightarrow> v = w)"

fun distinct_keys :: "pyval \<Rightarrow> bool" where
  "distinct_keys (PList vs) \<longleftrightarrow> (\<forall>v \<in> set vs. distinct_keys v)"
| "distinct_keys (PDict kvs) \<longleftrightarrow> distinct (map fst kvs) \<and> (\<forall>kv \<in> set kvs. distinct_keys (snd kv))"
| "distinct_keys _ \<longleftrightarrow> True"

lemma py_eq_refl: "distinct_keys v \<Longrightarrow> py_eq v v"
proof (induction v)
  case (PDict kvs)
  show ?case
  proof (simp, intro ballI)
    fix kv assume kv: "kv \<in> set kvs"
    moreover have "snd kv \<in> Basic_BNFs.snds kv" by (cases kv) simp
    ultimately have "py_eq (snd kv) (snd kv)" using PDict by auto
    moreover have "map_of kvs (fst kv) = Some (snd kv)" using PDict.prems kv by (cases kv) simp
    ultimately show "case map_of kvs (fst kv) of None \<Rightarrow> False | Some u \<Rightarrow> py_eq (snd kv) u" by simp
  qed
qed (auto simp: list_all2_same)

text \<open>\<open>v[k]\<close>, and the same where the value must have a type; a value of another type that the code would only store or
  compare later is outside the domain (\<open>UntypedField\<close>).\<close>

definition item :: "pyval \<Rightarrow> string \<Rightarrow> pyval vec" where
  "item v k = (case v of PDict d \<Rightarrow> calling (get_item k d) | _ \<Rightarrow> Inl (Failed TypeError))"

definition str_item :: "pyval \<Rightarrow> string \<Rightarrow> string vec" where
  "str_item v k = and_then (item v k) (\<lambda>x. case x of PStr s \<Rightarrow> Inr s | _ \<Rightarrow> Inl (Failed (UntypedField k)))"

definition num_item :: "pyval \<Rightarrow> string \<Rightarrow> pynum vec" where
  "num_item v k = and_then (item v k) (\<lambda>x. case x of PNum n \<Rightarrow> Inr n | _ \<Rightarrow> Inl (Failed (UntypedField k)))"

definition int_item :: "pyval \<Rightarrow> string \<Rightarrow> int vec" where
  "int_item v k = and_then (item v k) (\<lambda>x. case x of PNum (PyInt i) \<Rightarrow> Inr i | _ \<Rightarrow> Inl (Failed (UntypedField k)))"

definition list_item :: "pyval \<Rightarrow> string \<Rightarrow> pyval list vec" where
  "list_item v k = and_then (item v k) (\<lambda>x. case x of PList vs \<Rightarrow> Inr vs | _ \<Rightarrow> Inl (Failed (UntypedField k)))"

text \<open>\<open>{k: v[k] for k in keys}\<close>.\<close>

fun pick_items :: "pyval \<Rightarrow> string list \<Rightarrow> (string \<times> pyval) list vec" where
  "pick_items v [] = Inr []"
| "pick_items v (k # ks) = and_then (item v k) (\<lambda>x. and_then (pick_items v ks) (\<lambda>d. Inr ((k, x) # d)))"

text \<open>\<open>xs[i]\<close> for \<open>0 <= i\<close>.\<close>

definition at_index :: "pyval list \<Rightarrow> nat \<Rightarrow> pyval vec" where
  "at_index xs i = (if i < length xs then Inr (xs ! i) else Inl (Failed IndexError))"

text \<open>\<open>check(v[k] == x, msg)\<close>.\<close>

definition check_item :: "pyval \<Rightarrow> string \<Rightarrow> pyval \<Rightarrow> string \<Rightarrow> unit vec" where
  "check_item v k x msg = and_then (item v k) (\<lambda>y. check (py_eq y x) msg)"

lemma item_PDict: "item (PDict d) k = (case map_of d k of None \<Rightarrow> Inl (Failed (KeyError k)) | Some v \<Rightarrow> Inr v)"
  by (simp add: item_def get_item_def split: option.splits)

text \<open>\<open>write\<close> and \<open>load\<close>.\<close>

definition write_vector :: "string \<Rightarrow> pyval \<Rightarrow> vector_dir \<Rightarrow> vector_dir" where
  "write_vector name payload files = dict_set name payload files"

definition load_vector :: "vector_dir \<Rightarrow> string \<Rightarrow> pyval vec" where
  "load_vector files name = (case map_of files name of None \<Rightarrow> Inl (FileNotFoundError name) | Some v \<Rightarrow> Inr v)"

lemma load_vector_write: "load_vector (write_vector n v files) m = (if m = n then Inr v else load_vector files m)"
  by (simp add: load_vector_def write_vector_def)

definition hex_bytes :: "string \<Rightarrow> string" where
  "hex_bytes s = hex (utf8 s)"

text \<open>The reason texts of \<open>validate_base_units\<close>, \<open>validate_transaction\<close> and \<open>_state_from_chain\<close>, which the vectors
  contain.\<close>

fun tx_reason_text :: "tx_reason \<Rightarrow> string" where
  "tx_reason_text AmountNotInteger = ''SYJ amount must be an integer number of base units.''"
| "tx_reason_text AmountNotPositive = ''SYJ amount must be positive.''"
| "tx_reason_text AmountExceedsSupply = ''SYJ amount exceeds the maximum SYJ supply.''"
| "tx_reason_text SenderEqualsReceiver = ''Sender and receiver must differ.''"
| "tx_reason_text SignatureFailed = ''Transaction signature verification failed.''"

fun state_reason_text :: "state_reason option \<Rightarrow> string" where
  "state_reason_text None = ''''"
| "state_reason_text (Some NotExactlyOneCoinbase) = ''Each non-genesis block must contain exactly one coinbase.''"
| "state_reason_text (Some NoIssuanceRemains) =
     ''No SYJ issuance remains; further coinbase issuance is forbidden.''"
| "state_reason_text (Some CoinbaseRewardMismatch) =
     ''Coinbase reward does not match protocol reward or remaining supply.''"
| "state_reason_text (Some SupplyWouldBeExceeded) = ''Maximum SYJ supply would be exceeded.''"
| "state_reason_text (Some (InvalidTransactionIn h r)) = ''Invalid transaction '' @ h @ '': '' @ tx_reason_text r"
| "state_reason_text (Some (InsufficientBalance a needs has)) =
     ''Insufficient balance for '' @ a @ '': needs '' @ show_int needs @ '', has '' @ show_int has @ ''.''"

section \<open>The generator\<close>

text \<open>The constructor of \<open>Block\<close> with its defaults.\<close>

definition mk_Block :: "int \<Rightarrow> string \<Rightarrow> transaction list \<Rightarrow> pynum \<Rightarrow> int \<Rightarrow> int \<Rightarrow> block" where
  "mk_Block i prev txs ts n d = post_init
     \<lparr>index = i, previous_hash = prev, transactions = txs, blk_timestamp = ts, nonce = n, difficulty = d,
      blk_merkle_root = [], block_hash = []\<rparr>"

definition fixed_signature :: string where
  "fixed_signature = ''e66e9a40bea0e745c354af08235f2d61e119f7bdfc9db8532a8c7f67138190d8'' @
     ''197cb130b5a654f0e883fd4c6572d64d80e42e8562bd2a06c78018e3e02994c4''"

definition fixed_transaction :: "crypto \<Rightarrow> pynum \<Rightarrow> int \<Rightarrow> (wallet \<times> transaction) vec" where
  "fixed_transaction C tx_time now =
     and_then (calling (Wallet_from_private_key C (pad_left 64 ''01''))) (\<lambda>wallet.
     and_then (calling (mk_Transaction now (address wallet) (''SYJ'' @ replicate 40 (CHR ''1'')) None (Some tx_time)
                None None [] (Some (PInt 123456789)))) (\<lambda>tx.
       let tx1 = tx\<lparr>sender_public_key := Some (public_key_hex wallet), signature := Some fixed_signature\<rparr>;
           tx2 = tx1\<lparr>tx_hash := tx_compute_hash tx1\<rparr>
       in and_then (check (verify C tx2) []) (\<lambda>_. Inr (wallet, tx2))))"

text \<open>A generator returns the files it writes, in that order.\<close>

definition gen_genesis :: "settings \<Rightarrow> int \<Rightarrow> vector_dir vec" where
  "gen_genesis s now =
     (let cfg = genesis_cfg s in
      and_then (calling (genesis now (gen_previous_hash cfg) (gen_timestamp cfg) (gen_nonce cfg) (gen_message cfg))) (\<lambda>g.
        let header = PDict (header_payload g) in
        Inr [(''genesis.json'', PDict
          [(''vector_format_version'', PInt 1),
           (''reference'', PStr ''Python implementation''),
           (''inputs'', PDict
             [(''index'', PInt 0),
              (''previous_hash'', PStr (gen_previous_hash cfg)),
              (''timestamp'', PNum (gen_timestamp cfg)),
              (''nonce'', PInt (gen_nonce cfg)),
              (''difficulty'', PInt (difficulty g)),
              (''message'', PStr (gen_message cfg))]),
           (''genesis_transaction_hash'', PStr (tx_hash (hd (transactions g)))),
           (''header_payload'', header),
           (''canonical_header_json'', PStr (deterministic_json header)),
           (''canonical_header_utf8_hex'', PStr (hex_bytes (deterministic_json header))),
           (''block_hash'', PStr (block_hash g)),
           (''genesis_allocation'', PStr ''undefined; no allocation is frozen by this vector'')])]))"

definition gen_address :: "crypto \<Rightarrow> vector_dir vec" where
  "gen_address C =
     and_then (calling (Wallet_from_private_key C (pad_left 64 ''01''))) (\<lambda>w.
       Inr [(''address.json'', PDict
         [(''vector_format_version'', PInt 1),
          (''curve'', PStr ''SECP256k1''),
          (''private_key_hex'', PStr (private_key_hex w)),
          (''public_key_representation'', PStr ''VerifyingKey.to_string().hex()''),
          (''public_key_hex'', PStr (public_key_hex w)),
          (''address_rule'', PStr ([CHR 0x22] @ ''SYJ'' @ [CHR 0x22] @ '' + first 40 hex chars of SHA-256(UTF-8(public_key_hex))'')),
          (''public_key_utf8_hex'', PStr (hex_bytes (public_key_hex w))),
          (''public_key_sha256'', PStr (sha256 (public_key_hex w))),
          (''address'', PStr (address w))])])"

text \<open>\<open>hash_payload\<close> is \<open>dict(payload, sender_public_key=..., signature=...)\<close>, as in the transaction's own hash.\<close>

definition gen_transaction :: "crypto \<Rightarrow> pynum \<Rightarrow> int \<Rightarrow> vector_dir vec" where
  "gen_transaction C tx_time now =
     and_then (fixed_transaction C tx_time now) (\<lambda>(w, tx).
       let payload = signing_payload tx; message = signing_message tx;
           payload_hashed = PDict (dict_set ''signature'' (opt_str (signature tx))
             (dict_set ''sender_public_key'' (opt_str (sender_public_key tx)) payload))
       in Inr [(''transaction.json'', PDict
         [(''vector_format_version'', PInt 1),
          (''signature_generation'', PStr ''not deterministic; fixed signature fixture is normative for this vector''),
          (''curve'', PStr ''SECP256k1''),
          (''private_key_hex'', PStr (private_key_hex w)),
          (''public_key_hex'', PStr (public_key_hex w)),
          (''sender'', PStr (sender tx)),
          (''receiver'', PStr (receiver tx)),
          (''amount_base_units'', PInt (amount_base_units tx)),
          (''timestamp'', PNum (tx_timestamp tx)),
          (''signing_payload'', PDict payload),
          (''canonical_signing_message'', PStr message),
          (''canonical_signing_message_utf8_hex'', PStr (hex_bytes message)),
          (''sender_public_key'', opt_str (sender_public_key tx)),
          (''fixed_signature'', opt_str (signature tx)),
          (''signature_verifies'', PBool (verify_signature C (the (sender_public_key tx)) message (the (signature tx)))),
          (''transaction_hash_payload'', payload_hashed),
          (''canonical_transaction_hash_json'', PStr (deterministic_json payload_hashed)),
          (''canonical_transaction_hash_utf8_hex'', PStr (hex_bytes (deterministic_json payload_hashed))),
          (''transaction_hash'', PStr (tx_hash tx))])])"

definition gen_merkle :: "crypto \<Rightarrow> pynum \<Rightarrow> int \<Rightarrow> vector_dir vec" where
  "gen_merkle C tx_time now =
     and_then (fixed_transaction C tx_time now) (\<lambda>(_, tx).
       let leaves = [tx_hash tx, sha256 ''SYJ-vector-leaf-2'', sha256 ''SYJ-vector-leaf-3'', sha256 ''SYJ-vector-leaf-4'',
             sha256 ''SYJ-vector-leaf-5''];
           cases = map (\<lambda>(name, vals). PDict [(''name'', PStr name), (''transaction_hashes'', PList (map PStr vals)),
               (''expected_merkle_root'', PStr (merkle_root vals))])
             [(''empty'', []), (''one'', take 1 leaves), (''two'', take 2 leaves), (''three'', take 3 leaves),
              (''five'', take 5 leaves)]
       in Inr [(''merkle.json'', PDict
         [(''vector_format_version'', PInt 1), (''leaf_rule'', PStr ''transaction hash strings''),
          (''odd_rule'', PStr ''duplicate final hash at each odd level''),
          (''empty_rule'', PStr ''SHA-256(empty UTF-8 string)''), (''cases'', PList cases)])])"

definition pow_case :: "block \<Rightarrow> int \<Rightarrow> pyval" where
  "pow_case b d = PDict [(''difficulty'', PInt d), (''hash'', PStr (block_hash b)),
     (''meets_difficulty'', PBool (meets_difficulty d b))]"

definition gen_block_pow :: "crypto \<Rightarrow> pynum \<Rightarrow> pynum \<Rightarrow> int \<Rightarrow> vector_dir vec" where
  "gen_block_pow C tx_time blk_time now =
     and_then (fixed_transaction C tx_time now) (\<lambda>(_, tx).
       let b = mk_Block 1 (replicate 64 (CHR ''a'')) [tx] blk_time 104 2;
           header = PDict (header_payload b)
       in Inr [(''block.json'', PDict
           [(''vector_format_version'', PInt 1),
            (''header_fields'', PList [PStr ''index'', PStr ''previous_hash'', PStr ''timestamp'', PStr ''nonce'',
               PStr ''difficulty'', PStr ''merkle_root'']),
            (''header_payload'', header),
            (''canonical_header_json'', PStr (deterministic_json header)),
            (''canonical_header_utf8_hex'', PStr (hex_bytes (deterministic_json header))),
            (''expected_block_hash'', PStr (block_hash b)),
            (''merkle_root'', PStr (blk_merkle_root b))]),
          (''pow.json'', PDict
           [(''vector_format_version'', PInt 1),
            (''rule'', PStr (''hash starts with difficulty count of hexadecimal '' @ [CHR 0x27] @ ''0'' @ [CHR 0x27] @ '' characters'')),
            (''cases'', PList (map (pow_case b) [0, 1, 2, 3]))])])"

text \<open>The window of ten blocks of a retarget case: \<open>first + (last - first) * i // 9\<close>, a float as soon as one time is one.\<close>

definition window_time :: "pynum \<Rightarrow> pynum \<Rightarrow> int \<Rightarrow> pynum" where
  "window_time t0 t9 i =
     (if i = 0 then t0 else if i = 9 then t9
      else
        let v = num_val t0 + (num_val t9 - num_val t0) * i div 9
        in if is_float t0 \<or> is_float t9 then PyFloat v else PyInt v)"

definition window_blocks :: "pynum \<Rightarrow> pynum \<Rightarrow> int \<Rightarrow> block list" where
  "window_blocks t0 t9 base =
     map (\<lambda>i. mk_Block i (replicate 64 (CHR ''0'')) [] (window_time t0 t9 i) 0 base) [0..9]"

definition difficulty_case :: "string \<Rightarrow> pynum \<Rightarrow> pynum \<Rightarrow> int \<Rightarrow> pyval vec" where
  "difficulty_case name t0 t9 base =
     (let blocks = window_blocks t0 t9 base;
          expected = 9 * 30;
          actual = num_minus t9 t0;
          actual' = (if num_val actual \<le> 0 then PyInt 1 else actual);
          min_ts = max 1 (expected div 4); max_ts = expected * 4;
          clamped = max min_ts (min (num_val actual') max_ts);
          current_work = 16 ^ nat (max base 0);
          (num, den) = quotient_of (of_int (current_work * expected) / of_int clamped)
      in and_then (calling (pow_next_difficulty blocks 4 30 1 32 4)) (\<lambda>final.
        Inr (PDict
          [(''name'', PStr name), (''window_size'', PInt 10), (''first_timestamp'', PNum t0),
           (''last_timestamp'', PNum t9), (''actual_timespan'', PNum actual),
           (''expected_timespan'', PInt expected), (''clamped_timespan'', PInt clamped),
           (''previous_difficulty'', PInt base), (''current_work'', PInt current_work),
           (''target_work_numerator'', PInt num), (''target_work_denominator'', PInt den),
           (''target_work'', PStr (show_int num @ ''/'' @ show_int den)), (''expected_difficulty'', PInt final)])))"

fun all_cases :: "pyval vec list \<Rightarrow> pyval list vec" where
  "all_cases [] = Inr []"
| "all_cases (c # cs) = and_then c (\<lambda>v. and_then (all_cases cs) (\<lambda>vs. Inr (v # vs)))"

definition gen_difficulty :: "vector_dir vec" where
  "gen_difficulty =
     and_then (all_cases
       [difficulty_case ''normal'' (PyInt 1000) (PyInt 1270) 4,
        difficulty_case ''faster_than_target'' (PyInt 1000) (PyInt 1068) 4,
        difficulty_case ''slower_than_target'' (PyInt 1000) (PyInt 2080) 4,
        difficulty_case ''extreme_fast_clamped'' (PyInt 1000) (PyInt 1001) 4,
        difficulty_case ''extreme_slow_clamped'' (PyFloat 1000) (PyFloat (1000 + 5000)) 4,
        difficulty_case ''minimum_floor'' (PyInt 1000) (PyInt 2080) 1,
        difficulty_case ''maximum_ceiling'' (PyInt 1000) (PyInt 1068) 32]) (\<lambda>cases.
       Inr [(''difficulty.json'', PDict
         [(''vector_format_version'', PInt 1),
          (''configuration'', PDict
            [(''target_block_time'', PInt 30), (''adjustment_interval'', PInt 10), (''min_difficulty'', PInt 1),
             (''max_difficulty'', PInt 32), (''max_adjustment_factor'', PInt 4)]),
          (''cases'', PList cases)])])"

definition work_blocks :: "(int \<Rightarrow> pynum) \<Rightarrow> int list \<Rightarrow> block list" where
  "work_blocks time ds = map (\<lambda>(i, d). mk_Block i (replicate 64 (CHR ''0'')) [] (time i) 0 d) (zip [0..int (length ds) - 1] ds)"

definition gen_chain_work :: "vector_dir vec" where
  "gen_chain_work =
     (let difficulties = [0, 1, 2, 4, 8];
          blocks = work_blocks (\<lambda>i. PyFloat (1735689600 + i)) difficulties
      in Inr [(''chain_work.json'', PDict
        [(''vector_format_version'', PInt 1), (''rule'', PStr ''sum(16 ** max(block.difficulty, 0))''),
         (''cases'', PList
           [PDict [(''difficulties'', PList (map PInt difficulties)),
              (''per_block_work'', PList (map (\<lambda>d. PInt (16 ^ nat d)) difficulties)),
              (''accumulated_work'', PInt (chain_work blocks))],
            PDict [(''difficulties'', PList [PInt 3, PInt 3, PInt 4]),
              (''per_block_work'', PList [PInt (16 ^ 3), PInt (16 ^ 3), PInt (16 ^ 4)]),
              (''accumulated_work'', PInt (16 ^ 3 + 16 ^ 3 + 16 ^ 4))]])])])"

text \<open>A block with one coinbase, as the monetary cases build them.\<close>

definition coinbase_block :: "int \<Rightarrow> int \<Rightarrow> block \<Rightarrow> string \<Rightarrow> int \<Rightarrow> pynum \<Rightarrow> block vec" where
  "coinbase_block now i prev rcvr amount ts =
     and_then (calling (new_coinbase_base_units now rcvr (PInt amount))) (\<lambda>cb.
       Inr (mk_Block i (block_hash prev) [cb] ts 0 0))"

definition conversions :: "string list" where
  "conversions = [''1'', ''50.0'', ''0.00000001'', ''720000000'']"

definition balances_value :: "balances \<Rightarrow> pyval" where
  "balances_value bal = PDict (map (\<lambda>(a, n). (a, PInt n)) bal)"

definition gen_monetary :: "crypto \<Rightarrow> settings \<Rightarrow> pynum \<Rightarrow> int \<Rightarrow> vector_dir vec" where
  "gen_monetary C s tx_time now =
     and_then (fixed_transaction C tx_time now) (\<lambda>(_, tx).
     and_then (calling (to_base_units (AmtStr ''50.0''))) (\<lambda>reward.
     let rcvr = ''SYJ'' @ replicate 40 (CHR ''2'') in
     and_then (calling (genesis now (replicate 64 (CHR ''0'')) (PyFloat 1735689600) 0 (gen_message (genesis_cfg s)))) (\<lambda>g.
     and_then (coinbase_block now 1 g rcvr reward (PyFloat 1735689630)) (\<lambda>b1.
     let (bal, supply, reason) = state_from_chain C [g, b1] reward MAX_SUPPLY_BASE_UNITS in
     and_then (coinbase_block now 1 g rcvr MAX_SUPPLY_BASE_UNITS (PyFloat 1735689630)) (\<lambda>bmax.
     and_then (coinbase_block now 2 bmax rcvr 1 (PyFloat 1735689660)) (\<lambda>bextra.
     let (_, capped_supply, cap_reason) = state_from_chain C [g, bmax] MAX_SUPPLY_BASE_UNITS MAX_SUPPLY_BASE_UNITS;
         (_, _, exhausted_reason) = state_from_chain C [g, bmax, bextra] reward MAX_SUPPLY_BASE_UNITS;
         (_, _, insufficient_reason) =
           state_from_chain C [g, b1, mk_Block 2 (block_hash b1) [tx] (PyFloat 1735689660) 0 0] reward MAX_SUPPLY_BASE_UNITS;
         over = validate_base_units (PInt (MAX_SUPPLY_BASE_UNITS + 1)) False in
     and_then (calling (map_result (\<lambda>x. to_base_units (AmtStr x)) conversions)) (\<lambda>units.
     and_then (calling (map_result (\<lambda>n. from_base_units (PInt n)) units)) (\<lambda>amounts.
     and_then (calling (format_amount (PInt 123456789))) (\<lambda>formatted.
       Inr [(''monetary.json'', PDict
         [(''vector_format_version'', PInt 1), (''symbol'', PStr ''SYJ''),
          (''base_units_per_syj'', PInt BASE_UNITS_PER_SYJ), (''max_supply_syj'', PStr (show_int MAX_SUPPLY_SYJ)),
          (''max_supply_base_units'', PInt MAX_SUPPLY_BASE_UNITS), (''default_block_reward_syj'', PStr ''50''),
          (''default_block_reward_base_units'', PInt reward),
          (''cases'', PList
            [PDict [(''name'', PStr ''conversion''), (''inputs'', PList (map PStr conversions)),
               (''base_units'', PList (map PInt units)), (''round_trip'', PList (map (PStr \<circ> dec_str) amounts))],
             PDict [(''name'', PStr ''format_amount''), (''base_units'', PInt 123456789), (''formatted'', PStr formatted)],
             PDict [(''name'', PStr ''single_reward_issuance''), (''balances'', balances_value bal),
               (''total_supply'', PInt supply), (''reason'', PStr (state_reason_text reason))],
             PDict [(''name'', PStr ''maximum_supply_boundary''), (''total_supply'', PInt capped_supply),
               (''reason'', PStr (state_reason_text cap_reason))],
             PDict [(''name'', PStr ''post_exhaustion_issuance_rejected''),
               (''reason'', PStr (state_reason_text exhausted_reason))],
             PDict [(''name'', PStr ''insufficient_balance_rejected''),
               (''reason'', PStr (state_reason_text insufficient_reason))],
             PDict [(''name'', PStr ''invalid_conversion_over_supply''), (''valid'', PBool (over = Valid)),
               (''reason'', PStr (case over of Valid \<Rightarrow> [] | Invalid r \<Rightarrow> tx_reason_text r))]])])])))))))))"

text \<open>\<open>main\<close>: what a generator writes stays when a later one raises.  The result is the number of vector files.\<close>

definition write_all :: "vector_dir \<Rightarrow> vector_dir \<Rightarrow> vector_dir" where
  "write_all ws files = fold (\<lambda>(name, payload). write_vector name payload) ws files"

fun run_generators :: "vector_dir vec list \<Rightarrow> vector_dir \<Rightarrow> nat vec \<times> vector_dir" where
  "run_generators [] files = (Inr (length files), files)"
| "run_generators (g # gs) files =
     (case g of Inl e \<Rightarrow> (Inl e, files) | Inr ws \<Rightarrow> run_generators gs (write_all ws files))"

definition generate_main :: "crypto \<Rightarrow> settings \<Rightarrow> pynum \<Rightarrow> pynum \<Rightarrow> int \<Rightarrow> vector_dir \<Rightarrow> nat vec \<times> vector_dir" where
  "generate_main C s tx_time blk_time now files = run_generators
     [gen_genesis s now, gen_address C, gen_transaction C tx_time now, gen_merkle C tx_time now,
      gen_block_pow C tx_time blk_time now, gen_difficulty, gen_chain_work, gen_monetary C s tx_time now] files"

section \<open>The checker\<close>

definition verify_genesis :: "settings \<Rightarrow> int \<Rightarrow> vector_dir \<Rightarrow> unit vec" where
  "verify_genesis s now files =
     and_then (load_vector files ''genesis.json'') (\<lambda>v.
     let cfg = genesis_cfg s in
     and_then (calling (genesis now (gen_previous_hash cfg) (gen_timestamp cfg) (gen_nonce cfg) (gen_message cfg))) (\<lambda>g.
     let header = PDict (header_payload g) in in_order
       [check_item v ''genesis_transaction_hash'' (PStr (tx_hash (hd (transactions g)))) ''genesis tx hash drift'',
        check_item v ''header_payload'' header ''genesis header drift'',
        check_item v ''canonical_header_json'' (PStr (deterministic_json header)) ''genesis serialization drift'',
        check_item v ''canonical_header_utf8_hex'' (PStr (hex_bytes (deterministic_json header))) ''genesis bytes drift'',
        check_item v ''block_hash'' (PStr (block_hash g)) ''genesis block hash drift'']))"

definition verify_address :: "crypto \<Rightarrow> vector_dir \<Rightarrow> unit vec" where
  "verify_address C files =
     and_then (load_vector files ''address.json'') (\<lambda>v.
     and_then (str_item v ''private_key_hex'') (\<lambda>key.
     and_then (calling (Wallet_from_private_key C key)) (\<lambda>w.
     and_then (check_item v ''public_key_hex'' (PStr (public_key_hex w)) ''public key drift'') (\<lambda>_.
     and_then (str_item v ''public_key_hex'') (\<lambda>pk. in_order
       [check_item v ''address'' (PStr (derive_address pk)) ''address drift'',
        check_item v ''public_key_sha256'' (PStr (sha256 pk)) ''address hash drift''])))))"

text \<open>\<open>Transaction(sender=v['sender'], ...)\<close>, which two checks build.\<close>

definition loaded_transaction :: "int \<Rightarrow> pyval \<Rightarrow> transaction vec" where
  "loaded_transaction now v =
     and_then (str_item v ''sender'') (\<lambda>sndr.
     and_then (str_item v ''receiver'') (\<lambda>rcvr.
     and_then (item v ''amount_base_units'') (\<lambda>amount.
     and_then (num_item v ''timestamp'') (\<lambda>ts.
     and_then (str_item v ''sender_public_key'') (\<lambda>pk.
     and_then (str_item v ''fixed_signature'') (\<lambda>sig.
     and_then (str_item v ''transaction_hash'') (\<lambda>h.
       calling (mk_Transaction now sndr rcvr None (Some ts) (Some pk) (Some sig) h (Some amount)))))))))"

definition verify_tx :: "crypto \<Rightarrow> int \<Rightarrow> vector_dir \<Rightarrow> unit vec" where
  "verify_tx C now files =
     and_then (load_vector files ''transaction.json'') (\<lambda>v.
     and_then (loaded_transaction now v) (\<lambda>tx. in_order
       [check_item v ''signing_payload'' (PDict (signing_payload tx)) ''signing payload drift'',
        check_item v ''canonical_signing_message'' (PStr (signing_message tx)) ''signing message drift'',
        check_item v ''canonical_signing_message_utf8_hex'' (PStr (hex_bytes (signing_message tx))) ''signing bytes drift'',
        and_then (str_item v ''public_key_hex'') (\<lambda>pk.
        and_then (str_item v ''fixed_signature'') (\<lambda>sig.
          check (verify_signature C pk (signing_message tx) sig) ''fixed signature no longer verifies'')),
        check_item v ''transaction_hash'' (PStr (tx_compute_hash tx)) ''transaction hash drift'',
        check (verify C tx) ''transaction fixture rejected'']))"

text \<open>The body of the loop of \<open>verify_merkle\<close>; its message reads the name of the case.\<close>

fun strings_of :: "string \<Rightarrow> pyval list \<Rightarrow> string list vec" where
  "strings_of k [] = Inr []"
| "strings_of k (v # vs) =
     (case v of PStr s \<Rightarrow> and_then (strings_of k vs) (\<lambda>ss. Inr (s # ss)) | _ \<Rightarrow> Inl (Failed (UntypedField k)))"

definition merkle_check :: "pyval \<Rightarrow> unit vec" where
  "merkle_check c =
     and_then (list_item c ''transaction_hashes'') (\<lambda>vs.
     and_then (strings_of ''transaction_hashes'' vs) (\<lambda>hs.
     and_then (item c ''expected_merkle_root'') (\<lambda>expected.
     and_then (str_item c ''name'') (\<lambda>name.
       check (py_eq (PStr (merkle_root hs)) expected) (''merkle drift: '' @ name)))))"

definition verify_merkle :: "vector_dir \<Rightarrow> unit vec" where
  "verify_merkle files =
     and_then (load_vector files ''merkle.json'') (\<lambda>v.
     and_then (list_item v ''cases'') (\<lambda>cs. in_order (map merkle_check cs)))"

text \<open>The block is rebuilt from the header alone: no transactions, the Merkle root given.\<close>

definition pow_check :: "block \<Rightarrow> pyval \<Rightarrow> unit vec" where
  "pow_check b c =
     and_then (int_item c ''difficulty'') (\<lambda>d.
       check_item c ''meets_difficulty'' (PBool (meets_difficulty d b)) (''pow drift: '' @ show_int d))"

definition verify_block_pow :: "vector_dir \<Rightarrow> unit vec" where
  "verify_block_pow files =
     and_then (load_vector files ''block.json'') (\<lambda>v.
     and_then (item v ''header_payload'') (\<lambda>h.
     and_then (int_item h ''index'') (\<lambda>i.
     and_then (str_item h ''previous_hash'') (\<lambda>prev.
     and_then (num_item h ''timestamp'') (\<lambda>ts.
     and_then (int_item h ''nonce'') (\<lambda>n.
     and_then (int_item h ''difficulty'') (\<lambda>d.
     and_then (str_item h ''merkle_root'') (\<lambda>root.
     let b = post_init \<lparr>index = i, previous_hash = prev, transactions = [], blk_timestamp = ts, nonce = n,
               difficulty = d, blk_merkle_root = root, block_hash = []\<rparr> in
     and_then (in_order
       [check (py_eq (PDict (header_payload b)) h) ''block header drift'',
        check_item v ''canonical_header_json'' (PStr (deterministic_json h)) ''block serialization drift'',
        check_item v ''canonical_header_utf8_hex'' (PStr (hex_bytes (deterministic_json h))) ''block bytes drift'',
        check_item v ''expected_block_hash'' (PStr (block_hash b)) ''block hash drift'']) (\<lambda>_.
     and_then (load_vector files ''pow.json'') (\<lambda>p.
     and_then (list_item p ''cases'') (\<lambda>cs. in_order (map (pow_check b) cs))))))))))))"

text \<open>One retarget case.  \<open>Fraction\<close> takes integers only: a clamped duration that is a float raises.\<close>

definition difficulty_check :: "pyval \<Rightarrow> unit vec" where
  "difficulty_check c =
     and_then (num_item c ''first_timestamp'') (\<lambda>t0.
     and_then (num_item c ''last_timestamp'') (\<lambda>t9.
     and_then (int_item c ''previous_difficulty'') (\<lambda>base.
     let blocks = window_blocks t0 t9 base;
         actual = num_minus t9 t0;
         actual_guard = (if num_val actual \<le> 0 then PyInt 1 else actual);
         expected = 9 * 30;
         clamped = num_max (PyInt (expected div 4)) (num_min actual_guard (PyInt (expected * 4))) in
     if is_float clamped then Inl (Failed TypeError)
     else
       let current_work = 16 ^ nat (max base 0);
           (num, den) = quotient_of (of_int (current_work * expected) / of_int (num_val clamped)) in
       and_then (calling (pow_next_difficulty blocks 4 30 1 32 4)) (\<lambda>got. in_order
         (map (\<lambda>(key, val).
            and_then (item c key) (\<lambda>found.
            and_then (str_item c ''name'') (\<lambda>name.
              check (py_eq found val) (''difficulty drift '' @ name @ '': '' @ key))))
           [(''actual_timespan'', PNum actual), (''expected_timespan'', PInt expected), (''clamped_timespan'', PNum clamped),
            (''current_work'', PInt current_work), (''target_work_numerator'', PInt num),
            (''target_work_denominator'', PInt den), (''expected_difficulty'', PInt got)])))))"

definition verify_difficulty :: "vector_dir \<Rightarrow> unit vec" where
  "verify_difficulty files =
     and_then (load_vector files ''difficulty.json'') (\<lambda>v.
     and_then (list_item v ''cases'') (\<lambda>cs. in_order (map difficulty_check cs)))"

text \<open>One work case.  \<open>16 ** d\<close> of a negative \<open>d\<close> is a fraction and outside the domain.\<close>

fun work_ints :: "pyval list \<Rightarrow> int list vec" where
  "work_ints [] = Inr []"
| "work_ints (v # vs) =
     (case v of
        PNum (PyInt d) \<Rightarrow>
          if 0 \<le> d then and_then (work_ints vs) (\<lambda>ds. Inr (d # ds)) else Inl (Failed (UntypedField ''difficulties''))
      | _ \<Rightarrow> Inl (Failed (UntypedField ''difficulties'')))"

definition work_check :: "pyval \<Rightarrow> unit vec" where
  "work_check c =
     and_then (list_item c ''difficulties'') (\<lambda>vs.
     and_then (work_ints vs) (\<lambda>ds. in_order
       [check_item c ''per_block_work'' (PList (map (\<lambda>d. PInt (16 ^ nat d)) ds)) ''per-block work drift'',
        check_item c ''accumulated_work'' (PInt (chain_work (work_blocks (\<lambda>i. PyInt (1735689600 + i)) ds)))
          ''chain work drift'']))"

definition verify_work :: "vector_dir \<Rightarrow> unit vec" where
  "verify_work files =
     and_then (load_vector files ''chain_work.json'') (\<lambda>v.
     and_then (list_item v ''cases'') (\<lambda>cs. in_order (map work_check cs)))"

text \<open>\<open>v['cases'][i]\<close>.\<close>

definition case_at :: "pyval \<Rightarrow> nat \<Rightarrow> pyval vec" where
  "case_at v i = and_then (list_item v ''cases'') (\<lambda>cs. at_index cs i)"

definition conversion_checks :: "pyval list \<Rightarrow> unit vec list" where
  "conversion_checks units =
     map (\<lambda>(x, u). and_then (calling (to_base_units (AmtStr x))) (\<lambda>n. check (py_eq (PInt n) u) ''conversion drift''))
       (zip conversions units)"

definition verify_monetary :: "crypto \<Rightarrow> settings \<Rightarrow> int \<Rightarrow> vector_dir \<Rightarrow> unit vec" where
  "verify_monetary C s now files =
     and_then (load_vector files ''monetary.json'') (\<lambda>v.
     and_then (check_item v ''base_units_per_syj'' (PInt BASE_UNITS_PER_SYJ) ''base unit constant drift'') (\<lambda>_.
     and_then (check_item v ''max_supply_base_units'' (PInt MAX_SUPPLY_BASE_UNITS) ''max supply drift'') (\<lambda>_.
     and_then (calling (to_base_units (AmtStr ''50.0''))) (\<lambda>fifty.
     and_then (check_item v ''default_block_reward_base_units'' (PInt fifty) ''reward conversion drift'') (\<lambda>_.
     and_then (case_at v 0) (\<lambda>c0.
     and_then (list_item c0 ''base_units'') (\<lambda>units.
     and_then (in_order (conversion_checks units)) (\<lambda>_.
     and_then (calling (format_amount (PInt 123456789))) (\<lambda>formatted.
     and_then (case_at v 1) (\<lambda>c1.
     and_then (check_item c1 ''formatted'' (PStr formatted) ''amount formatting drift'') (\<lambda>_.
     and_then (calling (genesis now (replicate 64 (CHR ''0'')) (gen_timestamp (genesis_cfg s))
       (gen_nonce (genesis_cfg s)) (gen_message (genesis_cfg s)))) (\<lambda>g.
     let rcvr = ''SYJ'' @ replicate 40 (CHR ''2'') in
     and_then (int_item v ''default_block_reward_base_units'') (\<lambda>reward.
     and_then (coinbase_block now 1 g rcvr reward (PyInt 1735689630)) (\<lambda>b1.
     let (bal, supply, reason) = state_from_chain C [g, b1] reward MAX_SUPPLY_BASE_UNITS in
     and_then (case_at v 2) (\<lambda>c2.
     and_then (in_order
       [check_item c2 ''balances'' (balances_value bal) ''issuance drift'',
        check_item c2 ''total_supply'' (PInt supply) ''issuance drift'',
        check_item c2 ''reason'' (PStr (state_reason_text reason)) ''issuance drift'']) (\<lambda>_.
     and_then (coinbase_block now 1 g rcvr MAX_SUPPLY_BASE_UNITS (PyInt 1735689630)) (\<lambda>bmax.
     let (_, capped_supply, _) = state_from_chain C [g, bmax] MAX_SUPPLY_BASE_UNITS MAX_SUPPLY_BASE_UNITS in
     and_then (check (capped_supply = MAX_SUPPLY_BASE_UNITS) ''max supply boundary drift'') (\<lambda>_.
     and_then (coinbase_block now 2 bmax rcvr 1 (PyInt 1735689660)) (\<lambda>bextra.
     let (_, _, reason2) = state_from_chain C [g, bmax, bextra] reward MAX_SUPPLY_BASE_UNITS in
     and_then (case_at v 4) (\<lambda>c4.
     and_then (check_item c4 ''reason'' (PStr (state_reason_text reason2)) ''exhaustion rule drift'') (\<lambda>_.
     and_then (load_vector files ''transaction.json'') (\<lambda>txv.
     and_then (loaded_transaction now txv) (\<lambda>tx.
     let bad = mk_Block 2 (block_hash b1) [tx] (PyInt 1735689660) 0 0;
         (_, _, reason3) = state_from_chain C [g, b1, bad] reward MAX_SUPPLY_BASE_UNITS in
     and_then (case_at v 5) (\<lambda>c5. in_order
       [check_item c5 ''reason'' (PStr (state_reason_text reason3)) ''insufficient balance rule drift'',
        check (validate_base_units (PInt (MAX_SUPPLY_BASE_UNITS + 1)) False \<noteq> Valid) ''over-supply amount accepted'']))))))))))))))))))))))))"

definition verify_main :: "crypto \<Rightarrow> settings \<Rightarrow> int \<Rightarrow> vector_dir \<Rightarrow> nat vec" where
  "verify_main C s now files =
     and_then (in_order
       [verify_genesis s now files, verify_address C files, verify_tx C now files, verify_merkle files,
        verify_block_pow files, verify_difficulty files, verify_work files, verify_monetary C s now files])
       (\<lambda>_. Inr (length files))"

section \<open>The fixtures\<close>

definition fixed_wallet :: "crypto \<Rightarrow> wallet" where
  "fixed_wallet C = \<lparr>private_key_hex = pad_left 64 ''01'', public_key_hex = point_hex (ec_public C 1),
     address = derive_address (point_hex (ec_public C 1))\<rparr>"

definition fixture :: "crypto \<Rightarrow> pynum \<Rightarrow> transaction" where
  "fixture C tx_time =
     (let tx = \<lparr>sender = address (fixed_wallet C), receiver = ''SYJ'' @ replicate 40 (CHR ''1''),
        amount_base_units = 123456789, tx_timestamp = tx_time,
        sender_public_key = Some (public_key_hex (fixed_wallet C)), signature = Some fixed_signature, tx_hash = []\<rparr>
      in tx\<lparr>tx_hash := tx_compute_hash tx\<rparr>)"

lemma wallet_of_one: "Wallet_from_private_key C (pad_left 64 ''01'') = Inr (fixed_wallet C)"
proof -
  have raw: "fromhex (pad_left 64 ''01'') = Some (replicate 31 0 @ [1])" "lower (pad_left 64 ''01'') = pad_left 64 ''01''"
    "length (replicate 31 0 @ [1 :: byte]) = 32" "from_bytes_big (replicate 31 0 @ [1]) = 1"
    by code_simp+
  show ?thesis
    unfolding Wallet_from_private_key_def raw(1) option.case raw(2-4)
    by (simp add: SECP256K1_ORDER_def Let_def fixed_wallet_def)
qed

lemma fixture_hashed [simp]: "tx_compute_hash (fixture C t) = tx_hash (fixture C t)"
  by (simp add: fixture_def Let_def tx_compute_hash_def hash_payload_def signing_payload_def)

lemma fixture_fields [simp]:
  "sender (fixture C t) = address (fixed_wallet C)" "receiver (fixture C t) = ''SYJ'' @ replicate 40 (CHR ''1'')"
  "amount_base_units (fixture C t) = 123456789" "tx_timestamp (fixture C t) = t"
  "sender_public_key (fixture C t) = Some (public_key_hex (fixed_wallet C))" "signature (fixture C t) = Some fixed_signature"
  by (simp_all add: fixture_def Let_def)

lemma fixed_wallet_fields [simp]:
  "address (fixed_wallet C) = derive_address (public_key_hex (fixed_wallet C))"
  "private_key_hex (fixed_wallet C) = pad_left 64 ''01''"
  by (simp_all add: fixed_wallet_def)

lemma fixture_not_coinbase [simp]: "\<not> is_coinbase (fixture C t)"
  using derive_address_valid coinbase_sender_not_address by (metis is_coinbase_def fixture_fields(1) fixed_wallet_fields(1))

lemma fixed_transaction_value: "fixed_transaction C t now =
    (if verify C (fixture C t) then Inr (fixed_wallet C, fixture C t) else Inl (AssertionError []))"
  by (simp add: fixed_transaction_def wallet_of_one mk_Transaction_base_units Let_def check_def fixture_def fixed_wallet_def
      tx_compute_hash_def hash_payload_def signing_payload_def)

lemma rebuild_fixture:
  "mk_Transaction now (sender (fixture C t)) (receiver (fixture C t)) None (Some t) (Some (public_key_hex (fixed_wallet C)))
     (Some fixed_signature) (tx_hash (fixture C t)) (Some (PInt 123456789)) = Inr (fixture C t)"
  using tx_compute_hash_nonempty [of "fixture C t"] by (simp add: mk_Transaction_def Let_def fixture_def)

section \<open>A generated file passes its check\<close>

lemma genesis_clock: "genesis now prev ts n m = genesis 0 prev ts n m"
  by (simp add: genesis_def mk_Transaction_def Let_def)

lemma distinct_header: "distinct_keys (PDict (header_payload b))"
  by (simp add: header_payload_def)

lemma py_eq_str [simp]: "py_eq v (PStr b) \<longleftrightarrow> v = PStr b"
  by (cases v) auto

lemma py_eq_number [simp]: "py_eq (PNum a) (PNum b) \<longleftrightarrow> num_val a = num_val b" "py_eq (PBool p) (PBool q) \<longleftrightarrow> p = q"
  by auto

lemmas vec_simps = item_PDict check_item_def str_item_def num_item_def int_item_def list_item_def case_at_def at_index_def

lemma genesis_checked:
  assumes "gen_genesis s now = Inr ws" "load_vector files ''genesis.json'' = Inr (snd (hd ws))"
  shows "verify_genesis s now' files = Inr ()"
proof -
  let ?cfg = "genesis_cfg s"
  obtain g where g: "genesis 0 (gen_previous_hash ?cfg) (gen_timestamp ?cfg) (gen_nonce ?cfg) (gen_message ?cfg) = Inr g"
    using genesis_value by blast
  have eq: "py_eq (PDict (header_payload g)) (PDict (header_payload g))" by (rule py_eq_refl [OF distinct_header])
  from assms g eq show ?thesis
    by (auto simp: gen_genesis_def verify_genesis_def genesis_clock [of now] genesis_clock [of now'] Let_def vec_simps
        simp del: py_eq.simps)
qed

lemma address_checked:
  assumes "gen_address C = Inr ws" "load_vector files ''address.json'' = Inr (snd (hd ws))"
  shows "verify_address C files = Inr ()"
  using assms by (auto simp: gen_address_def verify_address_def wallet_of_one vec_simps simp del: py_eq.simps)

lemma transaction_checked:
  assumes "gen_transaction C t now = Inr ws" "load_vector files ''transaction.json'' = Inr (snd (hd ws))"
  shows "verify_tx C now' files = Inr () \<and>
    and_then (load_vector files ''transaction.json'') (loaded_transaction now'') = Inr (fixture C t)"
proof -
  have ok: "verify C (fixture C t)" using assms(1) by (auto simp: gen_transaction_def fixed_transaction_value split: if_splits)
  let ?v = "snd (hd ws)"
  have eq: "py_eq (PDict (signing_payload (fixture C t))) (PDict (signing_payload (fixture C t)))"
    by (rule py_eq_refl) (simp add: signing_payload_def)
  have load: "loaded_transaction m ?v = Inr (fixture C t)" for m
    using assms(1) ok rebuild_fixture [of m C t]
    by (auto simp: gen_transaction_def fixed_transaction_value loaded_transaction_def Let_def vec_simps)
  obtain pk sig where "sender_public_key (fixture C t) = Some pk" "signature (fixture C t) = Some sig"
    "verify_signature C pk (signing_message (fixture C t)) sig"
    using verify_signed [OF ok fixture_not_coinbase] by blast
  then show ?thesis using assms ok eq load
    by (auto simp: gen_transaction_def fixed_transaction_value verify_tx_def Let_def vec_simps simp del: py_eq.simps)
qed

lemma strings_of_map [simp]: "strings_of k (map PStr ss) = Inr ss"
  by (induction ss) auto

lemma merkle_checked:
  assumes "gen_merkle C t now = Inr ws" "load_vector files ''merkle.json'' = Inr (snd (hd ws))"
  shows "verify_merkle files = Inr ()"
proof -
  have ok: "merkle_check (PDict [(''name'', PStr name), (''transaction_hashes'', PList (map PStr vals)),
      (''expected_merkle_root'', PStr (merkle_root vals))]) = Inr ()" for name vals
    by (simp add: merkle_check_def vec_simps)
  from ok assms show ?thesis
    by (auto simp: gen_merkle_def verify_merkle_def fixed_transaction_value in_order_ok Let_def item_PDict list_item_def
        simp del: list.map split: if_splits)
qed

text \<open>A block rebuilt from its header without the transactions has the same hash.\<close>
lemma mk_Block_fields [simp]:
  "index (mk_Block i prev txs ts n d) = i" "previous_hash (mk_Block i prev txs ts n d) = prev"
  "transactions (mk_Block i prev txs ts n d) = txs" "blk_timestamp (mk_Block i prev txs ts n d) = ts"
  "nonce (mk_Block i prev txs ts n d) = n" "difficulty (mk_Block i prev txs ts n d) = d"
  "sealed (mk_Block i prev txs ts n d)"
  by (simp_all add: mk_Block_def post_init_sealed)

lemma rebuild_from_header:
  assumes "sealed b" "blk_merkle_root b \<noteq> []"
  defines "r \<equiv> post_init \<lparr>index = index b, previous_hash = previous_hash b, transactions = [],
    blk_timestamp = blk_timestamp b, nonce = nonce b, difficulty = difficulty b, blk_merkle_root = blk_merkle_root b,
    block_hash = []\<rparr>"
  shows "header_payload r = header_payload b" "block_hash r = block_hash b"
  using assms by (simp_all add: post_init_def header_payload_def compute_hash_def sealed_def)

lemma block_pow_checked:
  assumes "gen_block_pow C t bt now = Inr ws"
    and "load_vector files ''block.json'' = Inr (snd (hd ws))" "load_vector files ''pow.json'' = Inr (snd (hd (tl ws)))"
  shows "verify_block_pow files = Inr ()"
proof -
  define b where "b = mk_Block 1 (replicate 64 (CHR ''a'')) [fixture C t] bt 104 2"
  have b: "index b = 1" "previous_hash b = replicate 64 (CHR ''a'')" "blk_timestamp b = bt" "nonce b = 104" "difficulty b = 2"
    "sealed b" by (simp_all add: b_def)
  have "blk_merkle_root b = merkle_root [tx_hash (fixture C t)]"
  proof -
    have "compute_merkle_root b = merkle_root [tx_hash (fixture C t)]" by (simp add: compute_merkle_root_def b_def)
    with b(6) show ?thesis by (simp add: sealed_def)
  qed
  then have root: "blk_merkle_root b \<noteq> []"
    using tx_compute_hash_nonempty [of "fixture C t"] by (simp add: merkle_root_def merkle_loop.simps)
  note same = rebuild_from_header [OF b(6) root, unfolded b(1-5)]
  have eq: "py_eq (PDict (header_payload b)) (PDict (header_payload b))" by (rule py_eq_refl [OF distinct_header])
  have ws: "ws = [(''block.json'', PDict
           [(''vector_format_version'', PInt 1),
            (''header_fields'', PList [PStr ''index'', PStr ''previous_hash'', PStr ''timestamp'', PStr ''nonce'',
               PStr ''difficulty'', PStr ''merkle_root'']),
            (''header_payload'', PDict (header_payload b)),
            (''canonical_header_json'', PStr (deterministic_json (PDict (header_payload b)))),
            (''canonical_header_utf8_hex'', PStr (hex_bytes (deterministic_json (PDict (header_payload b))))),
            (''expected_block_hash'', PStr (block_hash b)),
            (''merkle_root'', PStr (blk_merkle_root b))]),
          (''pow.json'', PDict
           [(''vector_format_version'', PInt 1),
            (''rule'', PStr (''hash starts with difficulty count of hexadecimal '' @ [CHR 0x27] @ ''0'' @ [CHR 0x27] @ '' characters'')),
            (''cases'', PList (map (pow_case b) [0, 1, 2, 3]))])]"
    using assms(1) by (simp add: gen_block_pow_def fixed_transaction_value b_def Let_def split: if_splits)
  have items: "map_of (header_payload b) ''index'' = Some (PInt 1)"
    "map_of (header_payload b) ''previous_hash'' = Some (PStr (replicate 64 (CHR ''a'')))"
    "map_of (header_payload b) ''timestamp'' = Some (PNum bt)"
    "map_of (header_payload b) ''nonce'' = Some (PInt 104)"
    "map_of (header_payload b) ''difficulty'' = Some (PInt 2)"
    "map_of (header_payload b) ''merkle_root'' = Some (PStr (blk_merkle_root b))"
    by (simp_all add: header_payload_def b)
  have pow: "pow_check r (pow_case b d) = Inr ()" if "block_hash r = block_hash b" for r d
    by (simp add: pow_check_def pow_case_def vec_simps meets_difficulty_def that)
  show ?thesis using eq pow [OF same(2)]
    by (simp add: verify_block_pow_def assms(2,3) ws str_item_def int_item_def num_item_def list_item_def check_item_def
        items same Let_def item_PDict del: py_eq.simps)
qed

lemma window_facts [simp]:
  "length (window_blocks t0 t9 base) = 10" "blk_timestamp (hd (window_blocks t0 t9 base)) = t0"
  "blk_timestamp (last (window_blocks t0 t9 base)) = t9" "difficulty (last (window_blocks t0 t9 base)) = base"
  by (simp_all add: window_blocks_def window_time_def upto.simps)

lemma difficulty_checked:
  assumes "difficulty_case name t0 t9 base = Inr c"
  shows "difficulty_check c = Inr ()"
proof -
  let ?a = "num_minus t9 t0"
  let ?guard = "if num_val ?a \<le> 0 then PyInt 1 else ?a"
  have span: "actual_timespan (window_blocks t0 t9 base) = ?guard" by (simp add: actual_timespan_def)
  obtain final where final: "pow_next_difficulty (window_blocks t0 t9 base) 4 30 1 32 4 = Inr final"
    using assms
    by (cases "pow_next_difficulty (window_blocks t0 t9 base) 4 30 1 32 4") (simp_all add: difficulty_case_def Let_def split: prod.splits)
  then have "\<not> is_float (clamped_timespan 270 4 ?guard)"
    by (auto simp: pow_next_difficulty_def span Let_def split: if_splits)
  then have "\<not> is_float (num_max (PyInt 67) (num_min ?guard (PyInt 1080)))"
    by (simp add: clamped_timespan_def)
  moreover have "num_val (num_max (PyInt 67) (num_min ?guard (PyInt 1080))) = max 67 (min (num_val ?guard) 1080)" by simp
  ultimately show ?thesis using assms final
    by (auto simp: difficulty_case_def difficulty_check_def Let_def vec_simps split: prod.splits simp del: num_val_ops)
qed

text \<open>The retarget of a window of ten blocks.\<close>
lemma window_retarget:
  assumes "\<not> is_float (clamped_timespan 270 4 (actual_timespan (window_blocks t0 t9 base)))"
    and "num_val (clamped_timespan 270 4 (actual_timespan (window_blocks t0 t9 base))) = c" "0 \<le> base"
  shows "pow_next_difficulty (window_blocks t0 t9 base) 4 30 1 mx 4 =
    (let w = of_int (16 ^ nat base * 270) / of_int c in
     case (if w > of_int (16 ^ nat base) then Inr (raise_loop w mx base)
           else if w < of_int (16 ^ nat base) then lower_loop w 1 base else Inr base) of
       Inl e \<Rightarrow> Inl e | Inr n \<Rightarrow> Inr (max 1 (min n mx)))"
  using assms next_difficulty_measurable [of "window_blocks t0 t9 base" 30 4 4 1 mx]
  by (simp add: measurable_def window_work_def Let_def)

lemma window_span: "actual_timespan (window_blocks t0 t9 base) = (let t = num_minus t9 t0 in if num_val t \<le> 0 then PyInt 1 else t)"
  by (simp add: actual_timespan_def)

lemmas window_eval = window_retarget window_span clamped_timespan_def num_minus_def num_min_def num_max_def Let_def

lemma retarget_values:
  "pow_next_difficulty (window_blocks (PyInt 1000) (PyInt 1270) 4) 4 30 1 32 4 = Inr 4"
  "pow_next_difficulty (window_blocks (PyInt 1000) (PyInt 1068) 4) 4 30 1 32 4 = Inr 4"
  "pow_next_difficulty (window_blocks (PyInt 1000) (PyInt 2080) 4) 4 30 1 32 4 = Inr 3"
  "pow_next_difficulty (window_blocks (PyInt 1000) (PyInt 1001) 4) 4 30 1 32 4 = Inr 5"
  "pow_next_difficulty (window_blocks (PyFloat 1000) (PyFloat 6000) 4) 4 30 1 32 4 = Inr 3"
  "pow_next_difficulty (window_blocks (PyInt 1000) (PyInt 2080) 1) 4 30 1 32 4 = Inr 1"
  "32 \<le> mx \<Longrightarrow> pow_next_difficulty (window_blocks (PyInt 1000) (PyInt 1068) 32) 4 30 1 mx 4 = Inr 32"
  by (simp_all add: window_eval raise_loop.simps lower_loop.simps)

lemma fractions:
  "quotient_of (of_int (16 ^ nat (max 4 0) * (9 * 30)) / of_int 270) = (65536, 1)"
  "quotient_of (of_int (16 ^ nat (max 4 0) * (9 * 30)) / of_int 68) = (4423680, 17)"
  "quotient_of (of_int (16 ^ nat (max 4 0) * (9 * 30)) / of_int 1080) = (16384, 1)"
  "quotient_of (of_int (16 ^ nat (max 4 0) * (9 * 30)) / of_int 67) = (17694720, 67)"
  "quotient_of (of_int (16 ^ nat (max 1 0) * (9 * 30)) / of_int 1080) = (4, 1)"
  "quotient_of (of_int (16 ^ nat (max 32 0) * (9 * 30)) / of_int 68) = (22969059767163346283777786001644354273280, 17)"
  by code_simp+

text \<open>A case as the frozen file has it.\<close>

definition frozen_case ::
  "string \<Rightarrow> pynum \<Rightarrow> pynum \<Rightarrow> int \<Rightarrow> pynum \<Rightarrow> int \<Rightarrow> int \<Rightarrow> int \<times> int \<Rightarrow> string \<Rightarrow> int \<Rightarrow> pyval" where
  "frozen_case name t0 t9 base actual clamped work target text expected = PDict
     [(''name'', PStr name), (''window_size'', PInt 10), (''first_timestamp'', PNum t0), (''last_timestamp'', PNum t9),
      (''actual_timespan'', PNum actual), (''expected_timespan'', PInt 270), (''clamped_timespan'', PInt clamped),
      (''previous_difficulty'', PInt base), (''current_work'', PInt work), (''target_work_numerator'', PInt (fst target)),
      (''target_work_denominator'', PInt (snd target)), (''target_work'', PStr text),
      (''expected_difficulty'', PInt expected)]"

definition frozen_difficulty :: "pyval list" where
  "frozen_difficulty =
     [frozen_case ''normal'' (PyInt 1000) (PyInt 1270) 4 (PyInt 270) 270 65536 (65536, 1) ''65536/1'' 4,
      frozen_case ''faster_than_target'' (PyInt 1000) (PyInt 1068) 4 (PyInt 68) 68 65536 (4423680, 17) ''4423680/17'' 4,
      frozen_case ''slower_than_target'' (PyInt 1000) (PyInt 2080) 4 (PyInt 1080) 1080 65536 (16384, 1) ''16384/1'' 3,
      frozen_case ''extreme_fast_clamped'' (PyInt 1000) (PyInt 1001) 4 (PyInt 1) 67 65536 (17694720, 67) ''17694720/67'' 5,
      frozen_case ''extreme_slow_clamped'' (PyFloat 1000) (PyFloat 6000) 4 (PyFloat 5000) 1080 65536 (16384, 1) ''16384/1'' 3,
      frozen_case ''minimum_floor'' (PyInt 1000) (PyInt 2080) 1 (PyInt 1080) 1080 16 (4, 1) ''4/1'' 1,
      frozen_case ''maximum_ceiling'' (PyInt 1000) (PyInt 1068) 32 (PyInt 68) 68
        340282366920938463463374607431768211456 (22969059767163346283777786001644354273280, 17)
        ''22969059767163346283777786001644354273280/17'' 32]"

lemma shown:
  "show_int 1 = ''1''" "show_int 4 = ''4''" "show_int 17 = ''17''" "show_int 67 = ''67''" "show_int 16384 = ''16384''"
  "show_int 65536 = ''65536''" "show_int 4423680 = ''4423680''" "show_int 17694720 = ''17694720''"
  "show_int 22969059767163346283777786001644354273280 = ''22969059767163346283777786001644354273280''"
  by code_simp+

lemma difficulty_case_values:
  "difficulty_case name t0 t9 base =
     (let actual = num_minus t9 t0;
          clamped = max 67 (min (if num_val actual \<le> 0 then 1 else num_val actual) 1080);
          target = quotient_of (of_int (16 ^ nat (max base 0) * (9 * 30)) / of_int clamped) in
      and_then (calling (pow_next_difficulty (window_blocks t0 t9 base) 4 30 1 32 4)) (\<lambda>final.
        Inr (frozen_case name t0 t9 base actual clamped (16 ^ nat (max base 0)) target
          (show_int (fst target) @ ''/'' @ show_int (snd target)) final)))"
  by (simp add: difficulty_case_def frozen_case_def Let_def case_prod_beta)

lemma frozen_cases:
  "all_cases
     [difficulty_case ''normal'' (PyInt 1000) (PyInt 1270) 4,
      difficulty_case ''faster_than_target'' (PyInt 1000) (PyInt 1068) 4,
      difficulty_case ''slower_than_target'' (PyInt 1000) (PyInt 2080) 4,
      difficulty_case ''extreme_fast_clamped'' (PyInt 1000) (PyInt 1001) 4,
      difficulty_case ''extreme_slow_clamped'' (PyFloat 1000) (PyFloat (1000 + 5000)) 4,
      difficulty_case ''minimum_floor'' (PyInt 1000) (PyInt 2080) 1,
      difficulty_case ''maximum_ceiling'' (PyInt 1000) (PyInt 1068) 32] = Inr frozen_difficulty"
proof -
  note q = fractions [simplified]
  show ?thesis
    by (simp add: difficulty_case_values retarget_values frozen_difficulty_def num_minus_def shown q)
qed

lemma gen_difficulty_value:
  "gen_difficulty = Inr [(''difficulty.json'', PDict
    [(''vector_format_version'', PInt 1),
     (''configuration'', PDict
       [(''target_block_time'', PInt 30), (''adjustment_interval'', PInt 10), (''min_difficulty'', PInt 1),
        (''max_difficulty'', PInt 32), (''max_adjustment_factor'', PInt 4)]),
     (''cases'', PList frozen_difficulty)])]"
  unfolding gen_difficulty_def frozen_cases by simp

lemma all_cases_members: "all_cases cs = Inr vs \<Longrightarrow> v \<in> set vs \<Longrightarrow> Inr v \<in> set cs"
  by (induction cs arbitrary: vs) (auto simp: and_then_def split: sum.splits)

lemma difficulty_file_checked:
  assumes "gen_difficulty = Inr ws" "load_vector files ''difficulty.json'' = Inr (snd (hd ws))"
  shows "verify_difficulty files = Inr ()"
proof -
  have "difficulty_check c = Inr ()" if "c \<in> set frozen_difficulty" for c
    using all_cases_members [OF frozen_cases that] by (auto dest: sym intro: difficulty_checked)
  with assms show ?thesis
    by (auto simp: gen_difficulty_value verify_difficulty_def list_item_def item_PDict in_order_ok)
qed

lemma work_ints_map [simp]: "list_all (\<lambda>d. 0 \<le> d) ds \<Longrightarrow> work_ints (map PInt ds) = Inr ds"
  by (induction ds) auto

lemma chain_work_blocks: "chain_work (work_blocks f ds) = sum_list (map (\<lambda>d. 16 ^ nat (max d 0)) ds)"
proof -
  let ?z = "zip [0..int (length ds) - 1] ds" and ?w = "\<lambda>d. 16 ^ nat (max d 0) :: int"
  have "map (\<lambda>x. ?w (snd x)) ?z = map ?w (map snd ?z)" by (simp only: map_map comp_def)
  also have "map snd ?z = ds" by (simp add: map_snd_zip)
  finally show ?thesis by (simp add: chain_work_def work_blocks_def case_prod_beta comp_def)
qed

lemma gen_chain_work_value:
  "gen_chain_work = Inr [(''chain_work.json'', PDict
    [(''vector_format_version'', PInt 1), (''rule'', PStr ''sum(16 ** max(block.difficulty, 0))''),
     (''cases'', PList
       [PDict [(''difficulties'', PList [PInt 0, PInt 1, PInt 2, PInt 4, PInt 8]),
          (''per_block_work'', PList [PInt 1, PInt 16, PInt 256, PInt 65536, PInt 4294967296]),
          (''accumulated_work'', PInt 4295033105)],
        PDict [(''difficulties'', PList [PInt 3, PInt 3, PInt 4]),
          (''per_block_work'', PList [PInt 4096, PInt 4096, PInt 65536]),
          (''accumulated_work'', PInt 73728)]])])]"
  by (simp add: gen_chain_work_def chain_work_blocks)

lemma chain_work_checked:
  assumes "gen_chain_work = Inr ws" "load_vector files ''chain_work.json'' = Inr (snd (hd ws))"
  shows "verify_work files = Inr ()"
proof -
  have eq: "list_all2 py_eq (map (\<lambda>n. PInt n) ns) (map (\<lambda>n. PInt n) ns)" for ns by (simp add: list_all2_same)
  show ?thesis using assms
    by (auto simp: gen_chain_work_value verify_work_def work_check_def vec_simps chain_work_blocks)
qed

section \<open>The monetary cases\<close>

definition coinbase_of :: "int \<Rightarrow> string \<Rightarrow> int \<Rightarrow> transaction" where
  "coinbase_of now rcvr amount =
     (let tx = \<lparr>sender = COINBASE_SENDER, receiver = rcvr, amount_base_units = amount, tx_timestamp = PyInt now,
        sender_public_key = None, signature = None, tx_hash = []\<rparr> in tx\<lparr>tx_hash := tx_compute_hash tx\<rparr>)"

lemma coinbase_of_fields [simp]:
  "is_coinbase (coinbase_of now rcvr n)" "receiver (coinbase_of now rcvr n) = rcvr" "amount_base_units (coinbase_of now rcvr n) = n"
  by (simp_all add: coinbase_of_def is_coinbase_def Let_def)

lemma coinbase_block_value:
  "coinbase_block now i prev rcvr n ts = Inr (mk_Block i (block_hash prev) [coinbase_of now rcvr n] ts 0 0)"
  by (simp add: coinbase_block_def new_coinbase_base_units_def mk_Transaction_base_units coinbase_of_def Let_def)

lemma replay_coinbase:
  "i \<noteq> 0 \<Longrightarrow> replay_block C r mx (mk_Block i prev [coinbase_of now rcvr n] ts 0 0) (bal, s) =
     (let e = min r (mx - s) in
      if e \<le> 0 then Inl (NoIssuanceRemains, s) else if n \<noteq> e then Inl (CoinbaseRewardMismatch, s)
      else Inr (credit rcvr n bal, s + n))"
  by (auto simp: replay_block_def Let_def min_def)

lemma replay_uncovered:
  "i \<noteq> 0 \<Longrightarrow> filter is_coinbase txs = [] \<Longrightarrow>
     replay_block C r mx (mk_Block i prev txs ts 0 0) (bal, s) = Inl (NotExactlyOneCoinbase, s)"
  by (simp add: replay_block_def)

text \<open>The file \<open>monetary.json\<close> as it is frozen.\<close>

definition frozen_monetary :: pyval where
  "frozen_monetary = PDict
     [(''vector_format_version'', PInt 1), (''symbol'', PStr ''SYJ''),
      (''base_units_per_syj'', PInt 100000000), (''max_supply_syj'', PStr ''720000000''),
      (''max_supply_base_units'', PInt 72000000000000000), (''default_block_reward_syj'', PStr ''50''),
      (''default_block_reward_base_units'', PInt 5000000000),
      (''cases'', PList
        [PDict [(''name'', PStr ''conversion''),
           (''inputs'', PList [PStr ''1'', PStr ''50.0'', PStr ''0.00000001'', PStr ''720000000'']),
           (''base_units'', PList [PInt 100000000, PInt 5000000000, PInt 1, PInt 72000000000000000]),
           (''round_trip'', PList [PStr ''1'', PStr ''50'', PStr ''1E-8'', PStr ''720000000''])],
         PDict [(''name'', PStr ''format_amount''), (''base_units'', PInt 123456789), (''formatted'', PStr ''1.23456789'')],
         PDict [(''name'', PStr ''single_reward_issuance''),
           (''balances'', PDict [(''SYJ2222222222222222222222222222222222222222'', PInt 5000000000)]),
           (''total_supply'', PInt 5000000000), (''reason'', PStr '''')],
         PDict [(''name'', PStr ''maximum_supply_boundary''), (''total_supply'', PInt 72000000000000000), (''reason'', PStr '''')],
         PDict [(''name'', PStr ''post_exhaustion_issuance_rejected''),
           (''reason'', PStr ''Coinbase reward does not match protocol reward or remaining supply.'')],
         PDict [(''name'', PStr ''insufficient_balance_rejected''),
           (''reason'', PStr ''Each non-genesis block must contain exactly one coinbase.'')],
         PDict [(''name'', PStr ''invalid_conversion_over_supply''), (''valid'', PBool False),
           (''reason'', PStr ''SYJ amount exceeds the maximum SYJ supply.'')]])]"

lemma conversion_values:
  "to_base_units (AmtStr ''50.0'') = Inr 5000000000"
  "map_result (\<lambda>x. to_base_units (AmtStr x)) conversions = Inr [100000000, 5000000000, 1, 72000000000000000]"
  "map_result (\<lambda>n. from_base_units (PInt n)) [100000000, 5000000000, 1, 72000000000000000] =
     Inr [Dec 1 0, Dec 50 0, Dec 1 (- 8), Dec 720000000 0]"
  "map dec_str [Dec 1 0, Dec 50 0, Dec 1 (- 8), Dec 720000000 0] = [''1'', ''50'', ''1E-8'', ''720000000'']"
  "format_amount (PInt 123456789) = Inr ''1.23456789''"
  "show_int MAX_SUPPLY_SYJ = ''720000000''"
  by code_simp+

lemma monetary_states:
  assumes "index g = 0"
  shows "state_from_chain C [g, mk_Block 1 p [coinbase_of now rcvr 5000000000] ts 0 0] 5000000000 MAX_SUPPLY_BASE_UNITS =
      ([(rcvr, 5000000000)], 5000000000, None)"
    and "state_from_chain C [g, mk_Block 1 p [coinbase_of now rcvr MAX_SUPPLY_BASE_UNITS] ts 0 0]
      MAX_SUPPLY_BASE_UNITS MAX_SUPPLY_BASE_UNITS = ([(rcvr, MAX_SUPPLY_BASE_UNITS)], MAX_SUPPLY_BASE_UNITS, None)"
    and "state_from_chain C (g # mk_Block 1 p [coinbase_of now rcvr MAX_SUPPLY_BASE_UNITS] ts 0 0 # bs) 5000000000
      MAX_SUPPLY_BASE_UNITS = ([], 0, Some CoinbaseRewardMismatch)"
    and "filter is_coinbase txs = [] \<Longrightarrow>
      state_from_chain C [g, mk_Block 1 p [coinbase_of now rcvr 5000000000] ts 0 0, mk_Block 2 p' txs ts' 0 0] 5000000000
      MAX_SUPPLY_BASE_UNITS = ([], 5000000000, Some NotExactlyOneCoinbase)"
  using assms by (simp_all add: state_from_chain_def replay_coinbase replay_uncovered Let_def max_supply_value credit_def)

lemmas monetary_eval = monetary_states [unfolded max_supply_value]

lemma conversion_parts:
  "map PStr conversions = [PStr ''1'', PStr ''50.0'', PStr ''0.00000001'', PStr ''720000000'']"
  "in_order (conversion_checks [PInt 100000000, PInt 5000000000, PInt 1, PInt 72000000000000000]) = Inr ()"
  using conversion_values(2) by (auto simp: conversions_def conversion_checks_def split: sum.splits)

lemma genesis_index: "\<exists>g. genesis now prev ts n m = Inr g \<and> index g = 0"
  using genesis_value by blast

lemma gen_monetary_value:
  "gen_monetary C s t now =
     (if verify C (fixture C t) then Inr [(''monetary.json'', frozen_monetary)] else Inl (AssertionError []))"
proof -
  obtain g where g: "genesis now (replicate 64 (CHR ''0'')) (PyFloat 1735689600) 0 (gen_message (genesis_cfg s)) = Inr g"
    "index g = 0" using genesis_index by blast
  have rcvr: "''SYJ'' @ replicate 40 (CHR ''2'') = ''SYJ2222222222222222222222222222222222222222''" by (simp add: numeral_nat)
  show ?thesis
    unfolding gen_monetary_def fixed_transaction_value rcvr
    using conversion_values(4)
    by (simp add: g monetary_eval conversion_values(1-3,5,6) coinbase_block_value balances_value_def frozen_monetary_def
        conversion_parts BASE_UNITS_PER_SYJ_def max_supply_value validate_base_units_def Let_def
        del: mk_Block_fields dec_str.simps map_result.simps)
qed

lemma monetary_checked:
  assumes "load_vector files ''monetary.json'' = Inr frozen_monetary"
    and "and_then (load_vector files ''transaction.json'') (loaded_transaction now) = Inr (fixture C t)"
  shows "verify_monetary C s now files = Inr ()"
proof -
  obtain g where g: "genesis now (replicate 64 (CHR ''0'')) (gen_timestamp (genesis_cfg s)) (gen_nonce (genesis_cfg s))
      (gen_message (genesis_cfg s)) = Inr g" "index g = 0" using genesis_index by blast
  obtain txv where txv: "load_vector files ''transaction.json'' = Inr txv" "loaded_transaction now txv = Inr (fixture C t)"
    using assms(2) by (auto simp: and_then_def split: sum.splits)
  have rcvr: "''SYJ'' @ replicate 40 (CHR ''2'') = ''SYJ2222222222222222222222222222222222222222''" by (simp add: numeral_nat)
  show ?thesis
    unfolding verify_monetary_def rcvr assms(1)
    by (simp add: g monetary_eval txv conversion_values(1,5) coinbase_block_value balances_value_def frozen_monetary_def
        conversion_parts BASE_UNITS_PER_SYJ_def max_supply_value validate_base_units_def vec_simps Let_def
        del: mk_Block_fields)
qed

section \<open>A whole run\<close>

lemma write_all_simps [simp]: "write_all [] files = files" "write_all ((n, p) # ws) files = write_all ws (write_vector n p files)"
  by (simp_all add: write_all_def)

lemma gens_shape:
  "\<exists>v. gen_genesis s now = Inr [(''genesis.json'', v)]" "\<exists>v. gen_address C = Inr [(''address.json'', v)]"
  "\<exists>v. gen_chain_work = Inr [(''chain_work.json'', v)]"
proof -
  show "\<exists>v. gen_genesis s now = Inr [(''genesis.json'', v)]"
  proof -
    obtain g where "genesis now (gen_previous_hash (genesis_cfg s)) (gen_timestamp (genesis_cfg s)) (gen_nonce (genesis_cfg s))
        (gen_message (genesis_cfg s)) = Inr g" using genesis_index by blast
    then show ?thesis by (simp add: gen_genesis_def Let_def)
  qed
qed (simp_all add: gen_address_def wallet_of_one gen_chain_work_value)

lemma gens_with_fixture:
  assumes "verify C (fixture C t)"
  shows "\<exists>v. gen_transaction C t now = Inr [(''transaction.json'', v)]" "\<exists>v. gen_merkle C t now = Inr [(''merkle.json'', v)]"
    "\<exists>v w. gen_block_pow C t bt now = Inr [(''block.json'', v), (''pow.json'', w)]"
  using assms by (simp_all add: gen_transaction_def gen_merkle_def gen_block_pow_def fixed_transaction_value Let_def)

lemma generation:
  assumes "verify C (fixture C t)"
  shows "\<exists>n out. generate_main C s t bt now files = (Inr n, out) \<and> verify_main C s now' out = Inr n"
proof -
  obtain v1 v2 v7 where u: "gen_genesis s now = Inr [(''genesis.json'', v1)]" "gen_address C = Inr [(''address.json'', v2)]"
    "gen_chain_work = Inr [(''chain_work.json'', v7)]" using gens_shape by metis
  obtain v3 v4 v5 v5' where f: "gen_transaction C t now = Inr [(''transaction.json'', v3)]"
    "gen_merkle C t now = Inr [(''merkle.json'', v4)]"
    "gen_block_pow C t bt now = Inr [(''block.json'', v5), (''pow.json'', v5')]" using gens_with_fixture [OF assms] by metis
  obtain v6 where d: "gen_difficulty = Inr [(''difficulty.json'', v6)]" using gen_difficulty_value by metis
  have m: "gen_monetary C s t now = Inr [(''monetary.json'', frozen_monetary)]" using assms by (simp add: gen_monetary_value)
  define out where "out = write_all [(''genesis.json'', v1), (''address.json'', v2), (''transaction.json'', v3),
    (''merkle.json'', v4), (''block.json'', v5), (''pow.json'', v5'), (''difficulty.json'', v6), (''chain_work.json'', v7),
    (''monetary.json'', frozen_monetary)] files"
  have run: "generate_main C s t bt now files = (Inr (length out), out)"
    by (simp add: generate_main_def u f d m out_def)
  have files: "load_vector out ''genesis.json'' = Inr v1" "load_vector out ''address.json'' = Inr v2"
    "load_vector out ''transaction.json'' = Inr v3" "load_vector out ''merkle.json'' = Inr v4"
    "load_vector out ''block.json'' = Inr v5" "load_vector out ''pow.json'' = Inr v5'"
    "load_vector out ''difficulty.json'' = Inr v6" "load_vector out ''chain_work.json'' = Inr v7"
    "load_vector out ''monetary.json'' = Inr frozen_monetary"
    by (simp_all add: out_def load_vector_write)
  note tx = transaction_checked [OF f(1), of out now' now', simplified, OF files(3)]
  have "verify_main C s now' out = Inr (length out)"
    unfolding verify_main_def
    using genesis_checked [OF u(1)] address_checked [OF u(2)] tx merkle_checked [OF f(2)] block_pow_checked [OF f(3)]
      difficulty_file_checked [OF d] chain_work_checked [OF u(3)] monetary_checked [OF files(9), of now' C t s] files
    by simp
  with run show ?thesis by blast
qed

lemma failed_generation:
  assumes "\<not> verify C (fixture C t)"
  shows "\<exists>v w. generate_main C s t bt now files =
    (Inl (AssertionError []), write_all [(''genesis.json'', v), (''address.json'', w)] files)"
proof -
  obtain v w where "gen_genesis s now = Inr [(''genesis.json'', v)]" "gen_address C = Inr [(''address.json'', w)]"
    using gens_shape by metis
  then show ?thesis using assms
    by (auto simp: generate_main_def gen_transaction_def fixed_transaction_value)
qed

section \<open>Properties\<close>


lemma fixed_signature_bytes:
  "case fromhex fixed_signature of None \<Rightarrow> False
   | Some sig \<Rightarrow> length sig = 64 \<and> from_bytes_big (drop 32 sig) \<noteq> 0 \<and> from_bytes_big (drop 32 sig) \<le> SECP256K1_ORDER div 2"
  by code_simp

lemma sample_fixture: "verify sample_crypto (fixture sample_crypto t)"
proof -
  have pk: "public_key_hex (fixed_wallet sample_crypto) = point_hex (1, 2)"
    by (simp add: fixed_wallet_def sample_crypto_def)
  obtain sig where sig: "fromhex fixed_signature = Some sig" "length sig = 64" "from_bytes_big (drop 32 sig) \<noteq> 0"
    "from_bytes_big (drop 32 sig) \<le> SECP256K1_ORDER div 2"
    using fixed_signature_bytes by (auto split: option.splits)
  have "verify_signature sample_crypto (point_hex (1, 2)) m fixed_signature" for m
    using sig by (simp add: verify_signature_def point_hex_def Let_def sample_crypto_def del: to_bytes_big.simps)
  moreover have "is_valid_address (''SYJ'' @ replicate 40 (CHR ''1''))"
    by (rule is_valid_address_hex) (simp_all add: is_lower_hex_def)
  moreover have "point_hex (1, 2) \<noteq> []" using length_point_hex [of "(1, 2)"] by force
  moreover have "fixed_signature \<noteq> []" by (simp add: fixed_signature_def)
  ultimately show ?thesis
    by (simp add: verify_def validate_base_units_def max_supply_value pk)
qed




lemma check_item_Inr: "check_item v k (PStr x) msg = Inr u \<longleftrightarrow> item v k = Inr (PStr x)"
  by (auto simp: check_item_def and_then_Inr)

lemma strings_of_Inr: "strings_of k vs = Inr ss \<longleftrightarrow> vs = map PStr ss"
  by (induction vs arbitrary: ss) (auto simp: and_then_Inr split: pyval.splits)

lemma genesis_pinned:
  assumes "verify_genesis s now files = Inr ()"
  shows "\<exists>v g. load_vector files ''genesis.json'' = Inr v \<and> genesis now (gen_previous_hash (genesis_cfg s))
      (gen_timestamp (genesis_cfg s)) (gen_nonce (genesis_cfg s)) (gen_message (genesis_cfg s)) = Inr g \<and>
    item v ''block_hash'' = Inr (PStr (block_hash g)) \<and>
    item v ''canonical_header_json'' = Inr (PStr (deterministic_json (PDict (header_payload g))))"
  using assms by (auto simp: verify_genesis_def and_then_Inr calling_Inr in_order_ok check_item_Inr Let_def
      simp del: in_order.simps py_eq.simps)

lemma transaction_pinned:
  assumes "verify_tx C now files = Inr ()"
  shows "\<exists>v tx. load_vector files ''transaction.json'' = Inr v \<and> loaded_transaction now v = Inr tx \<and> verify C tx \<and>
    item v ''canonical_signing_message'' = Inr (PStr (signing_message tx))"
  using assms by (auto simp: verify_tx_def and_then_Inr in_order_ok check_item_Inr simp del: in_order.simps py_eq.simps)

lemma merkle_case_pinned:
  assumes "merkle_check c = Inr ()"
  shows "\<exists>hs. list_item c ''transaction_hashes'' = Inr (map PStr hs) \<and> item c ''expected_merkle_root'' = Inr (PStr (merkle_root hs))"
proof -
  have eq: "py_eq (PStr a) w \<longleftrightarrow> w = PStr a" for a w by (cases w) auto
  show ?thesis using assms by (auto simp: merkle_check_def and_then_Inr strings_of_Inr eq simp del: py_eq.simps)
qed

text \<open>What passes the checker records what the code computes: the genesis block's hash and header text, a transaction that
  verifies and its signing text, and for every Merkle case the root of its hashes.\<close>
theorem passing_vectors_pin_code:
  assumes "verify_main C s now files = Inr n"
  shows "(\<exists>v g. load_vector files ''genesis.json'' = Inr v \<and> genesis now (gen_previous_hash (genesis_cfg s))
        (gen_timestamp (genesis_cfg s)) (gen_nonce (genesis_cfg s)) (gen_message (genesis_cfg s)) = Inr g \<and>
      item v ''block_hash'' = Inr (PStr (block_hash g)) \<and>
      item v ''canonical_header_json'' = Inr (PStr (deterministic_json (PDict (header_payload g))))) \<and>
    (\<exists>v tx. load_vector files ''transaction.json'' = Inr v \<and> loaded_transaction now v = Inr tx \<and> verify C tx \<and>
      item v ''canonical_signing_message'' = Inr (PStr (signing_message tx))) \<and>
    (\<exists>v cs. load_vector files ''merkle.json'' = Inr v \<and> list_item v ''cases'' = Inr cs \<and>
      (\<forall>c \<in> set cs. \<exists>hs. list_item c ''transaction_hashes'' = Inr (map PStr hs) \<and>
        item c ''expected_merkle_root'' = Inr (PStr (merkle_root hs))))"
proof -
  have "verify_genesis s now files = Inr ()" "verify_tx C now files = Inr ()" "verify_merkle files = Inr ()"
    using assms by (auto simp: verify_main_def and_then_Inr in_order_ok simp del: in_order.simps)
  note ok = this
  from ok(3) obtain v cs where m: "load_vector files ''merkle.json'' = Inr v" "list_item v ''cases'' = Inr cs"
    "\<forall>c \<in> set cs. merkle_check c = Inr ()"
    by (auto simp: verify_merkle_def and_then_Inr in_order_ok simp del: in_order.simps)
  with merkle_case_pinned have "\<forall>c \<in> set cs. \<exists>hs. list_item c ''transaction_hashes'' = Inr (map PStr hs) \<and>
      item c ''expected_merkle_root'' = Inr (PStr (merkle_root hs))" by blast
  with genesis_pinned [OF ok(1)] transaction_pinned [OF ok(2)] m(1,2) show ?thesis by blast
qed

text \<open>A signature library that rejects the fixture stops the generator: it fails with an \<open>AssertionError\<close> that
  has no message, after the first two files are replaced, and every other file stays as it was.\<close>
theorem rejected_fixture_leaves_old_vectors:
  assumes "fixed_transaction C tx_time now = Inl e" "name \<noteq> ''genesis.json''" "name \<noteq> ''address.json''"
  shows "e = AssertionError [] \<and> fst (generate_main C s tx_time blk_time now files) = Inl e \<and>
    load_vector (snd (generate_main C s tx_time blk_time now files)) name = load_vector files name"
proof -
  have "\<not> verify C (fixture C tx_time)" "e = AssertionError []"
    using assms(1) by (auto simp: fixed_transaction_value split: if_splits)
  with failed_generation [of C tx_time s blk_time now files] assms(2,3) show ?thesis
    by (auto simp: load_vector_write)
qed

text \<open>The vector \<open>maximum_ceiling\<close> does not test the ceiling: its window asks for less than a factor of sixteen over
  four, so the difficulty stays 32 under any maximum from 32 on, as it would with no ceiling at all.\<close>
theorem ceiling_vector_without_effect:
  assumes "32 \<le> mx"
  shows "pow_next_difficulty (window_blocks (PyInt 1000) (PyInt 1068) 32) 4 30 1 mx 4 = Inr 32"
  using assms by (rule retarget_values(7))

text \<open>Two monetary vectors do not test the rule they are named after.  \<open>post_exhaustion_issuance_rejected\<close>: the replay
  stops at the block before the extra one, whose coinbase is not the reward of this run, whatever blocks follow.
  \<open>insufficient_balance_rejected\<close>: the block has no coinbase, and the replay stops there whatever the sender has.\<close>
theorem misnamed_monetary_vectors:
  assumes "index g = 0" "coinbase_block now 1 g rcvr MAX_SUPPLY_BASE_UNITS ts = Inr bmax"
    and "coinbase_block now 1 g rcvr 5000000000 ts = Inr b1" "filter is_coinbase txs = []"
  shows "state_from_chain C (g # bmax # bs) 5000000000 MAX_SUPPLY_BASE_UNITS = ([], 0, Some CoinbaseRewardMismatch) \<and>
    state_from_chain C [g, b1, mk_Block 2 (block_hash b1) txs ts' 0 0] 5000000000 MAX_SUPPLY_BASE_UNITS =
      ([], 5000000000, Some NotExactlyOneCoinbase)"
  using assms by (auto simp: coinbase_block_value monetary_states)

text \<open>The hash a case of \<open>pow.json\<close> records is never compared: a case passes with any other hash in its place.\<close>
theorem pow_hash_unchecked:
  "pow_check b (PDict (dict_set ''hash'' h kvs)) = pow_check b (PDict kvs)"
  by (simp add: pow_check_def vec_simps)

end
