(* ===== verification/V2_Vectors.thy ===== *)
theory V2_Vectors
  imports V2_Reference Vectors
begin

text \<open>
  The vector of the second protocol version: \<open>main\<close> of \<open>scripts/phase8/v2_reference.py\<close>, which signs one transaction
  and writes \<open>primary.json\<close>, and \<open>scripts/phase8/verify_v2_vectors.py\<close>, which checks that file with another library.
  That library is the argument \<open>L\<close>: the check that public numbers are a point of the curve, and the verification of a
  signature over a digest.  \<open>None\<close> is a search for a nonce that does not end.
\<close>

record ecdsa_library =
  lib_on_curve :: "int \<Rightarrow> int \<Rightarrow> bool"
  lib_verify :: "int \<Rightarrow> int \<Rightarrow> int \<Rightarrow> int \<Rightarrow> bytes \<Rightarrow> bool"

section \<open>Writing the vector\<close>

definition primary_public_key :: string where
  "primary_public_key = ''79be667ef9dcbbac55a06295ce870b07029bfcdb2dce28d959f2815b16f81798'' @
     ''483ada7726a3c4655da4fbfc0e1108a8fd17b448a68554199c47d08ffb10d4b8''"

definition primary_transaction :: "bytes \<Rightarrow> v2_transaction" where
  "primary_transaction pub =
     \<lparr>v2_version = 2, v2_network_id = fst effective_network_id,
      v2_sender = ''SYJaf533e027d9d6ccc0958c470c26ea9d96a9b76fd'', v2_receiver = ''SYJ1111111111111111111111111111111111111111'',
      v2_amount_base_units = 123456789, v2_nonce = 0, v2_timestamp = PDec 173568960125 1,
      v2_sender_public_key = hex pub\<rparr>"

text \<open>\<open>tx\<close> as a dict.\<close>

definition v2_tx_dict :: "v2_transaction \<Rightarrow> (string \<times> pyval) list" where
  "v2_tx_dict tx =
     [(''version'', PInt (v2_version tx)), (''network_id'', PStr (v2_network_id tx)), (''sender'', PStr (v2_sender tx)),
      (''receiver'', PStr (v2_receiver tx)), (''amount_base_units'', PInt (v2_amount_base_units tx)),
      (''nonce'', PInt (v2_nonce tx)), (''timestamp'', v2_timestamp tx),
      (''sender_public_key'', PStr (v2_sender_public_key tx))]"

text \<open>\<open>out\<close>.  The canonical texts are ASCII: \<open>decode\<close> gives back the text that was encoded.\<close>

definition v2_out :: "v2_transaction \<Rightarrow> bytes \<Rightarrow> pyval" where
  "v2_out tx sig = PDict
     [(''effective_network_id'', PStr (fst effective_network_id)),
      (''effective_network_id_canonical_json'', PStr (map (\<lambda>b. char_of (unat b)) (snd effective_network_id))),
      (''wire_network_name'', PStr (''syjnet-v2-'' @ fst effective_network_id)),
      (''genesis_state_commitment'', PStr ''36351980711cd88fe6ff134f0e4e858ee1a4572a9f44b7bde9f57213e7f1eb82''),
      (''historical_genesis_hash'', PStr ''5c95d2d7b63bde94fbfcfe4c2a95850ca96e0fc649e93e545b8b32f3a9c7cc1b''),
      (''signing_payload'', v2_payload tx),
      (''canonical_signing_payload'', PStr (deterministic_json (v2_payload tx))),
      (''signing_bytes_utf8_hex'', PStr (hex (v2_signing_bytes tx))),
      (''signing_digest'', PStr (hex (v2_digest tx))),
      (''signature'', PStr (hex sig)),
      (''signature_low_s'', PBool (from_bytes_big (drop 32 sig) \<le> HALF_N)),
      (''signature_verifies'', PBool True),
      (''tx_id'', PStr (v2_tx_id tx)),
      (''transaction'', PDict (dict_set ''tx_id'' (PStr (v2_tx_id tx)) (dict_set ''signature'' (PStr (hex sig)) (v2_tx_dict tx))))]"

definition v2_main :: "pyval vec option" where
  "v2_main =
     (case fromhex primary_public_key of
        None \<Rightarrow> Some (Inl (Failed ValueError))
      | Some pub \<Rightarrow>
          let pub_xy = (from_bytes_big (take 32 pub), from_bytes_big (drop 32 pub));
              tx = primary_transaction pub in
          map_option (\<lambda>signed.
            and_then (calling signed) (\<lambda>sig.
            and_then (calling (v2_verify (Some pub_xy) (v2_digest tx) sig)) (\<lambda>ok.
            and_then (check ok []) (\<lambda>_. Inr (v2_out tx sig)))))
            (v2_sign 1 (v2_digest tx)))"

section \<open>Checking it\<close>

definition payload_keys :: "string list" where
  "payload_keys = [''amount_base_units'', ''network_id'', ''nonce'', ''receiver'', ''sender'', ''sender_public_key'',
     ''timestamp'', ''version'']"

definition bytes_item :: "pyval \<Rightarrow> string \<Rightarrow> bytes vec" where
  "bytes_item v k = and_then (str_item v k) (\<lambda>s. case fromhex s of None \<Rightarrow> Inl (Failed ValueError) | Some bs \<Rightarrow> Inr bs)"

definition verify_v2_main :: "ecdsa_library \<Rightarrow> pyval \<Rightarrow> (string \<times> string \<times> string) vec" where
  "verify_v2_main L v =
     and_then (item v ''transaction'') (\<lambda>tx.
     and_then (pick_items tx payload_keys) (\<lambda>payload.
     let canonical = canon (PDict payload);
         digest = sha256_digest (utf8 ''SYJ-TX-SIGN-V2'' @ [0] @ canonical) in
     and_then (check_item v ''signing_digest'' (PStr (hex digest)) []) (\<lambda>_.
     and_then (check_item v ''tx_id'' (PStr (sha256_hex (utf8 ''SYJ-TX-ID-V2'' @ [0] @ canonical))) []) (\<lambda>_.
     and_then (bytes_item tx ''sender_public_key'') (\<lambda>pub.
     and_then (bytes_item tx ''signature'') (\<lambda>sig.
     let x = from_bytes_big (take 32 pub); y = from_bytes_big (drop 32 pub) in
     if \<not> lib_on_curve L x y then Inl (Failed ValueError)
     else if \<not> lib_verify L x y (from_bytes_big (take 32 sig)) (from_bytes_big (drop 32 sig)) digest
     then Inl InvalidSignature
     else
       and_then (str_item v ''effective_network_id'') (\<lambda>network_id.
       and_then (str_item v ''signing_digest'') (\<lambda>signing_digest.
       and_then (str_item v ''tx_id'') (\<lambda>tx_id. Inr (network_id, signing_digest, tx_id))))))))))"

section \<open>Properties\<close>

text \<open>The payload the checker rebuilds is the one that was signed.\<close>
lemma rebuilt_payload:
  assumes "v2_version tx = 2"
  shows "\<exists>d. pick_items (PDict (dict_set ''tx_id'' i (dict_set ''signature'' s (v2_tx_dict tx)))) payload_keys = Inr d \<and>
    PDict d = v2_payload tx"
  using assms by (simp add: payload_keys_def v2_tx_dict_def item_PDict v2_payload_def)

text \<open>The checker of version 2 vectors gives the right verdict on a vector the generator lays out: for any transaction
  and any bytes as signature, it rebuilds the digest and the identifier and asks the library about exactly the generator's
  digest, and about the point and the numbers that the hex texts stand for; it raises exactly when the library refuses one of
  them.\<close>
theorem v2_vector_verdict:
  assumes "v2_version tx = 2" "v2_sender_public_key tx = hex pub"
  shows "verify_v2_main L (v2_out tx sig) =
    (if \<not> lib_on_curve L (from_bytes_big (take 32 pub)) (from_bytes_big (drop 32 pub)) then Inl (Failed ValueError)
     else if \<not> lib_verify L (from_bytes_big (take 32 pub)) (from_bytes_big (drop 32 pub)) (from_bytes_big (take 32 sig))
       (from_bytes_big (drop 32 sig)) (v2_digest tx) then Inl InvalidSignature
     else Inr (fst effective_network_id, hex (v2_digest tx), v2_tx_id tx))"
proof -
  let ?tx = "PDict (dict_set ''tx_id'' (PStr (v2_tx_id tx)) (dict_set ''signature'' (PStr (hex sig)) (v2_tx_dict tx)))"
  obtain d where d: "pick_items ?tx payload_keys = Inr d" "PDict d = v2_payload tx"
    using rebuilt_payload [OF assms(1)] by blast
  have out: "item (v2_out tx sig) ''transaction'' = Inr ?tx" "item (v2_out tx sig) ''signing_digest'' = Inr (PStr (hex (v2_digest tx)))"
    "item (v2_out tx sig) ''tx_id'' = Inr (PStr (v2_tx_id tx))"
    "item (v2_out tx sig) ''effective_network_id'' = Inr (PStr (fst effective_network_id))"
    by (simp_all add: v2_out_def item_PDict)
  have tx: "item ?tx ''sender_public_key'' = Inr (PStr (hex pub))" "item ?tx ''signature'' = Inr (PStr (hex sig))"
    using assms(2) by (simp_all add: item_PDict v2_tx_dict_def)
  have dig: "sha256_digest (utf8 ''SYJ-TX-SIGN-V2'' @ [0] @ canon (v2_payload tx)) = v2_digest tx"
    "sha256_hex (utf8 ''SYJ-TX-ID-V2'' @ [0] @ canon (v2_payload tx)) = v2_tx_id tx"
    by (simp_all only: v2_digest_def v2_signing_bytes_def v2_tx_id_def v2_id_bytes_def)
  show ?thesis
    unfolding verify_v2_main_def out(1) and_then_simps d(1) d(2) Let_def dig check_item_def str_item_def bytes_item_def out tx
    by simp
qed

theorem v2_vector_verdict_witness:
  "verify_v2_main \<lparr>lib_on_curve = \<lambda>_ _. True, lib_verify = \<lambda>_ _ _ s _. s = 3\<rparr>
     (v2_out (primary_transaction [1]) (replicate 63 0 @ [3])) =
     Inr (fst effective_network_id, hex (v2_digest (primary_transaction [1])), v2_tx_id (primary_transaction [1])) \<and>
   verify_v2_main \<lparr>lib_on_curve = \<lambda>_ _. True, lib_verify = \<lambda>_ _ _ s _. s = 3\<rparr>
     (v2_out (primary_transaction [1]) (replicate 63 0 @ [4])) = Inl InvalidSignature"
proof -
  have tx: "v2_version (primary_transaction [1]) = 2" "v2_sender_public_key (primary_transaction [1]) = hex [1]"
    by (simp_all add: primary_transaction_def)
  have s: "from_bytes_big (drop 32 (replicate 63 0 @ [3])) = 3" "from_bytes_big (drop 32 (replicate 63 0 @ [4])) = 4"
    by code_simp+
  show ?thesis by (simp only: v2_vector_verdict [OF tx] s) simp
qed

text \<open>What the generator writes, the checker accepts, with a library that accepts what the reference accepts.\<close>
theorem v2_main_verifies:
  assumes "v2_main = Some (Inr v)"
    and "\<And>x y d sig. v2_verify (Some (x, y)) d sig = Inr True \<Longrightarrow>
      lib_on_curve L x y \<and> lib_verify L x y (from_bytes_big (take 32 sig)) (from_bytes_big (drop 32 sig)) d"
  shows "\<exists>report. verify_v2_main L v = Inr report"
proof -
  obtain pub sig where w: "v2_verify (Some (from_bytes_big (take 32 pub), from_bytes_big (drop 32 pub)))
      (v2_digest (primary_transaction pub)) sig = Inr True" "v = v2_out (primary_transaction pub) sig"
    using assms(1)
    by (auto simp: v2_main_def Let_def and_then_Inr calling_Inr split: option.splits)
  have "v2_version (primary_transaction pub) = 2" "v2_sender_public_key (primary_transaction pub) = hex pub"
    by (simp_all add: primary_transaction_def)
  from v2_vector_verdict [OF this] assms(2) [OF w(1)] show ?thesis by (simp add: w(2))
qed

text \<open>The checker prints the file's \<open>effective_network_id\<close> without comparing it with anything: a file with any other
  text in its place passes just the same.\<close>
theorem v2_network_id_unchecked:
  assumes "verify_v2_main L (PDict d) = Inr (network_id, signing_digest, tx_id)"
  shows "verify_v2_main L (PDict (dict_set ''effective_network_id'' (PStr other) d)) = Inr (other, signing_digest, tx_id)"
proof -
  have other: "item (PDict (dict_set ''effective_network_id'' (PStr other) d)) k =
      (if k = ''effective_network_id'' then Inr (PStr other) else item (PDict d) k)" for k
    by (simp add: item_PDict)
  show ?thesis using assms unfolding verify_v2_main_def check_item_def
    by (auto simp: and_then_Inr Let_def str_item_def other split: if_splits)
qed

end
