(* ===== verification/Run_Compare.thy ===== *)
theory Run_Compare
  imports Vectors
begin

text \<open>
  \<open>scripts/phase10_1/compare_runs.py\<close>: the comparison of two recorded runs on the fields that consensus determines.  A
  recording is the list of the JSON values of its lines.
\<close>

definition FIELDS :: "string list" where
  "FIELDS = [''height'', ''hash'', ''previous_hash'', ''timestamp'', ''timestamp_delta'', ''difficulty'',
     ''required_target_prefix'', ''cumulative_work'', ''transaction_count'', ''state_root'', ''merkle_root'',
     ''validation_result'', ''expected_difficulty'', ''expected_difficulty_ok'']"

fun load_run :: "pyval list \<Rightarrow> pyval list vec" where
  "load_run [] = Inr []"
| "load_run (obj # objs) =
     and_then (pick_items obj FIELDS) (\<lambda>d. and_then (load_run objs) (\<lambda>ds. Inr (PDict d # ds)))"

text \<open>What is printed; \<open>Silent\<close> is the last \<open>return 1\<close>, which prints nothing.\<close>

datatype comparison = Usage | DifferenceAt nat pyval pyval | CountDiffers nat nat | Silent | Identical nat

fun exit_code :: "comparison \<Rightarrow> int" where
  "exit_code Usage = 2"
| "exit_code (Identical _) = 0"
| "exit_code _ = 1"

text \<open>The loop over \<open>enumerate(zip(a, b), 1)\<close>.\<close>

fun first_difference :: "nat \<Rightarrow> pyval list \<Rightarrow> pyval list \<Rightarrow> comparison option" where
  "first_difference idx (l # ls) (r # rs) =
     (if \<not> py_eq l r then Some (DifferenceAt idx l r) else first_difference (Suc idx) ls rs)"
| "first_difference idx _ _ = None"

definition compare_main :: "pyval list list \<Rightarrow> comparison vec" where
  "compare_main args =
     (case args of
        [run_a, run_b] \<Rightarrow>
          and_then (load_run run_a) (\<lambda>a.
          and_then (load_run run_b) (\<lambda>b.
            if \<not> list_all2 py_eq a b then
              (case first_difference 1 a b of
                 Some d \<Rightarrow> Inr d
               | None \<Rightarrow> if length a \<noteq> length b then Inr (CountDiffers (length a) (length b)) else Inr Silent)
            else Inr (Identical (length a))))
      | _ \<Rightarrow> Inr Usage)"

section \<open>The verdict\<close>

lemma first_difference_None: "first_difference i a b = None \<longleftrightarrow> (\<forall>k < min (length a) (length b). py_eq (a ! k) (b ! k))"
proof (induction i a b rule: first_difference.induct)
  case (1 idx l ls r rs)
  then show ?case by (auto simp: less_Suc_eq_0_disj)
qed auto

lemma first_difference_Some:
  "first_difference i a b = Some d \<Longrightarrow> \<exists>k. k < min (length a) (length b) \<and> \<not> py_eq (a ! k) (b ! k) \<and>
     (\<forall>j < k. py_eq (a ! j) (b ! j)) \<and> d = DifferenceAt (i + k) (a ! k) (b ! k)"
proof (induction i a b rule: first_difference.induct)
  case (1 idx l ls r rs)
  show ?case
  proof (cases "py_eq l r")
    case True
    with 1 obtain k where "k < min (length ls) (length rs)" "\<not> py_eq (ls ! k) (rs ! k)" "\<forall>j < k. py_eq (ls ! j) (rs ! j)"
      "d = DifferenceAt (Suc idx + k) (ls ! k) (rs ! k)" by auto
    with True show ?thesis by (intro exI [of _ "Suc k"]) (auto simp: less_Suc_eq_0_disj)
  qed (use 1 in auto)
qed auto

text \<open>Two recordings compare as identical exactly when they have as many records and the records agree on every field.
  Otherwise the first record that differs is reported with its number, counted from one, or, when one recording is a
  prefix of the other, the counts; the last \<open>return 1\<close> is never reached.\<close>
theorem comparison_verdict:
  assumes "load_run run_a = Inr a" "load_run run_b = Inr b"
  shows "\<exists>c. compare_main [run_a, run_b] = Inr c \<and> c \<noteq> Silent \<and> c \<noteq> Usage \<and>
    (exit_code c = 0 \<longleftrightarrow> list_all2 py_eq a b) \<and>
    (\<forall>n l r. c = DifferenceAt n l r \<longrightarrow> (\<exists>k. n = Suc k \<and> k < min (length a) (length b) \<and> l = a ! k \<and> r = b ! k \<and>
       \<not> py_eq l r \<and> (\<forall>j < k. py_eq (a ! j) (b ! j)))) \<and>
    (\<forall>n m. c = CountDiffers n m \<longrightarrow> n = length a \<and> m = length b \<and> n \<noteq> m)"
proof (cases "list_all2 py_eq a b")
  case True
  then show ?thesis using assms by (simp add: compare_main_def)
next
  case False
  show ?thesis
  proof (cases "first_difference 1 a b")
    case None
    then have "length a \<noteq> length b" using False by (auto simp: first_difference_None list_all2_conv_all_nth)
    with None False assms show ?thesis by (simp add: compare_main_def)
  next
    case (Some d)
    from first_difference_Some [OF this] Some False assms show ?thesis by (auto simp: compare_main_def)
  qed
qed

end
