(* ===== verification/Spec2Isabelle.thy ===== *)
theory Spec2Isabelle
  imports Core_Properties Ratelimit Handshake_Properties Network_Properties Migration State_Root V2_Reference Middleware Installation
    Runtime_Settings Network_Status Vectors V2_Vectors Run_Compare
begin

text \<open>
  \<^bold>\<open>SAYANJALI BLOCKCHAIN: the Python reference node.\<close>

  The node keeps a proof-of-work chain of signed transfers of one asset (SYJ, in integer base units),
  persists it in SQL tables, mines, validates, and exchanges blocks, transactions and whole chains with peers over
  authenticated HTTP, served by an HTTP application and driven by a command line.  This development models the code
  under \<open>src/blockchain\<close>, \<open>src/blockchain/network\<close>, \<open>src/api\<close>, \<open>src/cli\<close> and
  \<open>src/config/settings.py\<close>, one theory per module, with the reference of the second protocol version and the scripts
  that write, check and compare vectors under \<open>src/scripts\<close>, and proves what the modules promise each other and the operator.

  \<^bold>\<open>Modelling.\<close>  Classes are records, enumerations and messages are datatypes, dicts are association
  lists in insertion order (\<open>Pydict\<close>), Python's unbounded integers are \<open>int\<close>, clock readings and float
  seconds are \<open>rat\<close>, JSON values are \<open>pyval\<close>.  An operation that mutates returns the new state; one that
  may raise returns \<open>py_error + 'a\<close>, together with the state where it may have changed before
  the exception.  Loops are recursion; the mining loop counts nonces up to the code's own bound
  \<open>2 ^ 32\<close>, so no fuel is chosen anywhere; the search for a deterministic nonce, which has no bound, is a partial
  function.  Outside code is an argument: ECDSA (\<open>crypto\<close>,
  with the law \<open>crypto_correct\<close>), HTTP transport and the other nodes (\<open>http\<close>), the name service (\<open>dns\<close>), the
  clock, random nonces and fresh keys.  SHA-256 is defined from its standard.

  \<^bold>\<open>Core theories.\<close>
  \<^item> \<open>Prelude\<close>, \<open>Pystring\<close>, \<open>Pydict\<close>: results, verdicts, messages, strings, ordered dicts (locale \<open>keyed_store\<close>
    and its interpretation).
  \<^item> \<open>Sha256\<close>, \<open>Json\<close>, \<open>Utils\<close> (\<open>utils.py\<close>): hashing, deterministic JSON, Merkle root, \<open>BoundedSet\<close>.
    \<open>Json_Text\<close>: the JSON text determines the value up to the order of keys.
  \<^item> \<open>Native_Asset\<close> (\<open>native_asset.py\<close>): amounts through a model of \<open>decimal.Decimal\<close>.
  \<^item> \<open>Wallet\<close>, \<open>Transaction\<close>, \<open>Block\<close> (same-named modules): addresses, signatures, what a hash
    binds, round trips through dicts.
  \<^item> \<open>Settings\<close> (\<open>config/settings.py\<close>): configuration from the environment.  \<open>Runtime_Settings\<close>: the groups that
    name files, and the loggers of the process (\<open>get_logger\<close> in \<open>utils.py\<close>).
  \<^item> \<open>Consensus\<close> (\<open>consensus.py\<close>): mining, validation, retargeting; the engine interface is a locale that the
    proof-of-work engine interprets.
  \<^item> \<open>Mempool\<close>, \<open>Validators\<close>, \<open>Mining\<close>: pool, monetary replay, block and chain validation, assembly.
  \<^item> \<open>Storage\<close> (\<open>storage.py\<close>): the seven tables; reorganisation; tables as a refinement of a chain.
  \<^item> \<open>Migration\<close> (the constructor in \<open>storage.py\<close>): opening a database and copying the tables of old releases, as a
    refinement that keeps the ledger the file records.  \<open>State_Root\<close> (\<open>state_root.py\<close>): the commitment
    to a state and the checkpoint codec; locale \<open>prefix_code\<close> of parts that can be read back.
  \<^item> \<open>Blockchain\<close> (\<open>blockchain.py\<close>): the node object; \<open>Core_Run\<close>: its operations as a step relation in
    which mining is split where the code takes the lock; \<open>Samples\<close>: concrete values;
    \<open>Core_Properties\<close>: the properties that span the core.

  \<^bold>\<open>Network theories.\<close>
  \<^item> \<open>Ratelimit\<close> (\<open>ratelimit.py\<close>), \<open>Identity\<close> (\<open>identity.py\<close>).
  \<^item> \<open>Handshake\<close>, \<open>Handshake_Properties\<close> (\<open>handshake.py\<close>): envelopes, replay cache, challenges.
  \<^item> \<open>Url\<close> (the parts of \<open>urllib.parse\<close> and \<open>ipaddress\<close> used), \<open>Address_Security\<close>
    (\<open>address_security.py\<close>), \<open>Peer\<close> (\<open>peer.py\<close>), \<open>Protocol\<close> (\<open>protocol.py\<close>).
  \<^item> \<open>Network_Node\<close> (\<open>node.py\<close>, \<open>lifecycle.py\<close>, the client side of \<open>handshake.py\<close>), \<open>Propagation\<close>
    (\<open>propagation.py\<close>), \<open>Sync\<close> (\<open>sync.py\<close>, one round of the maintenance loop).
  \<^item> \<open>Network_Run\<close>: every operation of the networked node as a step; operations that touch peer data only
    are shown to leave what the core sees, the others are the core's \<open>commit_block\<close>, \<open>submit_transaction\<close>
    and \<open>replace_chain\<close>.  \<open>Network_Properties\<close>: the properties of the networked node.

  \<^bold>\<open>Application theories.\<close>
  \<^item> \<open>Schemas\<close> (\<open>api/schemas.py\<close>): request and response models; \<open>Network_Status\<close>: the model of a status response.
  \<^item> \<open>Network_Routes\<close> (\<open>api/network_routes.py\<close>): the endpoints between nodes, with the challenge store and the
    rate limiters of the process; \<open>Api_Routes\<close> (\<open>api/routes.py\<close>, the lifespan in \<open>api/main.py\<close>): the endpoints for
    users.  A handler maps the state of the process to a response or an HTTP error and the new state.
  \<^item> \<open>Middleware\<close> (\<open>api/middleware.py\<close> and its configuration in \<open>api/main.py\<close>): the limit on request bodies.
  \<^item> \<open>Api_Run\<close>: every request and the background task as a step relation, and the effect of each handler on the
    node; \<open>Api_Properties\<close>: what holds along every run, and what single requests achieve.
  \<^item> \<open>Process_Db\<close>: what a process may assume of the database it opens, and what a session leaves in it: the chain it
    loaded, only grown, in the tables.
  \<^item> \<open>Cli\<close> (\<open>cli/main.py\<close>): every command as a process over the database, and sessions of commands.
  \<^item> \<open>Installation\<close>: server processes and commands in any order on one database.

  \<^bold>\<open>Script theories.\<close>
  \<^item> \<open>V2_Reference\<close> (\<open>scripts/phase8/v2_reference.py\<close>): curve arithmetic, signatures, identifiers; \<open>V2_Vectors\<close>: the
    vector it writes and the script that checks it with another library.
  \<^item> \<open>Vectors\<close> (\<open>scripts/protocol_vectors\<close>): the generator and the checker of the compatibility vectors.
  \<^item> \<open>Run_Compare\<close> (\<open>scripts/phase10_1/compare_runs.py\<close>): the comparison of two recorded runs.

  \<^bold>\<open>What is shown.\<close>  Along every run, local or networked, with peers that send anything, the chain
  validates from genesis to tip, the tables hold that chain, cached balances are replayed balances, work never
  decreases and the genesis hash is constant; replay conserves supply and follows the issuance
  schedule; incremental and whole-chain validation agree; a tip hash binds the history below it;
  a reorganisation replaces exactly the suffix; mining ends at the first nonce; retargeting stays in its bounds.
  Accepted requests carry a fresh signature of the stored identity over exactly their payload and are not
  accepted twice while the cache remembers them; challenges are used once; broadcasts reach trusted
  peers only; synchronisation adopts only a heavier valid chain.
  Along every run of the application, whatever requests it gets, the same consistency holds, and the trusted addresses are
  exactly those that completed a handshake; an honest peer's handshake succeeds; the wrapped application sees
  bodies within the limit of the path only; failing peers never change the answer to a submission.  Every history of server
  lifetimes and commands on one database leaves a chain that validates, work that only grew, and as trusted addresses exactly
  those that completed a handshake.  Opening an old database keeps its ledger when the driver is transactional.
  The checker accepts the vectors the generator writes, and the model computes the retarget, work and monetary vectors that
  the repository keeps, value for value.  A checkpoint determines the state and a state root commits to it.  Multiples of curve points stay on the curve.
  Theorems on behaviour that contradicts a comment
  or an intention say so in their text.  Where two blocks, headers or payloads with equal hashes matter, the
  statement has the collision as an explicit alternative or hypothesis.

  \<^bold>\<open>Bounds of the model.\<close>  Strings are 8-bit; floats are exact rationals, with infinities and NaN where
  the code parses one; a JSON value of a type that the code stores without looking at it raises
  \<open>UntypedField\<close>, a result outside the modelled domain.  Within one operation the clock is read once.  The lock
  makes its sections atomic steps; interleaving inside a section is not modelled.

  \<^bold>\<open>Not modelled.\<close>  The libraries around the application: turning an HTTP body into a request object and a response
  into JSON text, CORS headers, the ASGI server.  Console markup and argument parsing of the command line.  The text
  of log records, and the JSON text of vector files: a file is the value in it.  The reset of module state that only tests call,
  and the asynchronous scheduling of the maintenance loop, whose rounds are steps.
\<close>

end
